theory Spec2Isabelle
  imports Main "HOL-Library.Word"
begin

unbundle bit_operations_syntax

section \<open>The MSI embedded-controller driver: data model\<close>

text \<open>
  This theory is a shallow embedding of the fan-control engine of \<^verbatim>\<open>msi-ec.c\<close>:
  profile resolution (\<^verbatim>\<open>load_configuration\<close>), the curve buffers and their
  synchronisation with the embedded controller (EC), the curve text codec
  (\<^verbatim>\<open>print_curve\<close>, \<^verbatim>\<open>read_curve\<close>) and the PWM-enable state machine of the hwmon
  interface. C \<^verbatim>\<open>int\<close> values stay far below 32 bits everywhere except in the
  result of \<^verbatim>\<open>sscanf\<close>, where the wrap-around is written out; they are \<^typ>\<open>int\<close>.
  Bytes (\<^verbatim>\<open>u8\<close>) are 8-bit words.
\<close>

type_synonym u8 = "8 word"

text \<open>
  Negative \<^verbatim>\<open>errno\<close> return values. \<open>EC_ERROR\<close> stands for whatever negative code the
  kernel's \<^verbatim>\<open>ec_read\<close>/\<^verbatim>\<open>ec_write\<close> return when the bus access fails. \<open>NULL_DEREF\<close>,
  \<open>OUT_OF_BOUNDS\<close> and \<open>UNDEFINED_SHIFT\<close> are not return values: they mark executions in
  which the C code dereferences a null pointer, indexes past an array, or shifts an
  \<^verbatim>\<open>unsigned long\<close> by 64 bits or more.
\<close>

datatype error =
  EINVAL | EIO | ENODATA | EOPNOTSUPP | ERANGE | EC_ERROR | NULL_DEREF | OUT_OF_BOUNDS | UNDEFINED_SHIFT

abbreviation (input) MSI_EC_ADDR_UNKNOWN :: int where "MSI_EC_ADDR_UNKNOWN \<equiv> 0xff01"
abbreviation (input) MSI_EC_ADDR_UNSUPP :: int where "MSI_EC_ADDR_UNSUPP \<equiv> 0xff01"

abbreviation (input) MSI_EC_FW_VERSION_ADDRESS :: int where "MSI_EC_FW_VERSION_ADDRESS \<equiv> 0xa0"
abbreviation (input) MSI_EC_FW_VERSION_LENGTH :: nat where "MSI_EC_FW_VERSION_LENGTH \<equiv> 12"

abbreviation (input) CURVE_MAX_ENTRIES :: nat where "CURVE_MAX_ENTRIES \<equiv> 16"
abbreviation (input) CURVE_APPLY_STRATEGY_NORMAL :: int where "CURVE_APPLY_STRATEGY_NORMAL \<equiv> 0"
abbreviation (input) CURVE_APPLY_STRATEGY_RESET_ON_AUTO :: int where "CURVE_APPLY_STRATEGY_RESET_ON_AUTO \<equiv> 1"

abbreviation FM_AUTO_NAME :: string where "FM_AUTO_NAME \<equiv> ''auto''"
abbreviation FM_SILENT_NAME :: string where "FM_SILENT_NAME \<equiv> ''silent''"
abbreviation FM_BASIC_NAME :: string where "FM_BASIC_NAME \<equiv> ''basic''"
abbreviation FM_ADVANCED_NAME :: string where "FM_ADVANCED_NAME \<equiv> ''advanced''"

text \<open>
  \<^verbatim>\<open>struct msi_ec_mode\<close>: a name (\<open>None\<close> is the \<^verbatim>\<open>NULL\<close> pointer) and a register value.
  The field names of the C structs are prefixed where two structs share one
  (\<^verbatim>\<open>address\<close>, \<^verbatim>\<open>name\<close>).
\<close>

record msi_ec_mode =
  mode_name :: "string option"
  mode_value :: int

abbreviation MSI_EC_MODE_NULL :: msi_ec_mode where
  "MSI_EC_MODE_NULL \<equiv> \<lparr>mode_name = None, mode_value = 0\<rparr>"

abbreviation MODE :: "string \<Rightarrow> int \<Rightarrow> msi_ec_mode" where
  "MODE n v \<equiv> \<lparr>mode_name = Some n, mode_value = v\<rparr>"

record msi_ec_cooler_boost_conf =
  cb_address :: int
  cb_bit :: int

text \<open>\<^verbatim>\<open>modes\<close> is the fixed array \<^verbatim>\<open>struct msi_ec_mode modes[5]\<close>: a list of five slots.\<close>

record msi_ec_fan_mode_conf =
  fm_address :: int
  fm_modes :: "msi_ec_mode list"

record msi_ec_fan_curve =
  speed_start_address :: int
  temperature_start_address :: int
  entries_count :: int
  apply_strategy :: int
  max_speed :: int

text \<open>
  \<^verbatim>\<open>struct msi_ec_conf\<close>, restricted to the members the fan-control engine reads.
  \<open>cpu_fan_curve\<close> and \<open>gpu_fan_curve\<close> are \<^verbatim>\<open>cpu.fan_curve\<close> and \<^verbatim>\<open>gpu.fan_curve\<close>.
  \<open>allowed_fw\<close> is a \<^verbatim>\<open>NULL\<close>-terminated array of strings, or \<open>None\<close> for the
  \<^verbatim>\<open>NULL\<close> pointer that \<^verbatim>\<open>load_configuration\<close> stores into the active copy.
\<close>

record msi_ec_conf =
  allowed_fw :: "string list option"
  cooler_boost :: msi_ec_cooler_boost_conf
  fan_mode :: msi_ec_fan_mode_conf
  cpu_fan_curve :: msi_ec_fan_curve
  gpu_fan_curve :: msi_ec_fan_curve

text \<open>A member left out of a C initialiser is zero.\<close>

definition no_fan_curve :: msi_ec_fan_curve where
  "no_fan_curve = \<lparr>speed_start_address = 0, temperature_start_address = 0,
     entries_count = 0, apply_strategy = 0, max_speed = 0\<rparr>"

subsection \<open>The profile registry\<close>

definition ALLOWED_FW_0 :: "string list" where
  "ALLOWED_FW_0 = [''14C1EMS1.012'', ''14C1EMS1.101'', ''14C1EMS1.102'']"

definition CONF0 :: msi_ec_conf where
  "CONF0 = \<lparr>allowed_fw = Some ALLOWED_FW_0,
     cooler_boost = \<lparr>cb_address = 0x98, cb_bit = 7\<rparr>,
     fan_mode = \<lparr>fm_address = 0xf4, fm_modes =
       [MODE FM_AUTO_NAME 0x0d, MODE FM_SILENT_NAME 0x1d, MODE FM_BASIC_NAME 0x4d,
        MODE FM_ADVANCED_NAME 0x8d, MSI_EC_MODE_NULL]\<rparr>,
     cpu_fan_curve = no_fan_curve,
     gpu_fan_curve = no_fan_curve\<rparr>"

definition ALLOWED_FW_1 :: "string list" where
  "ALLOWED_FW_1 = [''17F2EMS1.103'', ''17F2EMS1.104'', ''17F2EMS1.106'', ''17F2EMS1.107'']"

definition CONF1 :: msi_ec_conf where
  "CONF1 = \<lparr>allowed_fw = Some ALLOWED_FW_1,
     cooler_boost = \<lparr>cb_address = 0x98, cb_bit = 7\<rparr>,
     fan_mode = \<lparr>fm_address = 0xf4, fm_modes =
       [MODE FM_AUTO_NAME 0x0d, MODE FM_BASIC_NAME 0x4d, MODE FM_ADVANCED_NAME 0x8d,
        MSI_EC_MODE_NULL, MSI_EC_MODE_NULL]\<rparr>,
     cpu_fan_curve = no_fan_curve,
     gpu_fan_curve = no_fan_curve\<rparr>"

definition ALLOWED_FW_2 :: "string list" where
  "ALLOWED_FW_2 = [''1552EMS1.115'', ''1552EMS1.118'', ''1552EMS1.119'', ''1552EMS1.120'']"

definition CONF2 :: msi_ec_conf where
  "CONF2 = \<lparr>allowed_fw = Some ALLOWED_FW_2,
     cooler_boost = \<lparr>cb_address = 0x98, cb_bit = 7\<rparr>,
     fan_mode = \<lparr>fm_address = 0xd4, fm_modes =
       [MODE FM_AUTO_NAME 0x0d, MODE FM_SILENT_NAME 0x1d, MODE FM_BASIC_NAME 0x4d,
        MODE FM_ADVANCED_NAME 0x8d, MSI_EC_MODE_NULL]\<rparr>,
     cpu_fan_curve = no_fan_curve,
     gpu_fan_curve = no_fan_curve\<rparr>"

definition ALLOWED_FW_3 :: "string list" where
  "ALLOWED_FW_3 = [''1592EMS1.111'']"

definition CONF3 :: msi_ec_conf where
  "CONF3 = \<lparr>allowed_fw = Some ALLOWED_FW_3,
     cooler_boost = \<lparr>cb_address = 0x98, cb_bit = 7\<rparr>,
     fan_mode = \<lparr>fm_address = 0xd4, fm_modes =
       [MODE FM_AUTO_NAME 0x0d, MODE FM_SILENT_NAME 0x1d, MODE FM_BASIC_NAME 0x4d,
        MODE FM_ADVANCED_NAME 0x8d, MSI_EC_MODE_NULL]\<rparr>,
     cpu_fan_curve = no_fan_curve,
     gpu_fan_curve = no_fan_curve\<rparr>"

definition ALLOWED_FW_4 :: "string list" where
  "ALLOWED_FW_4 = [''16V4EMS1.114'']"

definition CONF4 :: msi_ec_conf where
  "CONF4 = \<lparr>allowed_fw = Some ALLOWED_FW_4,
     cooler_boost = \<lparr>cb_address = 0x98, cb_bit = 7\<rparr>,
     fan_mode = \<lparr>fm_address = 0xd4, fm_modes =
       [MODE FM_AUTO_NAME 0x0d, MODE FM_SILENT_NAME 0x1d, MODE FM_ADVANCED_NAME 0x8d,
        MSI_EC_MODE_NULL, MSI_EC_MODE_NULL]\<rparr>,
     cpu_fan_curve = no_fan_curve,
     gpu_fan_curve = no_fan_curve\<rparr>"

definition ALLOWED_FW_5 :: "string list" where
  "ALLOWED_FW_5 = [''158LEMS1.103'', ''158LEMS1.105'', ''158LEMS1.106'']"

definition CONF5 :: msi_ec_conf where
  "CONF5 = \<lparr>allowed_fw = Some ALLOWED_FW_5,
     cooler_boost = \<lparr>cb_address = 0x98, cb_bit = 7\<rparr>,
     fan_mode = \<lparr>fm_address = 0xf4, fm_modes =
       [MODE FM_AUTO_NAME 0x0d, MODE FM_SILENT_NAME 0x1d, MODE FM_ADVANCED_NAME 0x8d,
        MSI_EC_MODE_NULL, MSI_EC_MODE_NULL]\<rparr>,
     cpu_fan_curve = no_fan_curve,
     gpu_fan_curve = no_fan_curve\<rparr>"

definition ALLOWED_FW_6 :: "string list" where
  "ALLOWED_FW_6 = [''1542EMS1.102'', ''1542EMS1.104'']"

definition CONF6 :: msi_ec_conf where
  "CONF6 = \<lparr>allowed_fw = Some ALLOWED_FW_6,
     cooler_boost = \<lparr>cb_address = 0x98, cb_bit = 7\<rparr>,
     fan_mode = \<lparr>fm_address = 0xf4, fm_modes =
       [MODE FM_AUTO_NAME 0x0d, MODE FM_SILENT_NAME 0x1d, MODE FM_ADVANCED_NAME 0x8d,
        MSI_EC_MODE_NULL, MSI_EC_MODE_NULL]\<rparr>,
     cpu_fan_curve = no_fan_curve,
     gpu_fan_curve = no_fan_curve\<rparr>"

definition ALLOWED_FW_7 :: "string list" where
  "ALLOWED_FW_7 = [''17FKEMS1.108'', ''17FKEMS1.109'', ''17FKEMS1.10A'']"

definition CONF7 :: msi_ec_conf where
  "CONF7 = \<lparr>allowed_fw = Some ALLOWED_FW_7,
     cooler_boost = \<lparr>cb_address = 0x98, cb_bit = 7\<rparr>,
     fan_mode = \<lparr>fm_address = 0xf4, fm_modes =
       [MODE FM_AUTO_NAME 0x0d, MODE FM_SILENT_NAME 0x1d, MODE FM_ADVANCED_NAME 0x8d,
        MSI_EC_MODE_NULL, MSI_EC_MODE_NULL]\<rparr>,
     cpu_fan_curve = no_fan_curve,
     gpu_fan_curve = no_fan_curve\<rparr>"

definition ALLOWED_FW_8 :: "string list" where
  "ALLOWED_FW_8 = [''14F1EMS1.114'', ''14F1EMS1.115'', ''14F1EMS1.116'', ''14F1EMS1.117'', ''14F1EMS1.118'', ''14F1EMS1.119'', ''14F1EMS1.120'']"

definition CONF8 :: msi_ec_conf where
  "CONF8 = \<lparr>allowed_fw = Some ALLOWED_FW_8,
     cooler_boost = \<lparr>cb_address = 0x98, cb_bit = 7\<rparr>,
     fan_mode = \<lparr>fm_address = 0xd4, fm_modes =
       [MODE FM_AUTO_NAME 0x0d, MODE FM_SILENT_NAME 0x1d, MODE FM_ADVANCED_NAME 0x8d,
        MSI_EC_MODE_NULL, MSI_EC_MODE_NULL]\<rparr>,
     cpu_fan_curve = no_fan_curve,
     gpu_fan_curve = no_fan_curve\<rparr>"

definition ALLOWED_FW_9 :: "string list" where
  "ALLOWED_FW_9 = [''14JKEMS1.104'']"

definition CONF9 :: msi_ec_conf where
  "CONF9 = \<lparr>allowed_fw = Some ALLOWED_FW_9,
     cooler_boost = \<lparr>cb_address = 0x98, cb_bit = 7\<rparr>,
     fan_mode = \<lparr>fm_address = 0xf4, fm_modes =
       [MODE FM_AUTO_NAME 0x0d, MODE FM_SILENT_NAME 0x1d, MODE FM_ADVANCED_NAME 0x8d,
        MSI_EC_MODE_NULL, MSI_EC_MODE_NULL]\<rparr>,
     cpu_fan_curve = no_fan_curve,
     gpu_fan_curve = no_fan_curve\<rparr>"

definition ALLOWED_FW_10 :: "string list" where
  "ALLOWED_FW_10 = [''1582EMS1.107'']"

definition CONF10 :: msi_ec_conf where
  "CONF10 = \<lparr>allowed_fw = Some ALLOWED_FW_10,
     cooler_boost = \<lparr>cb_address = 0x98, cb_bit = 7\<rparr>,
     fan_mode = \<lparr>fm_address = 0xd4, fm_modes =
       [MODE FM_AUTO_NAME 0x0d, MODE FM_SILENT_NAME 0x1d, MODE FM_ADVANCED_NAME 0x8d,
        MSI_EC_MODE_NULL, MSI_EC_MODE_NULL]\<rparr>,
     cpu_fan_curve = no_fan_curve,
     gpu_fan_curve = no_fan_curve\<rparr>"

definition ALLOWED_FW_11 :: "string list" where
  "ALLOWED_FW_11 = [''16S6EMS1.111'']"

definition CONF11 :: msi_ec_conf where
  "CONF11 = \<lparr>allowed_fw = Some ALLOWED_FW_11,
     cooler_boost = \<lparr>cb_address = 0x98, cb_bit = 7\<rparr>,
     fan_mode = \<lparr>fm_address = 0xd4, fm_modes =
       [MODE FM_AUTO_NAME 0x0d, MODE FM_SILENT_NAME 0x1d, MODE FM_ADVANCED_NAME 0x4d,
        MSI_EC_MODE_NULL, MSI_EC_MODE_NULL]\<rparr>,
     cpu_fan_curve = no_fan_curve,
     gpu_fan_curve = no_fan_curve\<rparr>"

definition ALLOWED_FW_12 :: "string list" where
  "ALLOWED_FW_12 = [''16R6EMS1.104'', ''16R6EMS1.106'', ''16R6EMS1.107'']"

definition CONF12 :: msi_ec_conf where
  "CONF12 = \<lparr>allowed_fw = Some ALLOWED_FW_12,
     cooler_boost = \<lparr>cb_address = 0x98, cb_bit = 7\<rparr>,
     fan_mode = \<lparr>fm_address = 0xd4, fm_modes =
       [MODE FM_AUTO_NAME 0x0d, MODE FM_SILENT_NAME 0x1d, MODE FM_ADVANCED_NAME 0x8d,
        MSI_EC_MODE_NULL, MSI_EC_MODE_NULL]\<rparr>,
     cpu_fan_curve = no_fan_curve,
     gpu_fan_curve = no_fan_curve\<rparr>"

definition ALLOWED_FW_13 :: "string list" where
  "ALLOWED_FW_13 = [''1594EMS1.109'']"

definition CONF13 :: msi_ec_conf where
  "CONF13 = \<lparr>allowed_fw = Some ALLOWED_FW_13,
     cooler_boost = \<lparr>cb_address = 0x98, cb_bit = 7\<rparr>,
     fan_mode = \<lparr>fm_address = 0xd4, fm_modes =
       [MODE FM_AUTO_NAME 0x0d, MODE FM_SILENT_NAME 0x1d, MODE FM_ADVANCED_NAME 0x8d,
        MSI_EC_MODE_NULL, MSI_EC_MODE_NULL]\<rparr>,
     cpu_fan_curve = no_fan_curve,
     gpu_fan_curve = no_fan_curve\<rparr>"

definition ALLOWED_FW_14 :: "string list" where
  "ALLOWED_FW_14 = [''17L2EMS1.108'']"

definition CONF14 :: msi_ec_conf where
  "CONF14 = \<lparr>allowed_fw = Some ALLOWED_FW_14,
     cooler_boost = \<lparr>cb_address = 0x98, cb_bit = 7\<rparr>,
     fan_mode = \<lparr>fm_address = 0xd4, fm_modes =
       [MODE FM_AUTO_NAME 0x0d, MODE FM_SILENT_NAME 0x1d, MODE FM_ADVANCED_NAME 0x8d,
        MSI_EC_MODE_NULL, MSI_EC_MODE_NULL]\<rparr>,
     cpu_fan_curve = no_fan_curve,
     gpu_fan_curve = no_fan_curve\<rparr>"

definition ALLOWED_FW_15 :: "string list" where
  "ALLOWED_FW_15 = [''15CKEMS1.108'']"

definition CONF15 :: msi_ec_conf where
  "CONF15 = \<lparr>allowed_fw = Some ALLOWED_FW_15,
     cooler_boost = \<lparr>cb_address = 0x98, cb_bit = 7\<rparr>,
     fan_mode = \<lparr>fm_address = 0xf4, fm_modes =
       [MODE FM_AUTO_NAME 0x0d, MODE FM_SILENT_NAME 0x1d, MODE FM_ADVANCED_NAME 0x8d,
        MSI_EC_MODE_NULL, MSI_EC_MODE_NULL]\<rparr>,
     cpu_fan_curve = no_fan_curve,
     gpu_fan_curve = no_fan_curve\<rparr>"

definition ALLOWED_FW_16 :: "string list" where
  "ALLOWED_FW_16 = [''155LEMS1.105'', ''155LEMS1.106'']"

definition CONF16 :: msi_ec_conf where
  "CONF16 = \<lparr>allowed_fw = Some ALLOWED_FW_16,
     cooler_boost = \<lparr>cb_address = 0x98, cb_bit = 7\<rparr>,
     fan_mode = \<lparr>fm_address = 0xf4, fm_modes =
       [MODE FM_AUTO_NAME 0x0d, MODE FM_SILENT_NAME 0x1d, MODE FM_ADVANCED_NAME 0x8d,
        MSI_EC_MODE_NULL, MSI_EC_MODE_NULL]\<rparr>,
     cpu_fan_curve = no_fan_curve,
     gpu_fan_curve = no_fan_curve\<rparr>"

definition ALLOWED_FW_17 :: "string list" where
  "ALLOWED_FW_17 = [''15K1IMS1.110'', ''15K1IMS1.112'', ''15K1IMS1.113'']"

definition CONF17 :: msi_ec_conf where
  "CONF17 = \<lparr>allowed_fw = Some ALLOWED_FW_17,
     cooler_boost = \<lparr>cb_address = 0x98, cb_bit = 7\<rparr>,
     fan_mode = \<lparr>fm_address = 0xd4, fm_modes =
       [MODE FM_AUTO_NAME 0x0d, MODE FM_SILENT_NAME 0x1d, MODE FM_ADVANCED_NAME 0x8d,
        MSI_EC_MODE_NULL, MSI_EC_MODE_NULL]\<rparr>,
     cpu_fan_curve = no_fan_curve,
     gpu_fan_curve = no_fan_curve\<rparr>"

definition ALLOWED_FW_18 :: "string list" where
  "ALLOWED_FW_18 = [''15HKEMS1.104'']"

definition CONF18 :: msi_ec_conf where
  "CONF18 = \<lparr>allowed_fw = Some ALLOWED_FW_18,
     cooler_boost = \<lparr>cb_address = 0x98, cb_bit = 7\<rparr>,
     fan_mode = \<lparr>fm_address = 0xf4, fm_modes =
       [MODE FM_AUTO_NAME 0x0d, MODE FM_SILENT_NAME 0x1d, MODE FM_ADVANCED_NAME 0x8d,
        MSI_EC_MODE_NULL, MSI_EC_MODE_NULL]\<rparr>,
     cpu_fan_curve = no_fan_curve,
     gpu_fan_curve = no_fan_curve\<rparr>"

definition ALLOWED_FW_19 :: "string list" where
  "ALLOWED_FW_19 = [''1543EMS1.113'']"

definition CONF19 :: msi_ec_conf where
  "CONF19 = \<lparr>allowed_fw = Some ALLOWED_FW_19,
     cooler_boost = \<lparr>cb_address = 0x98, cb_bit = 7\<rparr>,
     fan_mode = \<lparr>fm_address = 0xd4, fm_modes =
       [MODE FM_AUTO_NAME 0x0d, MODE FM_SILENT_NAME 0x1d, MODE FM_ADVANCED_NAME 0x8d,
        MSI_EC_MODE_NULL, MSI_EC_MODE_NULL]\<rparr>,
     cpu_fan_curve = no_fan_curve,
     gpu_fan_curve = no_fan_curve\<rparr>"

definition ALLOWED_FW_20 :: "string list" where
  "ALLOWED_FW_20 = [''1581EMS1.107'']"

definition CONF20 :: msi_ec_conf where
  "CONF20 = \<lparr>allowed_fw = Some ALLOWED_FW_20,
     cooler_boost = \<lparr>cb_address = 0x98, cb_bit = 7\<rparr>,
     fan_mode = \<lparr>fm_address = 0xd4, fm_modes =
       [MODE FM_AUTO_NAME 0x0d, MODE FM_SILENT_NAME 0x1d, MODE FM_ADVANCED_NAME 0x8d,
        MSI_EC_MODE_NULL, MSI_EC_MODE_NULL]\<rparr>,
     cpu_fan_curve = no_fan_curve,
     gpu_fan_curve = no_fan_curve\<rparr>"

definition ALLOWED_FW_21 :: "string list" where
  "ALLOWED_FW_21 = [''16R3EMS1.102'', ''16R3EMS1.104'']"

definition CONF21 :: msi_ec_conf where
  "CONF21 = \<lparr>allowed_fw = Some ALLOWED_FW_21,
     cooler_boost = \<lparr>cb_address = 0x98, cb_bit = 7\<rparr>,
     fan_mode = \<lparr>fm_address = 0xf4, fm_modes =
       [MODE FM_AUTO_NAME 0x0d, MODE FM_BASIC_NAME 0x4d, MODE FM_ADVANCED_NAME 0x8d,
        MSI_EC_MODE_NULL, MSI_EC_MODE_NULL]\<rparr>,
     cpu_fan_curve = no_fan_curve,
     gpu_fan_curve = no_fan_curve\<rparr>"

definition ALLOWED_FW_22 :: "string list" where
  "ALLOWED_FW_22 = [''17LLEMS1.106'']"

definition CONF22 :: msi_ec_conf where
  "CONF22 = \<lparr>allowed_fw = Some ALLOWED_FW_22,
     cooler_boost = \<lparr>cb_address = 0x98, cb_bit = 7\<rparr>,
     fan_mode = \<lparr>fm_address = 0xf4, fm_modes =
       [MODE FM_AUTO_NAME 0x0d, MODE FM_SILENT_NAME 0x1d, MODE FM_ADVANCED_NAME 0x8d,
        MSI_EC_MODE_NULL, MSI_EC_MODE_NULL]\<rparr>,
     cpu_fan_curve = no_fan_curve,
     gpu_fan_curve = no_fan_curve\<rparr>"

definition ALLOWED_FW_23 :: "string list" where
  "ALLOWED_FW_23 = [''16WKEMS1.105'']"

definition CONF23 :: msi_ec_conf where
  "CONF23 = \<lparr>allowed_fw = Some ALLOWED_FW_23,
     cooler_boost = \<lparr>cb_address = 0x98, cb_bit = 7\<rparr>,
     fan_mode = \<lparr>fm_address = 0xf4, fm_modes =
       [MODE FM_AUTO_NAME 0x0d, MODE FM_SILENT_NAME 0x1d, MODE FM_ADVANCED_NAME 0x8d,
        MSI_EC_MODE_NULL, MSI_EC_MODE_NULL]\<rparr>,
     cpu_fan_curve = no_fan_curve,
     gpu_fan_curve = no_fan_curve\<rparr>"

definition ALLOWED_FW_24 :: "string list" where
  "ALLOWED_FW_24 = [''14D1EMS1.103'']"

definition CONF24 :: msi_ec_conf where
  "CONF24 = \<lparr>allowed_fw = Some ALLOWED_FW_24,
     cooler_boost = \<lparr>cb_address = 0x98, cb_bit = 7\<rparr>,
     fan_mode = \<lparr>fm_address = 0xf4, fm_modes =
       [MODE FM_AUTO_NAME 0x0d, MODE FM_SILENT_NAME 0x1d, MODE FM_ADVANCED_NAME 0x8d,
        MSI_EC_MODE_NULL, MSI_EC_MODE_NULL]\<rparr>,
     cpu_fan_curve = no_fan_curve,
     gpu_fan_curve = no_fan_curve\<rparr>"

definition ALLOWED_FW_25 :: "string list" where
  "ALLOWED_FW_25 = [''14F1EMS1.209'', ''14F1EMS1.211'']"

definition CONF25 :: msi_ec_conf where
  "CONF25 = \<lparr>allowed_fw = Some ALLOWED_FW_25,
     cooler_boost = \<lparr>cb_address = 0x98, cb_bit = 7\<rparr>,
     fan_mode = \<lparr>fm_address = 0xd4, fm_modes =
       [MODE FM_AUTO_NAME 0x0d, MODE FM_SILENT_NAME 0x1d, MODE FM_ADVANCED_NAME 0x8d,
        MSI_EC_MODE_NULL, MSI_EC_MODE_NULL]\<rparr>,
     cpu_fan_curve = no_fan_curve,
     gpu_fan_curve = no_fan_curve\<rparr>"

definition ALLOWED_FW_26 :: "string list" where
  "ALLOWED_FW_26 = [''14DLEMS1.105'']"

definition CONF26 :: msi_ec_conf where
  "CONF26 = \<lparr>allowed_fw = Some ALLOWED_FW_26,
     cooler_boost = \<lparr>cb_address = 0x98, cb_bit = 7\<rparr>,
     fan_mode = \<lparr>fm_address = 0xd4, fm_modes =
       [MODE FM_AUTO_NAME 0x0d, MODE FM_SILENT_NAME 0x1d, MODE FM_ADVANCED_NAME 0x8d,
        MSI_EC_MODE_NULL, MSI_EC_MODE_NULL]\<rparr>,
     cpu_fan_curve = no_fan_curve,
     gpu_fan_curve = no_fan_curve\<rparr>"

definition ALLOWED_FW_27 :: "string list" where
  "ALLOWED_FW_27 = [''17S2IMS1.113'']"

definition CONF27 :: msi_ec_conf where
  "CONF27 = \<lparr>allowed_fw = Some ALLOWED_FW_27,
     cooler_boost = \<lparr>cb_address = 0x98, cb_bit = 7\<rparr>,
     fan_mode = \<lparr>fm_address = 0xd4, fm_modes =
       [MODE FM_AUTO_NAME 0x0d, MODE FM_SILENT_NAME 0x1d, MODE FM_ADVANCED_NAME 0x8d,
        MSI_EC_MODE_NULL, MSI_EC_MODE_NULL]\<rparr>,
     cpu_fan_curve = no_fan_curve,
     gpu_fan_curve = no_fan_curve\<rparr>"

definition ALLOWED_FW_28 :: "string list" where
  "ALLOWED_FW_28 = [''1822EMS1.105'', ''1822EMS1.109'', ''1822EMS1.111'', ''1822EMS1.112'', ''1822EMS1.114'', ''1822EMS1.115'']"

definition CONF28 :: msi_ec_conf where
  "CONF28 = \<lparr>allowed_fw = Some ALLOWED_FW_28,
     cooler_boost = \<lparr>cb_address = 0x98, cb_bit = 7\<rparr>,
     fan_mode = \<lparr>fm_address = 0xd4, fm_modes =
       [MODE FM_AUTO_NAME 0x0d, MODE FM_SILENT_NAME 0x1d, MODE FM_ADVANCED_NAME 0x8d,
        MSI_EC_MODE_NULL, MSI_EC_MODE_NULL]\<rparr>,
     cpu_fan_curve = no_fan_curve,
     gpu_fan_curve = no_fan_curve\<rparr>"

definition ALLOWED_FW_29 :: "string list" where
  "ALLOWED_FW_29 = [''16V5EMS1.107'']"

definition CONF29 :: msi_ec_conf where
  "CONF29 = \<lparr>allowed_fw = Some ALLOWED_FW_29,
     cooler_boost = \<lparr>cb_address = 0x98, cb_bit = 7\<rparr>,
     fan_mode = \<lparr>fm_address = 0xd4, fm_modes =
       [MODE FM_AUTO_NAME 0x0d, MODE FM_SILENT_NAME 0x1d, MODE FM_ADVANCED_NAME 0x8d,
        MSI_EC_MODE_NULL, MSI_EC_MODE_NULL]\<rparr>,
     cpu_fan_curve = no_fan_curve,
     gpu_fan_curve = no_fan_curve\<rparr>"

definition ALLOWED_FW_30 :: "string list" where
  "ALLOWED_FW_30 = [''17Q2IMS1.10D'']"

definition CONF30 :: msi_ec_conf where
  "CONF30 = \<lparr>allowed_fw = Some ALLOWED_FW_30,
     cooler_boost = \<lparr>cb_address = 0x98, cb_bit = 7\<rparr>,
     fan_mode = \<lparr>fm_address = 0xd4, fm_modes =
       [MODE FM_AUTO_NAME 0x0d, MODE FM_SILENT_NAME 0x1d, MODE FM_ADVANCED_NAME 0x8d,
        MSI_EC_MODE_NULL, MSI_EC_MODE_NULL]\<rparr>,
     cpu_fan_curve = no_fan_curve,
     gpu_fan_curve = no_fan_curve\<rparr>"

definition ALLOWED_FW_31 :: "string list" where
  "ALLOWED_FW_31 = [''16Q4EMS1.110'']"

definition CONF31 :: msi_ec_conf where
  "CONF31 = \<lparr>allowed_fw = Some ALLOWED_FW_31,
     cooler_boost = \<lparr>cb_address = 0x98, cb_bit = 7\<rparr>,
     fan_mode = \<lparr>fm_address = 0xf4, fm_modes =
       [MODE FM_BASIC_NAME 0x4c, MODE FM_AUTO_NAME 0x0c, MODE FM_ADVANCED_NAME 0x8c,
        MSI_EC_MODE_NULL, MSI_EC_MODE_NULL]\<rparr>,
     cpu_fan_curve = no_fan_curve,
     gpu_fan_curve = no_fan_curve\<rparr>"

definition ALLOWED_FW_32 :: "string list" where
  "ALLOWED_FW_32 = [''158PIMS1.207'', ''158PIMS1.112'']"

definition CONF32 :: msi_ec_conf where
  "CONF32 = \<lparr>allowed_fw = Some ALLOWED_FW_32,
     cooler_boost = \<lparr>cb_address = 0x98, cb_bit = 7\<rparr>,
     fan_mode = \<lparr>fm_address = 0xd4, fm_modes =
       [MODE FM_AUTO_NAME 0x0d, MODE FM_SILENT_NAME 0x1d, MODE FM_ADVANCED_NAME 0x8d,
        MSI_EC_MODE_NULL, MSI_EC_MODE_NULL]\<rparr>,
     cpu_fan_curve = no_fan_curve,
     gpu_fan_curve = no_fan_curve\<rparr>"

definition ALLOWED_FW_33 :: "string list" where
  "ALLOWED_FW_33 = [''17N1EMS1.109'']"

definition CONF33 :: msi_ec_conf where
  "CONF33 = \<lparr>allowed_fw = Some ALLOWED_FW_33,
     cooler_boost = \<lparr>cb_address = 0x98, cb_bit = 7\<rparr>,
     fan_mode = \<lparr>fm_address = 0xd4, fm_modes =
       [MODE FM_AUTO_NAME 0x0d, MODE FM_SILENT_NAME 0x1d, MODE FM_ADVANCED_NAME 0x4d,
        MSI_EC_MODE_NULL, MSI_EC_MODE_NULL]\<rparr>,
     cpu_fan_curve = no_fan_curve,
     gpu_fan_curve = no_fan_curve\<rparr>"

definition ALLOWED_FW_34 :: "string list" where
  "ALLOWED_FW_34 = [''14C6EMS1.109'']"

definition CONF34 :: msi_ec_conf where
  "CONF34 = \<lparr>allowed_fw = Some ALLOWED_FW_34,
     cooler_boost = \<lparr>cb_address = 0x98, cb_bit = 7\<rparr>,
     fan_mode = \<lparr>fm_address = 0xd4, fm_modes =
       [MODE FM_AUTO_NAME 0x0d, MODE FM_SILENT_NAME 0x1d, MODE FM_ADVANCED_NAME 0x4d,
        MSI_EC_MODE_NULL, MSI_EC_MODE_NULL]\<rparr>,
     cpu_fan_curve = no_fan_curve,
     gpu_fan_curve = no_fan_curve\<rparr>"

definition ALLOWED_FW_35 :: "string list" where
  "ALLOWED_FW_35 = [''15M2IMS1.113'']"

definition CONF35 :: msi_ec_conf where
  "CONF35 = \<lparr>allowed_fw = Some ALLOWED_FW_35,
     cooler_boost = \<lparr>cb_address = 0x98, cb_bit = 7\<rparr>,
     fan_mode = \<lparr>fm_address = 0xd4, fm_modes =
       [MODE FM_AUTO_NAME 0x0d, MODE FM_SILENT_NAME 0x1d, MODE FM_ADVANCED_NAME 0x8d,
        MSI_EC_MODE_NULL, MSI_EC_MODE_NULL]\<rparr>,
     cpu_fan_curve = no_fan_curve,
     gpu_fan_curve = no_fan_curve\<rparr>"

definition ALLOWED_FW_36 :: "string list" where
  "ALLOWED_FW_36 = [''1585EMS1.115'']"

definition CONF36 :: msi_ec_conf where
  "CONF36 = \<lparr>allowed_fw = Some ALLOWED_FW_36,
     cooler_boost = \<lparr>cb_address = 0x98, cb_bit = 7\<rparr>,
     fan_mode = \<lparr>fm_address = 0xd4, fm_modes =
       [MODE FM_AUTO_NAME 0x0d, MODE FM_SILENT_NAME 0x1d, MODE FM_ADVANCED_NAME 0x8d,
        MSI_EC_MODE_NULL, MSI_EC_MODE_NULL]\<rparr>,
     cpu_fan_curve = no_fan_curve,
     gpu_fan_curve = no_fan_curve\<rparr>"

definition ALLOWED_FW_37 :: "string list" where
  "ALLOWED_FW_37 = [''15M1IMS1.113'']"

definition CONF37 :: msi_ec_conf where
  "CONF37 = \<lparr>allowed_fw = Some ALLOWED_FW_37,
     cooler_boost = \<lparr>cb_address = 0x98, cb_bit = 7\<rparr>,
     fan_mode = \<lparr>fm_address = 0xd4, fm_modes =
       [MODE FM_AUTO_NAME 0x0d, MODE FM_SILENT_NAME 0x1d, MODE FM_ADVANCED_NAME 0x8d,
        MSI_EC_MODE_NULL, MSI_EC_MODE_NULL]\<rparr>,
     cpu_fan_curve = no_fan_curve,
     gpu_fan_curve = no_fan_curve\<rparr>"

definition ALLOWED_FW_38 :: "string list" where
  "ALLOWED_FW_38 = [''17E8IMS1.106'', ''17E8EMS1.101'']"

definition CONF38 :: msi_ec_conf where
  "CONF38 = \<lparr>allowed_fw = Some ALLOWED_FW_38,
     cooler_boost = \<lparr>cb_address = 0x98, cb_bit = 7\<rparr>,
     fan_mode = \<lparr>fm_address = 0xf4, fm_modes =
       [MODE FM_AUTO_NAME 0x00, MODE FM_ADVANCED_NAME 0x80, MSI_EC_MODE_NULL,
        MSI_EC_MODE_NULL, MSI_EC_MODE_NULL]\<rparr>,
     cpu_fan_curve = no_fan_curve,
     gpu_fan_curve = no_fan_curve\<rparr>"

definition ALLOWED_FW_39 :: "string list" where
  "ALLOWED_FW_39 = [''16R8IMS1.117'']"

definition CONF39 :: msi_ec_conf where
  "CONF39 = \<lparr>allowed_fw = Some ALLOWED_FW_39,
     cooler_boost = \<lparr>cb_address = 0x98, cb_bit = 7\<rparr>,
     fan_mode = \<lparr>fm_address = 0xd4, fm_modes =
       [MODE FM_AUTO_NAME 0x0d, MODE FM_SILENT_NAME 0x1d, MODE FM_ADVANCED_NAME 0x8d,
        MSI_EC_MODE_NULL, MSI_EC_MODE_NULL]\<rparr>,
     cpu_fan_curve = no_fan_curve,
     gpu_fan_curve = no_fan_curve\<rparr>"

definition ALLOWED_FW_40 :: "string list" where
  "ALLOWED_FW_40 = [''17S1IMS1.105'']"

definition CONF40 :: msi_ec_conf where
  "CONF40 = \<lparr>allowed_fw = Some ALLOWED_FW_40,
     cooler_boost = \<lparr>cb_address = 0x98, cb_bit = 7\<rparr>,
     fan_mode = \<lparr>fm_address = 0xd4, fm_modes =
       [MODE FM_AUTO_NAME 0x0d, MODE FM_SILENT_NAME 0x1d, MODE FM_ADVANCED_NAME 0x8d,
        MSI_EC_MODE_NULL, MSI_EC_MODE_NULL]\<rparr>,
     cpu_fan_curve = no_fan_curve,
     gpu_fan_curve = no_fan_curve\<rparr>"

definition ALLOWED_FW_401 :: "string list" where
  "ALLOWED_FW_401 = [''1T52EMS1.104'']"

definition CONF401 :: msi_ec_conf where
  "CONF401 = \<lparr>allowed_fw = Some ALLOWED_FW_401,
     cooler_boost = \<lparr>cb_address = 0x98, cb_bit = 7\<rparr>,
     fan_mode = \<lparr>fm_address = 0xd4, fm_modes =
       [MODE FM_AUTO_NAME 0x00, MODE FM_SILENT_NAME 0x10, MODE FM_ADVANCED_NAME 0x80,
        MSI_EC_MODE_NULL, MSI_EC_MODE_NULL]\<rparr>,
     cpu_fan_curve = \<lparr>speed_start_address = 0x72, temperature_start_address = 0x6a,
        entries_count = 7, apply_strategy = CURVE_APPLY_STRATEGY_RESET_ON_AUTO, max_speed = 150\<rparr>,
     gpu_fan_curve = \<lparr>speed_start_address = 0x8a, temperature_start_address = 0x82,
        entries_count = 7, apply_strategy = CURVE_APPLY_STRATEGY_RESET_ON_AUTO, max_speed = 150\<rparr>\<rparr>"

definition ALLOWED_FW_41 :: "string list" where
  "ALLOWED_FW_41 = [''15M1IMS2.111'']"

definition CONF41 :: msi_ec_conf where
  "CONF41 = \<lparr>allowed_fw = Some ALLOWED_FW_41,
     cooler_boost = \<lparr>cb_address = 0x98, cb_bit = 7\<rparr>,
     fan_mode = \<lparr>fm_address = 0xd4, fm_modes =
       [MODE FM_AUTO_NAME 0x0d, MODE FM_ADVANCED_NAME 0x8d, MSI_EC_MODE_NULL,
        MSI_EC_MODE_NULL, MSI_EC_MODE_NULL]\<rparr>,
     cpu_fan_curve = no_fan_curve,
     gpu_fan_curve = no_fan_curve\<rparr>"

definition ALLOWED_FW_42 :: "string list" where
  "ALLOWED_FW_42 = [''14L1EMS1.307'', ''14L1EMS1.308'']"

definition CONF42 :: msi_ec_conf where
  "CONF42 = \<lparr>allowed_fw = Some ALLOWED_FW_42,
     cooler_boost = \<lparr>cb_address = 0x98, cb_bit = 7\<rparr>,
     fan_mode = \<lparr>fm_address = 0xd4, fm_modes =
       [MODE FM_AUTO_NAME 0x0d, MODE FM_SILENT_NAME 0x1d, MODE FM_ADVANCED_NAME 0x8d,
        MSI_EC_MODE_NULL, MSI_EC_MODE_NULL]\<rparr>,
     cpu_fan_curve = no_fan_curve,
     gpu_fan_curve = no_fan_curve\<rparr>"

definition ALLOWED_FW_43 :: "string list" where
  "ALLOWED_FW_43 = [''14DKEMS1.104'']"

definition CONF43 :: msi_ec_conf where
  "CONF43 = \<lparr>allowed_fw = Some ALLOWED_FW_43,
     cooler_boost = \<lparr>cb_address = 0x98, cb_bit = 7\<rparr>,
     fan_mode = \<lparr>fm_address = 0xd4, fm_modes =
       [MODE FM_AUTO_NAME 0x0d, MODE FM_SILENT_NAME 0x1d, MODE FM_ADVANCED_NAME 0x8d,
        MSI_EC_MODE_NULL, MSI_EC_MODE_NULL]\<rparr>,
     cpu_fan_curve = no_fan_curve,
     gpu_fan_curve = no_fan_curve\<rparr>"

definition ALLOWED_FW_44 :: "string list" where
  "ALLOWED_FW_44 = [''17LNIMS1.505'']"

definition CONF44 :: msi_ec_conf where
  "CONF44 = \<lparr>allowed_fw = Some ALLOWED_FW_44,
     cooler_boost = \<lparr>cb_address = 0x98, cb_bit = 7\<rparr>,
     fan_mode = \<lparr>fm_address = 0xd4, fm_modes =
       [MODE FM_AUTO_NAME 0x0d, MODE FM_SILENT_NAME 0x1d, MODE FM_ADVANCED_NAME 0x8d,
        MSI_EC_MODE_NULL, MSI_EC_MODE_NULL]\<rparr>,
     cpu_fan_curve = no_fan_curve,
     gpu_fan_curve = no_fan_curve\<rparr>"

definition CONFIGURATIONS :: "msi_ec_conf list" where
  "CONFIGURATIONS =
    [CONF0, CONF1, CONF2, CONF3, CONF4, CONF5, CONF6, CONF7,
     CONF8, CONF9, CONF10, CONF11, CONF12, CONF13, CONF14, CONF15,
     CONF16, CONF17, CONF18, CONF19, CONF20, CONF21, CONF22, CONF23,
     CONF24, CONF25, CONF26, CONF27, CONF28, CONF29, CONF30, CONF31,
     CONF32, CONF33, CONF34, CONF35, CONF36, CONF37, CONF38, CONF39,
     CONF40, CONF401, CONF41, CONF42, CONF43, CONF44]"

section \<open>The embedded controller\<close>

text \<open>
  The driver reaches the EC only through the kernel's \<^verbatim>\<open>ec_read(u8 addr, u8 *val)\<close> and
  \<^verbatim>\<open>ec_write(u8 addr, u8 val)\<close>. The EC is modelled as a byte-addressed memory. Each access
  consumes one entry of \<open>faults\<close>: \<open>True\<close> makes that access fail with a negative error
  code and leave memory (and \<^verbatim>\<open>*val\<close>) alone; once the list is used up every access
  succeeds. \<open>written\<close> logs the successful writes in order.
\<close>

record ec_state =
  mem :: "u8 \<Rightarrow> u8"
  faults :: "bool list"
  written :: "(u8 \<times> u8) list"

definition ec_access :: "ec_state \<Rightarrow> bool \<times> ec_state" where
  "ec_access e = (case faults e of [] \<Rightarrow> (False, e) | f # fs \<Rightarrow> (f, e\<lparr>faults := fs\<rparr>))"

definition ec_read :: "u8 \<Rightarrow> ec_state \<Rightarrow> (error + u8) \<times> ec_state" where
  "ec_read addr e =
     (case ec_access e of
        (True, e') \<Rightarrow> (Inl EC_ERROR, e')
      | (False, e') \<Rightarrow> (Inr (mem e' addr), e'))"

definition ec_write :: "u8 \<Rightarrow> u8 \<Rightarrow> ec_state \<Rightarrow> (error + int) \<times> ec_state" where
  "ec_write addr val e =
     (case ec_access e of
        (True, e') \<Rightarrow> (Inl EC_ERROR, e')
      | (False, e') \<Rightarrow>
          (Inr 0, e'\<lparr>mem := (mem e')(addr := val), written := written e' @ [(addr, val)]\<rparr>))"

text \<open>
  \<^verbatim>\<open>ec_read_seq(addr, buf, len)\<close>: \<open>len\<close> reads at \<open>addr + i\<close> into \<open>buf[i]\<close>, stopping at
  the first failure. The address is converted to \<^verbatim>\<open>u8\<close> at each call of \<^verbatim>\<open>ec_read\<close>.
\<close>

fun ec_read_seq_from :: "nat \<Rightarrow> nat \<Rightarrow> int \<Rightarrow> u8 list \<Rightarrow> ec_state \<Rightarrow> (error + int) \<times> u8 list \<times> ec_state" where
  "ec_read_seq_from i 0 addr buf e = (Inr 0, buf, e)"
| "ec_read_seq_from i (Suc k) addr buf e =
     (case ec_read (of_int (addr + int i)) e of
        (Inl err, e') \<Rightarrow> (Inl err, buf, e')
      | (Inr v, e') \<Rightarrow> ec_read_seq_from (Suc i) k addr (buf[i := v]) e')"

definition ec_read_seq :: "int \<Rightarrow> u8 list \<Rightarrow> nat \<Rightarrow> ec_state \<Rightarrow> (error + int) \<times> u8 list \<times> ec_state" where
  "ec_read_seq addr buf len e = ec_read_seq_from 0 len addr buf e"




text \<open>
  \<^verbatim>\<open>ec_get_firmware_version\<close> reads twelve bytes at \<^verbatim>\<open>0xa0\<close> into a zeroed buffer of
  thirteen; the caller uses the buffer as a C string, which ends at its first zero byte.
\<close>

definition c_string :: "u8 list \<Rightarrow> string" where
  "c_string bytes = map (\<lambda>b. char_of (unat b)) (takeWhile (\<lambda>b. b \<noteq> 0) bytes)"

definition ec_get_firmware_version :: "ec_state \<Rightarrow> (error + string) \<times> ec_state" where
  "ec_get_firmware_version e =
     (case ec_read_seq MSI_EC_FW_VERSION_ADDRESS (replicate (MSI_EC_FW_VERSION_LENGTH + 1) 0)
             MSI_EC_FW_VERSION_LENGTH e of
        (Inl err, buf, e') \<Rightarrow> (Inl err, e')
      | (Inr _, buf, e') \<Rightarrow> (Inr (c_string buf), e'))"

section \<open>Driver state\<close>

text \<open>
  The four static arrays behind one \<^verbatim>\<open>struct curve_pack\<close> (each \<^verbatim>\<open>u8[CURVE_MAX_ENTRIES]\<close>);
  the pack's \<^verbatim>\<open>curve\<close> pointer is \<open>cpu_fan_curve\<close> or \<open>gpu_fan_curve\<close> of the active
  configuration.
\<close>

record curve_pack =
  curve_temp :: "u8 list"
  curve_temp_default :: "u8 list"
  curve_fan_speed :: "u8 list"
  curve_fan_speed_default :: "u8 list"

text \<open>
  The module's global variables, together with the EC they talk to.
  \<open>virtual_hwmon_pwm_enable\<close> is the two-element array, channel 0 first.
\<close>

record driver =
  conf :: msi_ec_conf
  conf_loaded :: bool
  cpu_curve_package :: curve_pack
  gpu_curve_package :: curve_pack
  virtual_hwmon_pwm_enable :: "int \<times> int"
  ec :: ec_state

section \<open>Profile resolution\<close>

text \<open>
  The kernel's \<^verbatim>\<open>match_string(array, -1, string)\<close>: the index of the first entry equal to
  \<open>string\<close> before the terminating \<^verbatim>\<open>NULL\<close>, or \<^verbatim>\<open>-EINVAL\<close>.
\<close>

fun match_string :: "string list \<Rightarrow> string \<Rightarrow> error + int" where
  "match_string [] str = Inl EINVAL"
| "match_string (item # array) str =
     (if item = str then Inr 0
      else case match_string array str of Inl e \<Rightarrow> Inl e | Inr i \<Rightarrow> Inr (i + 1))"

text \<open>
  The loop of \<^verbatim>\<open>load_configuration\<close> over the \<^verbatim>\<open>NULL\<close>-terminated table: the first
  profile whose list matches, if any.
\<close>

fun find_configuration :: "msi_ec_conf list \<Rightarrow> string \<Rightarrow> error + msi_ec_conf option" where
  "find_configuration [] ver = Inr None"
| "find_configuration (c # cs) ver =
     (case allowed_fw c of
        None \<Rightarrow> Inl NULL_DEREF
      | Some fws \<Rightarrow>
          (case match_string fws ver of
             Inr _ \<Rightarrow> Inr (Some c)
           | Inl _ \<Rightarrow> find_configuration cs ver))"

text \<open>
  \<^verbatim>\<open>load_configuration\<close>, with the table, the \<^verbatim>\<open>firmware\<close> module parameter (\<open>None\<close> when
  not given) and the \<^verbatim>\<open>debug\<close> module parameter as arguments.
\<close>

definition load_configuration_from ::
    "msi_ec_conf list \<Rightarrow> string option \<Rightarrow> bool \<Rightarrow> driver \<Rightarrow> (error + int) \<times> driver" where
  "load_configuration_from table firmware debug s =
     (case (case firmware of
              Some v \<Rightarrow> (Inr v, ec s)
            | None \<Rightarrow> ec_get_firmware_version (ec s)) of
        (Inl err, e') \<Rightarrow> (Inl err, s\<lparr>ec := e'\<rparr>)
      | (Inr ver, e') \<Rightarrow>
          (case find_configuration table ver of
             Inl err \<Rightarrow> (Inl err, s\<lparr>ec := e'\<rparr>)
           | Inr (Some c) \<Rightarrow>
               (Inr 0, s\<lparr>ec := e', conf := c\<lparr>allowed_fw := None\<rparr>, conf_loaded := True\<rparr>)
           | Inr None \<Rightarrow>
               if debug then (Inr 0, s\<lparr>ec := e'\<rparr>) else (Inl EOPNOTSUPP, s\<lparr>ec := e'\<rparr>)))"

definition load_configuration :: "string option \<Rightarrow> bool \<Rightarrow> driver \<Rightarrow> (error + int) \<times> driver" where
  "load_configuration = load_configuration_from CONFIGURATIONS"


section \<open>Fan mode register\<close>

text \<open>
  The loop of \<^verbatim>\<open>fan_mode_get\<close> over the named modes, up to the first slot whose name is
  \<^verbatim>\<open>NULL\<close>. The result is the \<^verbatim>\<open>int\<close> returned and the name stored through \<^verbatim>\<open>dst\<close>, if
  one was stored: \<open>(0, Some name)\<close> for a register value that has a name, else a positive
  code and nothing stored. Five named slots and no \<^verbatim>\<open>NULL\<close> would make the loop read
  past the array.
\<close>

fun fan_mode_lookup :: "msi_ec_mode list \<Rightarrow> u8 \<Rightarrow> error + int \<times> string option" where
  "fan_mode_lookup [] rdata = Inl OUT_OF_BOUNDS"
| "fan_mode_lookup (m # ms) rdata =
     (case mode_name m of
        None \<Rightarrow> Inr (if rdata = 0 then MSI_EC_ADDR_UNSUPP else uint rdata, None)
      | Some n \<Rightarrow>
          if uint rdata = mode_value m then Inr (0, Some n)
          else fan_mode_lookup ms rdata)"

definition fan_mode_get :: "msi_ec_conf \<Rightarrow> ec_state \<Rightarrow> (error + int \<times> string option) \<times> ec_state" where
  "fan_mode_get cnf e =
     (case ec_read (of_int (fm_address (fan_mode cnf))) e of
        (Inl err, e') \<Rightarrow> (Inl err, e')
      | (Inr rdata, e') \<Rightarrow> (fan_mode_lookup (fm_modes (fan_mode cnf)) rdata, e'))"

section \<open>Curve synchronisation\<close>

definition is_curve_allowed :: "msi_ec_fan_curve \<Rightarrow> bool" where
  "is_curve_allowed curve =
     (\<not> (speed_start_address curve = MSI_EC_ADDR_UNSUPP \<or> speed_start_address curve = 0 \<or>
         temperature_start_address curve = MSI_EC_ADDR_UNSUPP \<or> temperature_start_address curve = 0 \<or>
         entries_count curve \<le> 0 \<or> entries_count curve > int CURVE_MAX_ENTRIES))"

text \<open>
  One loop of \<^verbatim>\<open>sync_ec_curve\<close>: \<open>n\<close> more reads, the next one from EC address \<open>j\<close> into
  \<open>buf[i]\<close>. A failed read ends the function with \<^verbatim>\<open>-EIO\<close>; the bytes stored so far stay.
\<close>

fun sync_loop :: "nat \<Rightarrow> int \<Rightarrow> nat \<Rightarrow> u8 list \<Rightarrow> ec_state \<Rightarrow> (error + int) \<times> u8 list \<times> ec_state" where
  "sync_loop i j 0 buf e = (Inr 0, buf, e)"
| "sync_loop i j (Suc n) buf e =
     (case ec_read (of_int j) e of
        (Inl _, e') \<Rightarrow> (Inl EIO, buf, e')
      | (Inr v, e') \<Rightarrow> sync_loop (Suc i) (j + 1) n (buf[i := v]) e')"

definition sync_ec_curve ::
    "msi_ec_fan_curve \<Rightarrow> u8 list \<Rightarrow> u8 list \<Rightarrow> ec_state \<Rightarrow> (error + int) \<times> u8 list \<times> u8 list \<times> ec_state" where
  "sync_ec_curve curve fan_speed_buf temperature_buf e =
     (if \<not> is_curve_allowed curve then (Inl EINVAL, fan_speed_buf, temperature_buf, e)
      else
        case sync_loop 0 (speed_start_address curve) (nat (entries_count curve)) fan_speed_buf e of
          (Inl err, sp, e1) \<Rightarrow> (Inl err, sp, temperature_buf, e1)
        | (Inr _, sp, e1) \<Rightarrow>
            (case sync_loop 0 (temperature_start_address curve) (nat (entries_count curve - 1))
                    temperature_buf e1 of
               (r, tp, e2) \<Rightarrow> (r, sp, tp, e2)))"

text \<open>One loop of \<^verbatim>\<open>push_ec_curve\<close>: \<open>n\<close> more writes, the next one of \<open>buf[i]\<close> to address \<open>j\<close>.\<close>

fun push_loop :: "nat \<Rightarrow> int \<Rightarrow> nat \<Rightarrow> u8 list \<Rightarrow> ec_state \<Rightarrow> (error + int) \<times> ec_state" where
  "push_loop i j 0 buf e = (Inr 0, e)"
| "push_loop i j (Suc n) buf e =
     (case ec_write (of_int j) (buf ! i) e of
        (Inl _, e') \<Rightarrow> (Inl EIO, e')
      | (Inr _, e') \<Rightarrow> push_loop (Suc i) (j + 1) n buf e')"

definition push_ec_curve ::
    "msi_ec_fan_curve \<Rightarrow> u8 list \<Rightarrow> u8 list \<Rightarrow> ec_state \<Rightarrow> (error + int) \<times> ec_state" where
  "push_ec_curve curve fan_speed_buf temperature_buf e =
     (if \<not> is_curve_allowed curve then (Inl EINVAL, e)
      else
        case push_loop 0 (speed_start_address curve) (nat (entries_count curve)) fan_speed_buf e of
          (Inl err, e1) \<Rightarrow> (Inl err, e1)
        | (Inr _, e1) \<Rightarrow>
            push_loop 0 (temperature_start_address curve) (nat (entries_count curve - 1))
              temperature_buf e1)"

text \<open>
  The gate shared by both safe wrappers. \<open>Inr True\<close>: go on with the transfer;
  \<open>Inr False\<close>: skip it and report success; \<open>Inl\<close>: the wrapper returns this error
  (\<^verbatim>\<open>-ENODATA\<close> for any non-zero result of \<^verbatim>\<open>fan_mode_get\<close>).
\<close>

definition safe_gate :: "msi_ec_conf \<Rightarrow> msi_ec_fan_curve \<Rightarrow> ec_state \<Rightarrow> (error + bool) \<times> ec_state" where
  "safe_gate cnf curve e =
     (if apply_strategy curve = CURVE_APPLY_STRATEGY_RESET_ON_AUTO then
        (case fan_mode_get cnf e of
           (Inl err, e') \<Rightarrow> (Inl (if err = OUT_OF_BOUNDS then OUT_OF_BOUNDS else ENODATA), e')
         | (Inr (r, None), e') \<Rightarrow> (Inl ENODATA, e')
         | (Inr (r, Some current), e') \<Rightarrow>
             if r \<noteq> 0 then (Inl ENODATA, e')
             else if current \<noteq> FM_ADVANCED_NAME then (Inr False, e')
             else (Inr True, e'))
      else (Inr True, e))"

definition sync_ec_curve_safe ::
    "msi_ec_conf \<Rightarrow> msi_ec_fan_curve \<Rightarrow> u8 list \<Rightarrow> u8 list \<Rightarrow> ec_state
       \<Rightarrow> (error + int) \<times> u8 list \<times> u8 list \<times> ec_state" where
  "sync_ec_curve_safe cnf curve fan_speed_buf temperature_buf e =
     (case safe_gate cnf curve e of
        (Inl err, e') \<Rightarrow> (Inl err, fan_speed_buf, temperature_buf, e')
      | (Inr False, e') \<Rightarrow> (Inr 0, fan_speed_buf, temperature_buf, e')
      | (Inr True, e') \<Rightarrow> sync_ec_curve curve fan_speed_buf temperature_buf e')"

definition push_ec_curve_safe ::
    "msi_ec_conf \<Rightarrow> msi_ec_fan_curve \<Rightarrow> u8 list \<Rightarrow> u8 list \<Rightarrow> ec_state \<Rightarrow> (error + int) \<times> ec_state" where
  "push_ec_curve_safe cnf curve fan_speed_buf temperature_buf e =
     (case safe_gate cnf curve e of
        (Inl err, e') \<Rightarrow> (Inl err, e')
      | (Inr False, e') \<Rightarrow> (Inr 0, e')
      | (Inr True, e') \<Rightarrow> push_ec_curve curve fan_speed_buf temperature_buf e')"


section \<open>Curve text codec\<close>

subsection \<open>Printing\<close>

text \<open>\<^verbatim>\<open>sprintf("%d", v)\<close> for a value that is not negative.\<close>

definition digit_char :: "nat \<Rightarrow> char" where
  "digit_char d = char_of (48 + d)"

fun decimal :: "nat \<Rightarrow> string" where
  "decimal n = (if n < 10 then [digit_char n] else decimal (n div 10) @ [digit_char (n mod 10)])"

declare decimal.simps [simp del]

abbreviation newline :: char where "newline \<equiv> CHR 0x0A"

text \<open>
  The loop of \<^verbatim>\<open>print_curve\<close>: \<open>n\<close> more values, the \<open>j\<close>-th next, a speed when \<open>j\<close> is
  even and a temperature when it is odd, each followed by a blank.
\<close>

fun print_loop :: "nat \<Rightarrow> nat \<Rightarrow> nat \<Rightarrow> nat \<Rightarrow> u8 list \<Rightarrow> u8 list \<Rightarrow> string" where
  "print_loop j 0 sc tc fan_speed_buf temperature_buf = []"
| "print_loop j (Suc n) sc tc fan_speed_buf temperature_buf =
     (if j mod 2 = 0 then
        decimal (unat (fan_speed_buf ! sc)) @ '' '' @
          print_loop (Suc j) n (Suc sc) tc fan_speed_buf temperature_buf
      else
        decimal (unat (temperature_buf ! tc)) @ '' '' @
          print_loop (Suc j) n sc (Suc tc) fan_speed_buf temperature_buf)"

text \<open>
  \<^verbatim>\<open>print_curve\<close> overwrites the last blank with the string terminator and emits the string
  and a newline. The result is the text emitted (the C function returns its length). With
  \<open>entries \<le> 0\<close> the terminator is stored at \<^verbatim>\<open>str[-1]\<close>; with more than sixteen entries
  the buffers are too short.
\<close>

definition print_curve :: "u8 list \<Rightarrow> u8 list \<Rightarrow> int \<Rightarrow> error + string" where
  "print_curve fan_speed_buf temperature_buf entries =
     (if entries \<le> 0 \<or> entries > int CURVE_MAX_ENTRIES then Inl OUT_OF_BOUNDS
      else Inr (butlast (print_loop 0 (nat (2 * entries - 1)) 0 0 fan_speed_buf temperature_buf)
                @ [newline]))"

subsection \<open>Parsing\<close>

text \<open>
  The kernel's \<^verbatim>\<open>isspace\<close> and \<^verbatim>\<open>isdigit\<close> (\<^verbatim>\<open>lib/ctype.c\<close>: the six ASCII white-space
  characters and the no-break space \<^verbatim>\<open>0xa0\<close>).
\<close>

definition isspace :: "char \<Rightarrow> bool" where
  "isspace c = (of_char c \<in> {9, 10, 11, 12, 13, 32, 160 :: nat})"

definition isdigit :: "char \<Rightarrow> bool" where
  "isdigit c = (48 \<le> (of_char c :: nat) \<and> (of_char c :: nat) \<le> 57)"

definition digit_val :: "char \<Rightarrow> nat" where
  "digit_val c = of_char c - 48"

text \<open>
  The kernel's \<^verbatim>\<open>simple_strntoull\<close> on a run of decimal digits: the value modulo
  \<open>2 ^ 64\<close> (overflow is not reported).
\<close>

definition simple_strtoull :: "string \<Rightarrow> 64 word" where
  "simple_strtoull ds = foldl (\<lambda>r c. r * 10 + of_nat (digit_val c)) 0 ds"

text \<open>
  \<^verbatim>\<open>sscanf(sdata, "%u%n", &data[i], &offset)\<close> as the kernel's \<^verbatim>\<open>vsscanf\<close> does it: skip
  white space, require a digit (no sign is accepted), convert the whole run of digits,
  store the value through an \<^verbatim>\<open>unsigned int *\<close>. \<^verbatim>\<open>data[i]\<close> is an \<^verbatim>\<open>int\<close>, so the caller reads
  the low 32 bits as a signed number. \<open>None\<close>: no conversion (the call returns 0);
  \<open>Some (d, rest)\<close>: \<^verbatim>\<open>data[i]\<close> is \<open>d\<close> and \<open>rest\<close> is the input from \<^verbatim>\<open>sdata + offset\<close> on.
  The end of the list is the terminating zero byte that sysfs puts after \<^verbatim>\<open>count\<close> bytes.
\<close>

definition sscanf_u :: "string \<Rightarrow> (int \<times> string) option" where
  "sscanf_u sdata =
     (let str = dropWhile isspace sdata; ds = takeWhile isdigit str
      in if ds = [] then None
         else Some (sint (ucast (simple_strtoull ds) :: 32 word), dropWhile isdigit str))"

text \<open>
  The first loop of \<^verbatim>\<open>read_curve\<close>: \<open>n\<close> more integers, the next one into \<^verbatim>\<open>data[i]\<close>, where
  \<^verbatim>\<open>data\<close> has \<^verbatim>\<open>2 * CURVE_MAX_ENTRIES\<close> cells. \<open>sdata\<close> is the input from the read position to
  \<^verbatim>\<open>buf + count\<close>. The result is the list of values stored and the rest of the input.
\<close>

fun scan_loop :: "nat \<Rightarrow> nat \<Rightarrow> string \<Rightarrow> error + int list \<times> string" where
  "scan_loop i 0 sdata = Inr ([], sdata)"
| "scan_loop i (Suc n) sdata =
     (if sdata = [] then Inl EINVAL
      else case sscanf_u sdata of
        None \<Rightarrow> Inl EINVAL
      | Some (d, rest) \<Rightarrow>
          if i \<ge> 2 * CURVE_MAX_ENTRIES then Inl OUT_OF_BOUNDS
          else if d \<ge> 256 then Inl EINVAL
          else case scan_loop (Suc i) n rest of
                 Inl err \<Rightarrow> Inl err
               | Inr (data, sdata') \<Rightarrow> Inr (d # data, sdata'))"

text \<open>
  The second loop: values at even positions go to \<^verbatim>\<open>temp_speed_buf\<close>, values at odd
  positions to \<^verbatim>\<open>temp_temperature_buf\<close>, each cast to \<^verbatim>\<open>u8\<close>.
\<close>

fun split_loop :: "nat \<Rightarrow> int list \<Rightarrow> nat \<Rightarrow> nat \<Rightarrow> u8 list \<Rightarrow> u8 list \<Rightarrow> u8 list \<times> u8 list" where
  "split_loop j [] sc tc temp_speed_buf temp_temperature_buf = (temp_speed_buf, temp_temperature_buf)"
| "split_loop j (d # data) sc tc temp_speed_buf temp_temperature_buf =
     (if j mod 2 = 0 then
        split_loop (Suc j) data (Suc sc) tc (temp_speed_buf[sc := of_int d]) temp_temperature_buf
      else
        split_loop (Suc j) data sc (Suc tc) temp_speed_buf (temp_temperature_buf[tc := of_int d]))"

text \<open>The two validation loops; \<open>False\<close> is the \<^verbatim>\<open>return -EINVAL\<close>.\<close>

fun temperatures_valid :: "nat \<Rightarrow> nat \<Rightarrow> int \<Rightarrow> u8 list \<Rightarrow> bool" where
  "temperatures_valid i 0 late_temp temp_temperature_buf = True"
| "temperatures_valid i (Suc n) late_temp temp_temperature_buf =
     (if late_temp \<ge> uint (temp_temperature_buf ! i) \<or> uint (temp_temperature_buf ! i) > 100
      then False
      else temperatures_valid (Suc i) n (uint (temp_temperature_buf ! i)) temp_temperature_buf)"

fun speeds_valid :: "nat \<Rightarrow> nat \<Rightarrow> u8 list \<Rightarrow> bool" where
  "speeds_valid i 0 temp_speed_buf = True"
| "speeds_valid i (Suc n) temp_speed_buf =
     (if uint (temp_speed_buf ! i) > 150 then False else speeds_valid (Suc i) n temp_speed_buf)"

text \<open>
  The last loop copies \<open>entries\<close> cells of both temporary arrays, one temperature cell more
  than the second loop filled.
\<close>

fun copy_loop :: "nat \<Rightarrow> nat \<Rightarrow> u8 list \<Rightarrow> u8 list \<Rightarrow> u8 list \<Rightarrow> u8 list \<Rightarrow> u8 list \<times> u8 list" where
  "copy_loop i 0 temp_speed_buf temp_temperature_buf fan_speed_buf temperature_buf =
     (fan_speed_buf, temperature_buf)"
| "copy_loop i (Suc n) temp_speed_buf temp_temperature_buf fan_speed_buf temperature_buf =
     copy_loop (Suc i) n temp_speed_buf temp_temperature_buf
       (fan_speed_buf[i := temp_speed_buf ! i]) (temperature_buf[i := temp_temperature_buf ! i])"

text \<open>
  \<^verbatim>\<open>read_curve(fan_speed_buf, temperature_buf, entries, buf, count)\<close>, with \<open>count\<close> the length
  of \<open>buf\<close>. The temporary arrays are not initialised in C; \<open>uninit\<close> is the byte found in
  their cells (only \<^verbatim>\<open>temp_temperature_buf[entries - 1]\<close> is read before it is written).
  The result is the value returned and the two destination buffers.
\<close>

definition read_curve ::
    "u8 list \<Rightarrow> u8 list \<Rightarrow> int \<Rightarrow> u8 \<Rightarrow> string \<Rightarrow> (error + int) \<times> u8 list \<times> u8 list" where
  "read_curve fan_speed_buf temperature_buf entries uninit buf =
     (let sz = 2 * entries - 1 in
      case scan_loop 0 (nat sz) buf of
        Inl err \<Rightarrow> (Inl err, fan_speed_buf, temperature_buf)
      | Inr (data, sdata) \<Rightarrow>
          let sdata = (if sdata \<noteq> [] \<and> hd sdata = newline then tl sdata else sdata) in
          if sdata \<noteq> [] then (Inl EINVAL, fan_speed_buf, temperature_buf)
          else
            let (temp_speed_buf, temp_temperature_buf) =
                  split_loop 0 data 0 0 (replicate CURVE_MAX_ENTRIES uninit)
                    (replicate CURVE_MAX_ENTRIES uninit)
            in if \<not> temperatures_valid 0 (nat (entries - 1)) 0 temp_temperature_buf
               then (Inl EINVAL, fan_speed_buf, temperature_buf)
               else if \<not> speeds_valid 0 (nat entries) temp_speed_buf
               then (Inl EINVAL, fan_speed_buf, temperature_buf)
               else
                 case copy_loop 0 (nat entries) temp_speed_buf temp_temperature_buf
                        fan_speed_buf temperature_buf of
                   (sp, tp) \<Rightarrow> (Inr (int (length buf)), sp, tp))"


section \<open>Whole-curve store and fan mode changes\<close>

text \<open>Which of the two packs (\<^verbatim>\<open>cpu_curve_package\<close>, \<^verbatim>\<open>gpu_curve_package\<close>) an operation uses.\<close>

datatype fan = CPU | GPU

fun curve_of :: "fan \<Rightarrow> msi_ec_conf \<Rightarrow> msi_ec_fan_curve" where
  "curve_of CPU cnf = cpu_fan_curve cnf"
| "curve_of GPU cnf = gpu_fan_curve cnf"

fun pack_of :: "fan \<Rightarrow> driver \<Rightarrow> curve_pack" where
  "pack_of CPU s = cpu_curve_package s"
| "pack_of GPU s = gpu_curve_package s"

fun set_pack :: "fan \<Rightarrow> curve_pack \<Rightarrow> driver \<Rightarrow> driver" where
  "set_pack CPU p s = s\<lparr>cpu_curve_package := p\<rparr>"
| "set_pack GPU p s = s\<lparr>gpu_curve_package := p\<rparr>"

text \<open>
  \<^verbatim>\<open>curve_store\<close>: parse into the active buffers of the pack, then push them through the
  safe wrapper. The entry count handed to \<^verbatim>\<open>read_curve\<close> is that of the CPU curve, for
  either pack.
\<close>

definition curve_store :: "fan \<Rightarrow> u8 \<Rightarrow> string \<Rightarrow> driver \<Rightarrow> (error + int) \<times> driver" where
  "curve_store f uninit buf s =
     (let curve_data = pack_of f s in
      case read_curve (curve_fan_speed curve_data) (curve_temp curve_data)
             (entries_count (cpu_fan_curve (conf s))) uninit buf of
        (Inl err, sp, tp) \<Rightarrow>
          (Inl err, set_pack f (curve_data\<lparr>curve_fan_speed := sp, curve_temp := tp\<rparr>) s)
      | (Inr scount, sp, tp) \<Rightarrow>
          (case push_ec_curve_safe (conf s) (curve_of f (conf s)) sp tp (ec s) of
             (Inl err, e') \<Rightarrow>
               (Inl err, set_pack f (curve_data\<lparr>curve_fan_speed := sp, curve_temp := tp\<rparr>) (s\<lparr>ec := e'\<rparr>))
           | (Inr _, e') \<Rightarrow>
               (Inr scount, set_pack f (curve_data\<lparr>curve_fan_speed := sp, curve_temp := tp\<rparr>) (s\<lparr>ec := e'\<rparr>))))"

text \<open>
  The first loop of \<^verbatim>\<open>curve_fan_mode_change\<close> (the new mode is the advanced one): push the
  active buffers of every allowed reset-on-auto curve.
\<close>

fun push_active_curves :: "fan list \<Rightarrow> driver \<Rightarrow> (error + int) \<times> driver" where
  "push_active_curves [] s = (Inr 0, s)"
| "push_active_curves (f # fs) s =
     (let curve_data = pack_of f s; curve = curve_of f (conf s) in
      if apply_strategy curve = CURVE_APPLY_STRATEGY_RESET_ON_AUTO \<and> is_curve_allowed curve then
        (case push_ec_curve curve (curve_fan_speed curve_data) (curve_temp curve_data) (ec s) of
           (Inl status, e') \<Rightarrow> (Inl status, s\<lparr>ec := e'\<rparr>)
         | (Inr _, e') \<Rightarrow> push_active_curves fs (s\<lparr>ec := e'\<rparr>))
      else push_active_curves fs s)"

text \<open>
  The second loop (any other mode): pull into the active buffers through the safe wrapper,
  whose return value is not looked at, then push the default buffers.
\<close>

fun reset_default_curves :: "fan list \<Rightarrow> driver \<Rightarrow> (error + int) \<times> driver" where
  "reset_default_curves [] s = (Inr 0, s)"
| "reset_default_curves (f # fs) s =
     (let curve_data = pack_of f s; curve = curve_of f (conf s) in
      if apply_strategy curve = CURVE_APPLY_STRATEGY_RESET_ON_AUTO \<and> is_curve_allowed curve then
        (case sync_ec_curve_safe (conf s) curve (curve_fan_speed curve_data) (curve_temp curve_data) (ec s) of
           (Inl OUT_OF_BOUNDS, sp, tp, e1) \<Rightarrow>
             (Inl OUT_OF_BOUNDS,
              set_pack f (curve_data\<lparr>curve_fan_speed := sp, curve_temp := tp\<rparr>) (s\<lparr>ec := e1\<rparr>))
         | (_, sp, tp, e1) \<Rightarrow>
             (let s1 = set_pack f (curve_data\<lparr>curve_fan_speed := sp, curve_temp := tp\<rparr>) (s\<lparr>ec := e1\<rparr>) in
              case push_ec_curve curve (curve_fan_speed_default curve_data)
                     (curve_temp_default curve_data) e1 of
                (Inl status, e2) \<Rightarrow> (Inl status, s1\<lparr>ec := e2\<rparr>)
              | (Inr _, e2) \<Rightarrow> reset_default_curves fs (s1\<lparr>ec := e2\<rparr>)))
      else reset_default_curves fs s)"

definition curve_fan_mode_change :: "string \<Rightarrow> driver \<Rightarrow> (error + int) \<times> driver" where
  "curve_fan_mode_change mode s =
     (if mode = FM_ADVANCED_NAME then push_active_curves [CPU, GPU] s
      else reset_default_curves [CPU, GPU] s)"

text \<open>
  \<^verbatim>\<open>set_fan_mode\<close>: the first of the five slots with this name (slots without a name are
  passed over) runs the curve callback and then writes the fan mode register.
\<close>

fun set_fan_mode_from :: "msi_ec_mode list \<Rightarrow> string \<Rightarrow> driver \<Rightarrow> (error + int) \<times> driver" where
  "set_fan_mode_from [] mode s = (Inl EINVAL, s)"
| "set_fan_mode_from (m # ms) mode s =
     (if mode_name m = Some mode then
        (case curve_fan_mode_change mode s of
           (Inl err, s1) \<Rightarrow> (Inl err, s1)
         | (Inr _, s1) \<Rightarrow>
             (case ec_write (of_int (fm_address (fan_mode (conf s1)))) (of_int (mode_value m)) (ec s1) of
                (Inl err, e') \<Rightarrow> (Inl err, s1\<lparr>ec := e'\<rparr>)
              | (Inr _, e') \<Rightarrow> (Inr 0, s1\<lparr>ec := e'\<rparr>)))
      else set_fan_mode_from ms mode s)"

definition set_fan_mode :: "string \<Rightarrow> driver \<Rightarrow> (error + int) \<times> driver" where
  "set_fan_mode mode s = set_fan_mode_from (fm_modes (fan_mode (conf s))) mode s"

section \<open>PWM enable\<close>

text \<open>
  \<^verbatim>\<open>fan_mode_is_available\<close> compares the name of each of the five slots with \<open>mode\<close>. It
  does not test the name for \<^verbatim>\<open>NULL\<close> before handing it to \<^verbatim>\<open>strcmp\<close>.
\<close>

fun fan_mode_is_available_from :: "msi_ec_mode list \<Rightarrow> string \<Rightarrow> error + bool" where
  "fan_mode_is_available_from [] mode = Inr False"
| "fan_mode_is_available_from (m # ms) mode =
     (case mode_name m of
        None \<Rightarrow> Inl NULL_DEREF
      | Some n \<Rightarrow> if n = mode then Inr True else fan_mode_is_available_from ms mode)"

definition fan_mode_is_available :: "msi_ec_conf \<Rightarrow> string \<Rightarrow> error + bool" where
  "fan_mode_is_available cnf mode = fan_mode_is_available_from (fm_modes (fan_mode cnf)) mode"




definition virtual_set :: "int \<Rightarrow> int \<Rightarrow> driver \<Rightarrow> driver" where
  "virtual_set channel val s =
     (if channel = 0 then s\<lparr>virtual_hwmon_pwm_enable := (val, snd (virtual_hwmon_pwm_enable s))\<rparr>
      else s\<lparr>virtual_hwmon_pwm_enable := (fst (virtual_hwmon_pwm_enable s), val)\<rparr>)"





section \<open>Per-point store\<close>

text \<open>
  \<^verbatim>\<open>curve_attr_store\<close> for the attribute of point \<open>point\<close> (counted from 1) of one fan, a
  speed point when \<open>is_pwm\<close> holds and a temperature point otherwise. \<open>parsed\<close> is what the
  kernel's \<^verbatim>\<open>kstrtoul(buf, 10, &val)\<close> made of the text written; \<open>count\<close> is the length of
  that text. \<^verbatim>\<open>max_speed\<close> is read into an \<^verbatim>\<open>unsigned int\<close>.
\<close>

definition curve_attr_store ::
    "fan \<Rightarrow> int \<Rightarrow> bool \<Rightarrow> error + nat \<Rightarrow> int \<Rightarrow> driver \<Rightarrow> (error + int) \<times> driver" where
  "curve_attr_store f point is_pwm parsed count s =
     (let curve_data = pack_of f s;
          curve = curve_of f (conf s);
          fan_speed_buf = curve_fan_speed curve_data;
          temp_buf = curve_temp curve_data;
          max_speed = (if max_speed curve mod 2 ^ 32 > 0 then nat (max_speed curve mod 2 ^ 32) else 100)
      in case parsed of
        Inl ret \<Rightarrow> (Inl ret, s)
      | Inr val \<Rightarrow>
          (case (if is_pwm then
                   (if point < 1 \<or> point > entries_count curve then Inl EINVAL
                    else if val > 255 then Inl EINVAL
                    else Inr (fan_speed_buf[nat (point - 1) := of_nat (val * max_speed div 255)], temp_buf))
                 else
                   (if point < 1 \<or> point \<ge> entries_count curve then Inl EINVAL
                    else if val > 100 then Inl EINVAL
                    else Inr (fan_speed_buf, temp_buf[nat (point - 1) := of_nat val]))) of
             Inl err \<Rightarrow> (Inl err, s)
           | Inr (sp, tp) \<Rightarrow>
               (case push_ec_curve_safe (conf s) curve sp tp (ec s) of
                  (Inl ret, e') \<Rightarrow>
                    (Inl ret, set_pack f (curve_data\<lparr>curve_fan_speed := sp, curve_temp := tp\<rparr>) (s\<lparr>ec := e'\<rparr>))
                | (Inr _, e') \<Rightarrow>
                    (Inr count, set_pack f (curve_data\<lparr>curve_fan_speed := sp, curve_temp := tp\<rparr>) (s\<lparr>ec := e'\<rparr>)))))"

section \<open>Notions used to state the properties\<close>

text \<open>The identifiers a profile accepts.\<close>

definition accepted :: "msi_ec_conf \<Rightarrow> string list" where
  "accepted c = (case allowed_fw c of None \<Rightarrow> [] | Some fws \<Rightarrow> fws)"

text \<open>
  The invariant the specification states for the active buffers of a curve with \<open>entries\<close>
  entries: the \<open>entries - 1\<close> temperature breakpoints are strictly increasing and at most
  100, the \<open>entries\<close> speeds are at most 150.
\<close>

definition curve_invariant :: "int \<Rightarrow> u8 list \<Rightarrow> u8 list \<Rightarrow> bool" where
  "curve_invariant entries fan_speed_buf temperature_buf =
     (sorted_wrt (<) (map unat (take (nat (entries - 1)) temperature_buf)) \<and>
      list_all (\<lambda>t. unat t \<le> 100) (take (nat (entries - 1)) temperature_buf) \<and>
      list_all (\<lambda>v. unat v \<le> 150) (take (nat entries) fan_speed_buf))"

text \<open>
  The white-space separated tokens of a text: its maximal runs of characters that are not
  white space, in order. \<open>cur\<close> is the run read so far.
\<close>

fun ws_tokens_from :: "string \<Rightarrow> string \<Rightarrow> string list" where
  "ws_tokens_from cur [] = (if cur = [] then [] else [cur])"
| "ws_tokens_from cur (c # cs) =
     (if isspace c then (if cur = [] then [] else [cur]) @ ws_tokens_from [] cs
      else ws_tokens_from (cur @ [c]) cs)"

definition ws_tokens :: "string \<Rightarrow> string list" where
  "ws_tokens s = ws_tokens_from [] s"

text \<open>
  What the validation loops of \<^verbatim>\<open>read_curve\<close> accept: the invariant, with a first breakpoint
  above zero (\<^verbatim>\<open>late_temp\<close> starts at 0).
\<close>

definition curve_accepted :: "int \<Rightarrow> u8 list \<Rightarrow> u8 list \<Rightarrow> bool" where
  "curve_accepted entries fan_speed_buf temperature_buf =
     (curve_invariant entries fan_speed_buf temperature_buf \<and>
      (case take (nat (entries - 1)) temperature_buf of [] \<Rightarrow> True | t # _ \<Rightarrow> 0 < unat t))"

text \<open>The bytes that \<^verbatim>\<open>print_curve\<close> prints, in the order of its loop.\<close>

fun curve_values :: "nat \<Rightarrow> nat \<Rightarrow> nat \<Rightarrow> nat \<Rightarrow> u8 list \<Rightarrow> u8 list \<Rightarrow> u8 list" where
  "curve_values j 0 sc tc fan_speed_buf temperature_buf = []"
| "curve_values j (Suc n) sc tc fan_speed_buf temperature_buf =
     (if j mod 2 = 0 then
        fan_speed_buf ! sc # curve_values (Suc j) n (Suc sc) tc fan_speed_buf temperature_buf
      else
        temperature_buf ! tc # curve_values (Suc j) n sc (Suc tc) fan_speed_buf temperature_buf)"

text \<open>
  The \<open>n\<close> consecutive EC addresses from \<open>j\<close> on, as the \<^verbatim>\<open>u8\<close> values handed to \<^verbatim>\<open>ec_read\<close>
  and \<^verbatim>\<open>ec_write\<close>; the EC memory after a sequence of writes; the addresses of the speed
  and temperature registers of a curve, and what it means for these registers to hold the
  curve stored in a pair of buffers.
\<close>

fun reg_addrs :: "int \<Rightarrow> nat \<Rightarrow> u8 list" where
  "reg_addrs j 0 = []"
| "reg_addrs j (Suc n) = of_int j # reg_addrs (j + 1) n"

fun poke :: "(u8 \<times> u8) list \<Rightarrow> (u8 \<Rightarrow> u8) \<Rightarrow> (u8 \<Rightarrow> u8)" where
  "poke [] m = m"
| "poke ((a, v) # ws) m = poke ws (m(a := v))"

definition curve_speed_addrs :: "msi_ec_fan_curve \<Rightarrow> u8 list" where
  "curve_speed_addrs curve = reg_addrs (speed_start_address curve) (nat (entries_count curve))"

definition curve_temp_addrs :: "msi_ec_fan_curve \<Rightarrow> u8 list" where
  "curve_temp_addrs curve =
     reg_addrs (temperature_start_address curve) (nat (entries_count curve - 1))"

definition ec_holds :: "msi_ec_fan_curve \<Rightarrow> u8 list \<Rightarrow> u8 list \<Rightarrow> ec_state \<Rightarrow> bool" where
  "ec_holds curve fan_speed_buf temperature_buf e =
     (map (mem e) (curve_speed_addrs curve) = take (nat (entries_count curve)) fan_speed_buf \<and>
      map (mem e) (curve_temp_addrs curve) = take (nat (entries_count curve - 1)) temperature_buf)"

text \<open>
  A curve that \<^verbatim>\<open>curve_fan_mode_change\<close> handles: reset-on-auto and allowed. The register
  layout of a configuration is sound when the fan mode register and the registers of the
  curves handled are pairwise different bytes of the EC.
\<close>

definition managed :: "fan \<Rightarrow> msi_ec_conf \<Rightarrow> bool" where
  "managed f cnf =
     (apply_strategy (curve_of f cnf) = CURVE_APPLY_STRATEGY_RESET_ON_AUTO \<and>
      is_curve_allowed (curve_of f cnf))"

definition managed_addrs :: "fan \<Rightarrow> msi_ec_conf \<Rightarrow> u8 list" where
  "managed_addrs f cnf =
     (if managed f cnf
      then curve_speed_addrs (curve_of f cnf) @ curve_temp_addrs (curve_of f cnf) else [])"

definition fan_mode_addr :: "msi_ec_conf \<Rightarrow> u8" where
  "fan_mode_addr cnf = of_int (fm_address (fan_mode cnf))"

definition ec_layout_ok :: "msi_ec_conf \<Rightarrow> bool" where
  "ec_layout_ok cnf = distinct (fan_mode_addr cnf # managed_addrs CPU cnf @ managed_addrs GPU cnf)"

text \<open>All eight curve buffers have their \<^verbatim>\<open>CURVE_MAX_ENTRIES\<close> cells.\<close>

definition pack_sized :: "curve_pack \<Rightarrow> bool" where
  "pack_sized p =
     (length (curve_temp p) = CURVE_MAX_ENTRIES \<and> length (curve_temp_default p) = CURVE_MAX_ENTRIES \<and>
      length (curve_fan_speed p) = CURVE_MAX_ENTRIES \<and>
      length (curve_fan_speed_default p) = CURVE_MAX_ENTRIES)"

text \<open>
  The register value of the first slot with a given name, and whether the mode array has
  an empty slot to end the loops that stop at one.
\<close>

fun mode_value_of :: "msi_ec_mode list \<Rightarrow> string \<Rightarrow> int option" where
  "mode_value_of [] mode = None"
| "mode_value_of (m # ms) mode =
     (if mode_name m = Some mode then Some (mode_value m) else mode_value_of ms mode)"

definition null_terminated :: "msi_ec_mode list \<Rightarrow> bool" where
  "null_terminated modes = list_ex (\<lambda>m. mode_name m = None) modes"


text \<open>The writes of one \<^verbatim>\<open>push_ec_curve\<close> that meets no failure, as address and value.\<close>

definition curve_writes :: "msi_ec_fan_curve \<Rightarrow> u8 list \<Rightarrow> u8 list \<Rightarrow> (u8 \<times> u8) list" where
  "curve_writes curve fan_speed_buf temperature_buf =
     zip (curve_speed_addrs curve) (take (nat (entries_count curve)) fan_speed_buf) @
     zip (curve_temp_addrs curve) (take (nat (entries_count curve - 1)) temperature_buf)"

text \<open>
  The EC registers of the curve of a fan hold the active buffers, or the default
  buffers, of a driver state.
\<close>

definition active_holds :: "fan \<Rightarrow> driver \<Rightarrow> ec_state \<Rightarrow> bool" where
  "active_holds f s e =
     ec_holds (curve_of f (conf s)) (curve_fan_speed (pack_of f s)) (curve_temp (pack_of f s)) e"

definition default_holds :: "fan \<Rightarrow> driver \<Rightarrow> ec_state \<Rightarrow> bool" where
  "default_holds f s e =
     ec_holds (curve_of f (conf s)) (curve_fan_speed_default (pack_of f s))
       (curve_temp_default (pack_of f s)) e"

text \<open>
  The pack of a fan after a pull that meets no failure: the first cells of the active
  buffers are the bytes of the curve registers, the other cells and the default buffers
  are what they were.
\<close>

definition pulled :: "msi_ec_fan_curve \<Rightarrow> curve_pack \<Rightarrow> ec_state \<Rightarrow> curve_pack" where
  "pulled curve p e =
     p\<lparr>curve_fan_speed :=
         map (mem e) (curve_speed_addrs curve) @ drop (nat (entries_count curve)) (curve_fan_speed p),
       curve_temp :=
         map (mem e) (curve_temp_addrs curve) @ drop (nat (entries_count curve - 1)) (curve_temp p)\<rparr>"

text \<open>
  The fan mode register holds the value of the advanced mode, as \<^verbatim>\<open>fan_mode_get\<close> decodes it:
  the condition under which the safe wrappers go on with a reset-on-auto curve.
\<close>

definition advanced_now :: "driver \<Rightarrow> bool" where
  "advanced_now s =
     (fan_mode_lookup (fm_modes (fan_mode (conf s))) (mem (ec s) (fan_mode_addr (conf s)))
      = Inr (0, Some FM_ADVANCED_NAME))"




section \<open>A concrete machine\<close>

text \<open>
  The MSI Claw 8 AI+ (\<open>CONF401\<close>, the one profile of the registry with fan curves), with a
  custom curve in the active buffers and another one in the default buffers of both fans.
  \<open>fm\<close> is the content of the fan mode register \<^verbatim>\<open>0xd4\<close>; every other EC byte is zero.
\<close>

definition claw_ec :: "u8 \<Rightarrow> bool list \<Rightarrow> ec_state" where
  "claw_ec fm fs = \<lparr>mem = (\<lambda>a. if a = 0xd4 then fm else 0), faults = fs, written = []\<rparr>"

definition claw_pack :: curve_pack where
  "claw_pack =
     \<lparr>curve_temp = [40, 50, 60, 70, 80, 90] @ replicate 10 0,
      curve_temp_default = [50, 60, 70, 75, 80, 85] @ replicate 10 0,
      curve_fan_speed = [0, 20, 40, 60, 80, 100, 150] @ replicate 9 0,
      curve_fan_speed_default = [0, 30, 45, 60, 75, 90, 100] @ replicate 9 0\<rparr>"

definition claw :: "int \<times> int \<Rightarrow> u8 \<Rightarrow> bool list \<Rightarrow> driver" where
  "claw cached fm fs =
     \<lparr>conf = CONF401\<lparr>allowed_fw := None\<rparr>, conf_loaded = True,
      cpu_curve_package = claw_pack, gpu_curve_package = claw_pack,
      virtual_hwmon_pwm_enable = cached, ec = claw_ec fm fs\<rparr>"

text \<open>
  A machine that the registry does not contain: the Claw with a GPU curve of three entries
  next to its CPU curve of seven.
\<close>

definition lopsided :: driver where
  "lopsided =
     (claw (1, 1) 0x80 [])\<lparr>conf :=
        (conf (claw (1, 1) 0x80 []))\<lparr>gpu_fan_curve :=
           (gpu_fan_curve CONF401)\<lparr>entries_count := 3\<rparr>\<rparr>\<rparr>"

text \<open>
  The module right after loading, before \<^verbatim>\<open>load_configuration\<close>: every global is in its
  initial state, and the EC of a Claw holds the firmware identifier at \<^verbatim>\<open>0xa0\<close>.
\<close>

definition zero_pack :: curve_pack where
  "zero_pack =
     \<lparr>curve_temp = replicate CURVE_MAX_ENTRIES 0, curve_temp_default = replicate CURVE_MAX_ENTRIES 0,
      curve_fan_speed = replicate CURVE_MAX_ENTRIES 0,
      curve_fan_speed_default = replicate CURVE_MAX_ENTRIES 0\<rparr>"

definition claw_boot :: driver where
  "claw_boot =
     \<lparr>conf = \<lparr>allowed_fw = None, cooler_boost = \<lparr>cb_address = 0, cb_bit = 0\<rparr>,
              fan_mode = \<lparr>fm_address = 0, fm_modes = replicate 5 MSI_EC_MODE_NULL\<rparr>,
              cpu_fan_curve = no_fan_curve, gpu_fan_curve = no_fan_curve\<rparr>,
      conf_loaded = False,
      cpu_curve_package = zero_pack, gpu_curve_package = zero_pack,
      virtual_hwmon_pwm_enable = (- 1, - 1),
      ec = \<lparr>mem = (\<lambda>a. if 0xa0 \<le> a \<and> a < 0xac
                       then map (\<lambda>c. of_nat (of_char c)) ''1T52EMS1.104'' ! unat (a - 0xa0)
                       else 0),
            faults = [], written = []\<rparr>\<rparr>"



section \<open>Profile resolution selects the first matching profile\<close>

lemma match_string_found: "str \<in> set array \<Longrightarrow> \<exists>i. match_string array str = Inr i"
  by (induction array) auto

lemma match_string_missing: "str \<notin> set array \<Longrightarrow> match_string array str = Inl EINVAL"
  by (induction array) auto

lemma find_configuration_skip:
  "\<forall>q \<in> set pre. allowed_fw q \<noteq> None \<and> ver \<notin> set (accepted q) \<Longrightarrow>
   find_configuration (pre @ rest) ver = find_configuration rest ver"
  by (induction pre) (auto simp: accepted_def match_string_missing)

lemma find_configuration_hit:
  "allowed_fw p \<noteq> None \<Longrightarrow> ver \<in> set (accepted p) \<Longrightarrow>
   find_configuration (p # post) ver = Inr (Some p)"
  using match_string_found[of ver "accepted p"] by (auto simp: accepted_def)

lemmas conf_defs = CONF0_def CONF1_def CONF2_def CONF3_def CONF4_def CONF5_def CONF6_def
  CONF7_def CONF8_def CONF9_def CONF10_def CONF11_def CONF12_def CONF13_def CONF14_def
  CONF15_def CONF16_def CONF17_def CONF18_def CONF19_def CONF20_def CONF21_def CONF22_def
  CONF23_def CONF24_def CONF25_def CONF26_def CONF27_def CONF28_def CONF29_def CONF30_def
  CONF31_def CONF32_def CONF33_def CONF34_def CONF35_def CONF36_def CONF37_def CONF38_def
  CONF39_def CONF40_def CONF401_def CONF41_def CONF42_def CONF43_def CONF44_def

lemmas fw_defs = ALLOWED_FW_0_def ALLOWED_FW_1_def ALLOWED_FW_2_def ALLOWED_FW_3_def
  ALLOWED_FW_4_def ALLOWED_FW_5_def ALLOWED_FW_6_def ALLOWED_FW_7_def ALLOWED_FW_8_def
  ALLOWED_FW_9_def ALLOWED_FW_10_def ALLOWED_FW_11_def ALLOWED_FW_12_def ALLOWED_FW_13_def
  ALLOWED_FW_14_def ALLOWED_FW_15_def ALLOWED_FW_16_def ALLOWED_FW_17_def ALLOWED_FW_18_def
  ALLOWED_FW_19_def ALLOWED_FW_20_def ALLOWED_FW_21_def ALLOWED_FW_22_def ALLOWED_FW_23_def
  ALLOWED_FW_24_def ALLOWED_FW_25_def ALLOWED_FW_26_def ALLOWED_FW_27_def ALLOWED_FW_28_def
  ALLOWED_FW_29_def ALLOWED_FW_30_def ALLOWED_FW_31_def ALLOWED_FW_32_def ALLOWED_FW_33_def
  ALLOWED_FW_34_def ALLOWED_FW_35_def ALLOWED_FW_36_def ALLOWED_FW_37_def ALLOWED_FW_38_def
  ALLOWED_FW_39_def ALLOWED_FW_40_def ALLOWED_FW_401_def ALLOWED_FW_41_def ALLOWED_FW_42_def
  ALLOWED_FW_43_def ALLOWED_FW_44_def

lemma registry_has_lists: "\<forall>q \<in> set CONFIGURATIONS. allowed_fw q \<noteq> None"
  by (simp add: CONFIGURATIONS_def conf_defs)

lemma ec_read_seq_from_nofault:
  "faults e = [] \<Longrightarrow> snd (snd (ec_read_seq_from i n addr buf e)) = e"
  by (induction n arbitrary: i buf) (simp_all add: ec_read_def ec_access_def)

lemma ec_get_firmware_version_nofault:
  "faults e = [] \<Longrightarrow> snd (ec_get_firmware_version e) = e"
  using ec_read_seq_from_nofault[of e 0 MSI_EC_FW_VERSION_LENGTH MSI_EC_FW_VERSION_ADDRESS
          "replicate (MSI_EC_FW_VERSION_LENGTH + 1) 0"]
  by (auto simp add: ec_get_firmware_version_def ec_read_seq_def split: prod.splits sum.splits)

text \<open>
  C7. Let every profile of the table have a list of accepted identifiers, and let \<open>ver\<close> be
  the identifier resolution works with: the \<^verbatim>\<open>firmware\<close> parameter if given, else the string
  read from the EC (which leaves the EC in state \<open>e'\<close>). If the table is \<open>pre @ p # post\<close>,
  the identifier is in the list of \<open>p\<close> and in no list of \<open>pre\<close>, then resolution succeeds,
  copies \<open>p\<close> (with its list pointer cleared) into the active configuration and marks it
  loaded, whatever comes after \<open>p\<close>. If the identifier is in no list of the table,
  resolution fails with \<open>EOPNOTSUPP\<close> when debug mode is off, and succeeds without touching
  the active configuration when it is on.
\<close>

theorem load_configuration_first_match:
  assumes "\<forall>q \<in> set table. allowed_fw q \<noteq> None"
    and "(case firmware of Some v \<Rightarrow> (Inr v, ec s) | None \<Rightarrow> ec_get_firmware_version (ec s))
         = (Inr ver, e')"
  shows "(table = pre @ p # post \<and> ver \<in> set (accepted p) \<and> (\<forall>q \<in> set pre. ver \<notin> set (accepted q))
          \<longrightarrow> load_configuration_from table firmware debug s =
                (Inr 0, s\<lparr>ec := e', conf := p\<lparr>allowed_fw := None\<rparr>, conf_loaded := True\<rparr>))
       \<and> ((\<forall>q \<in> set table. ver \<notin> set (accepted q))
          \<longrightarrow> load_configuration_from table firmware False s = (Inl EOPNOTSUPP, s\<lparr>ec := e'\<rparr>)
            \<and> load_configuration_from table firmware True s = (Inr 0, s\<lparr>ec := e'\<rparr>))"
proof (intro conjI impI)
  assume h: "table = pre @ p # post \<and> ver \<in> set (accepted p) \<and> (\<forall>q \<in> set pre. ver \<notin> set (accepted q))"
  from h assms(1) have "\<forall>q \<in> set pre. allowed_fw q \<noteq> None \<and> ver \<notin> set (accepted q)"
    and "allowed_fw p \<noteq> None" and "ver \<in> set (accepted p)"
    by auto
  then have "find_configuration (pre @ p # post) ver = Inr (Some p)"
    using find_configuration_skip[of pre ver "p # post"] find_configuration_hit[of p ver post]
    by simp
  with h have "find_configuration table ver = Inr (Some p)"
    by simp
  then show "load_configuration_from table firmware debug s =
                (Inr 0, s\<lparr>ec := e', conf := p\<lparr>allowed_fw := None\<rparr>, conf_loaded := True\<rparr>)"
    using assms(2) by (simp add: load_configuration_from_def)
next
  assume h: "\<forall>q \<in> set table. ver \<notin> set (accepted q)"
  with assms(1) have "find_configuration (table @ []) ver = Inr None"
    by (subst find_configuration_skip) auto
  then show "load_configuration_from table firmware False s = (Inl EOPNOTSUPP, s\<lparr>ec := e'\<rparr>)"
    and "load_configuration_from table firmware True s = (Inr 0, s\<lparr>ec := e'\<rparr>)"
    using assms(2) by (simp_all add: load_configuration_from_def)
qed

text \<open>
  On the registry: the identifier of the Claw, read from the EC, is accepted by \<open>CONF401\<close>
  after forty-one profiles that do not accept it; an identifier given as a parameter that
  no profile accepts is refused, or let through in debug mode.
\<close>

theorem load_configuration_first_match_witness:
  "load_configuration None False claw_boot =
     (Inr 0, claw_boot\<lparr>ec := ec claw_boot, conf := CONF401\<lparr>allowed_fw := None\<rparr>, conf_loaded := True\<rparr>)
   \<and> load_configuration (Some ''1T52EMS1.999'') False claw_boot =
     (Inl EOPNOTSUPP, claw_boot\<lparr>ec := ec claw_boot\<rparr>)
   \<and> load_configuration (Some ''1T52EMS1.999'') True claw_boot =
     (Inr 0, claw_boot\<lparr>ec := ec claw_boot\<rparr>)"
proof -
  let ?pre = "[CONF0, CONF1, CONF2, CONF3, CONF4, CONF5, CONF6, CONF7,
     CONF8, CONF9, CONF10, CONF11, CONF12, CONF13, CONF14, CONF15,
     CONF16, CONF17, CONF18, CONF19, CONF20, CONF21, CONF22, CONF23,
     CONF24, CONF25, CONF26, CONF27, CONF28, CONF29, CONF30, CONF31,
     CONF32, CONF33, CONF34, CONF35, CONF36, CONF37, CONF38, CONF39,
     CONF40]"
  let ?post = "[CONF41, CONF42, CONF43, CONF44]"
  have parts: "CONFIGURATIONS = ?pre @ CONF401 # ?post"
    by (simp add: CONFIGURATIONS_def)
  have hit: "''1T52EMS1.104'' \<in> set (accepted CONF401)"
    by (simp add: accepted_def CONF401_def ALLOWED_FW_401_def)
  have pre: "\<forall>q \<in> set ?pre. ''1T52EMS1.104'' \<notin> set (accepted q)"
    by (simp add: accepted_def conf_defs fw_defs)
  have miss: "\<forall>q \<in> set CONFIGURATIONS. ''1T52EMS1.999'' \<notin> set (accepted q)"
    by (simp add: CONFIGURATIONS_def accepted_def conf_defs fw_defs)
  have "fst (ec_get_firmware_version (ec claw_boot)) = Inr ''1T52EMS1.104''"
    by code_simp
  moreover have "faults (ec claw_boot) = []"
    by (simp add: claw_boot_def)
  ultimately have "ec_get_firmware_version (ec claw_boot) = (Inr ''1T52EMS1.104'', ec claw_boot)"
    using ec_get_firmware_version_nofault[of "ec claw_boot"] by (metis prod.collapse)
  then have fromec: "(case None of Some v \<Rightarrow> (Inr v, ec claw_boot)
                     | None \<Rightarrow> ec_get_firmware_version (ec claw_boot))
                    = (Inr ''1T52EMS1.104'', ec claw_boot)"
    by simp
  have given: "(case Some ''1T52EMS1.999'' of Some v \<Rightarrow> (Inr v, ec claw_boot)
                     | None \<Rightarrow> ec_get_firmware_version (ec claw_boot))
                    = (Inr ''1T52EMS1.999'', ec claw_boot)"
    by simp
  show ?thesis
    using load_configuration_first_match[OF registry_has_lists fromec, of ?pre CONF401 ?post False]
          load_configuration_first_match[OF registry_has_lists given, of ?pre CONF401 ?post False]
          parts hit pre miss
    by (simp add: load_configuration_def)
qed

section \<open>The mode lookup of the PWM-enable writes\<close>

text \<open>
  C10. On the Claw profile, whose mode array is auto, silent, advanced and two empty
  slots, asking whether the basic mode is available compares the name of the fourth slot,
  a null pointer, with the queried name: the lookup does not return \<open>False\<close>, it
  dereferences \<^verbatim>\<open>NULL\<close>.
\<close>

theorem fan_mode_is_available_null_deref:
  "fan_mode_is_available CONF401 FM_BASIC_NAME = Inl NULL_DEREF"
  by code_simp

section \<open>A pull failure that is not reported\<close>

text \<open>
  C8. The Claw is in the advanced mode (register value \<^verbatim>\<open>0x80\<close>) and the second EC access
  from now on fails. Leaving the advanced mode reads the fan mode register (first
  access), then pulls the CPU curve: the first read of the pull fails, the safe pull
  returns \<open>EIO\<close>, and \<^verbatim>\<open>curve_fan_mode_change\<close> still returns 0.
\<close>

theorem curve_fan_mode_change_drops_pull_failure:
  "fst (sync_ec_curve_safe (conf (claw (1, 1) 0x80 [False, True]))
          (cpu_fan_curve (conf (claw (1, 1) 0x80 [False, True])))
          (curve_fan_speed claw_pack) (curve_temp claw_pack)
          (ec (claw (1, 1) 0x80 [False, True]))) = Inl EIO
   \<and> fst (curve_fan_mode_change FM_AUTO_NAME (claw (1, 1) 0x80 [False, True])) = Inr 0"
  by code_simp

section \<open>An integer of more than 31 bits in the curve text\<close>

text \<open>
  C4. With three entries, the text \<^verbatim>\<open>2147483658 40 60 70 90\<close> is accepted although its first
  integer is not below 256: \<^verbatim>\<open>sscanf\<close> stores \<open>2 ^ 31 + 10\<close> into an \<^verbatim>\<open>int\<close>, the negative
  value passes the test \<^verbatim>\<open>data[i] >= 256\<close>, and the cast to \<^verbatim>\<open>u8\<close> keeps 10. The store
  returns the length of the text and the first speed is 10.
\<close>

theorem read_curve_accepts_large_integer:
  "read_curve (replicate 16 0) (replicate 16 0) 3 0 ''2147483658 40 60 70 90''
     = (Inr 22, [10, 60, 90] @ replicate 13 0, [40, 70, 0] @ replicate 13 0)"
  by code_simp


section \<open>Rejected curve texts leave the buffers alone\<close>

lemma read_curve_rejected:
  "read_curve sp tp entries u buf = (Inl err, sp', tp') \<Longrightarrow> sp' = sp \<and> tp' = tp"
  by (auto simp: read_curve_def Let_def split: sum.splits prod.splits if_splits)

text \<open>
  C5. If \<^verbatim>\<open>read_curve\<close> rejects the text written to the curve attribute of a fan (for its
  grammar, for a value of 256 or more, for the temperatures or for a speed), then
  \<^verbatim>\<open>curve_store\<close> returns that error and the driver state after the call is the state
  before it: the active speed and temperature buffers are unchanged (and nothing was
  sent to the EC).
\<close>

theorem curve_store_rejected_unchanged:
  "fst (read_curve (curve_fan_speed (pack_of f s)) (curve_temp (pack_of f s))
          (entries_count (cpu_fan_curve (conf s))) uninit buf) = Inl err
   \<Longrightarrow> curve_store f uninit buf s = (Inl err, s)"
proof -
  assume h: "fst (read_curve (curve_fan_speed (pack_of f s)) (curve_temp (pack_of f s))
          (entries_count (cpu_fan_curve (conf s))) uninit buf) = Inl err"
  obtain r sp' tp' where rc: "read_curve (curve_fan_speed (pack_of f s)) (curve_temp (pack_of f s))
          (entries_count (cpu_fan_curve (conf s))) uninit buf = (r, sp', tp')"
    by (cases "read_curve (curve_fan_speed (pack_of f s)) (curve_temp (pack_of f s))
          (entries_count (cpu_fan_curve (conf s))) uninit buf") auto
  with h have r: "r = Inl err" by simp
  from rc r read_curve_rejected have same: "sp' = curve_fan_speed (pack_of f s)" "tp' = curve_temp (pack_of f s)"
    by blast+
  show ?thesis
    using rc r same by (cases f) (simp_all add: curve_store_def)
qed

text \<open>On the Claw: thirteen integers whose last speed is 151.\<close>

theorem curve_store_rejected_unchanged_witness:
  "curve_store CPU 0 ''0 40 20 50 40 60 60 70 80 80 100 90 151'' (claw (1, 1) 0x80 [])
     = (Inl EINVAL, claw (1, 1) 0x80 [])"
proof -
  have "fst (read_curve (curve_fan_speed (pack_of CPU (claw (1, 1) 0x80 [])))
               (curve_temp (pack_of CPU (claw (1, 1) 0x80 [])))
               (entries_count (cpu_fan_curve (conf (claw (1, 1) 0x80 [])))) 0
               ''0 40 20 50 40 60 60 70 80 80 100 90 151'') = Inl EINVAL"
    by code_simp
  then show ?thesis
    by (rule curve_store_rejected_unchanged)
qed

section \<open>What an accepted curve text guarantees\<close>

lemma read_curve_accepted:
  assumes "read_curve sp tp entries u buf = (Inr c, sp', tp')"
  obtains data rest ts tt where
    "scan_loop 0 (nat (2 * entries - 1)) buf = Inr (data, rest)"
    "rest = [] \<or> rest = [newline]"
    "split_loop 0 data 0 0 (replicate CURVE_MAX_ENTRIES u) (replicate CURVE_MAX_ENTRIES u) = (ts, tt)"
    "temperatures_valid 0 (nat (entries - 1)) 0 tt"
    "speeds_valid 0 (nat entries) ts"
    "copy_loop 0 (nat entries) ts tt sp tp = (sp', tp')"
    "c = int (length buf)"
proof -
  from assms obtain data rest where
    sc: "scan_loop 0 (nat (2 * entries - 1)) buf = Inr (data, rest)"
    by (auto simp: read_curve_def Let_def split: sum.splits prod.splits if_splits)
  obtain ts tt where sp: "split_loop 0 data 0 0 (replicate CURVE_MAX_ENTRIES u) (replicate CURVE_MAX_ENTRIES u) = (ts, tt)"
    by (cases "split_loop 0 data 0 0 (replicate CURVE_MAX_ENTRIES u) (replicate CURVE_MAX_ENTRIES u)") auto
  from assms sc sp have r: "rest = [] \<or> rest = [newline]"
    by (cases rest) (auto simp: read_curve_def Let_def split: if_splits)
  from assms sc sp r have
    "temperatures_valid 0 (nat (entries - 1)) 0 tt"
    "speeds_valid 0 (nat entries) ts"
    "copy_loop 0 (nat entries) ts tt sp tp = (sp', tp')"
    "c = int (length buf)"
    by (auto simp: read_curve_def Let_def split: if_splits prod.splits)
  with sc sp r show thesis using that by blast
qed

lemma speeds_valid_nth:
  "speeds_valid i n ts \<Longrightarrow> i \<le> k \<Longrightarrow> k < i + n \<Longrightarrow> uint (ts ! k) \<le> 150"
proof (induction n arbitrary: i)
  case 0 then show ?case by simp
next
  case (Suc n)
  show ?case
  proof (cases "k = i")
    case True with Suc.prems show ?thesis by (simp split: if_splits)
  next
    case False
    with Suc.prems have "speeds_valid (Suc i) n ts" "Suc i \<le> k" "k < Suc i + n"
      by (auto split: if_splits)
    then show ?thesis by (rule Suc.IH)
  qed
qed

lemma temperatures_valid_nth:
  "temperatures_valid i n late tt \<Longrightarrow> i \<le> k \<Longrightarrow> k < i + n \<Longrightarrow>
   late < uint (tt ! k) \<and> uint (tt ! k) \<le> 100"
proof (induction n arbitrary: i late)
  case 0 then show ?case by simp
next
  case (Suc n)
  show ?case
  proof (cases "k = i")
    case True with Suc.prems show ?thesis by (simp split: if_splits)
  next
    case False
    with Suc.prems have "temperatures_valid (Suc i) n (uint (tt ! i)) tt" "Suc i \<le> k" "k < Suc i + n"
      and "late < uint (tt ! i)"
      by (auto split: if_splits)
    with Suc.IH[of "Suc i" "uint (tt ! i)"] show ?thesis by force
  qed
qed

lemma temperatures_valid_step:
  "temperatures_valid i n late tt \<Longrightarrow> i \<le> k \<Longrightarrow> Suc k < i + n \<Longrightarrow>
   uint (tt ! k) < uint (tt ! Suc k)"
proof (induction n arbitrary: i late)
  case 0 then show ?case by simp
next
  case (Suc n)
  from Suc.prems have rest: "temperatures_valid (Suc i) n (uint (tt ! i)) tt"
    by (auto split: if_splits)
  show ?case
  proof (cases "k = i")
    case True
    with Suc.prems rest temperatures_valid_nth[of "Suc i" n "uint (tt ! i)" tt "Suc i"]
    show ?thesis by simp
  next
    case False
    with Suc.prems have "Suc i \<le> k" "Suc k < Suc i + n" by auto
    with rest show ?thesis by (rule Suc.IH)
  qed
qed

lemma copy_loop_nth:
  "copy_loop i n ts tt sp tp = (sp', tp') \<Longrightarrow>
   length sp' = length sp \<and> length tp' = length tp \<and>
   (\<forall>k < length sp. sp' ! k = (if i \<le> k \<and> k < i + n then ts ! k else sp ! k)) \<and>
   (\<forall>k < length tp. tp' ! k = (if i \<le> k \<and> k < i + n then tt ! k else tp ! k))"
proof (induction n arbitrary: i sp tp)
  case 0 then show ?case by auto
next
  case (Suc n)
  from Suc.prems have "copy_loop (Suc i) n ts tt (sp[i := ts ! i]) (tp[i := tt ! i]) = (sp', tp')"
    by simp
  from Suc.IH[OF this] have
    len: "length sp' = length sp \<and> length tp' = length tp" and
    s: "\<And>k. k < length sp \<Longrightarrow>
          sp' ! k = (if Suc i \<le> k \<and> k < Suc i + n then ts ! k else sp[i := ts ! i] ! k)" and
    t: "\<And>k. k < length tp \<Longrightarrow>
          tp' ! k = (if Suc i \<le> k \<and> k < Suc i + n then tt ! k else tp[i := tt ! i] ! k)"
    by auto
  have "sp' ! k = (if i \<le> k \<and> k < i + Suc n then ts ! k else sp ! k)" if "k < length sp" for k
    using s[OF that] that by (cases "k = i") (auto simp: nth_list_update)
  moreover have "tp' ! k = (if i \<le> k \<and> k < i + Suc n then tt ! k else tp ! k)" if "k < length tp" for k
    using t[OF that] that by (cases "k = i") (auto simp: nth_list_update)
  ultimately show ?case using len by blast
qed

lemma unat_less_if_uint: "uint (a :: u8) < uint (b :: u8) \<Longrightarrow> unat a < unat b"
  by (metis word_less_def word_less_nat_alt)

lemma unat_le_if_uint: "uint (a :: u8) \<le> int n \<Longrightarrow> unat a \<le> n"
  by (metis nat_le_iff unat_eq_nat_uint)

lemma curve_invariant_nth:
  assumes "\<forall>k. Suc k < nat (entries - 1) \<longrightarrow> Suc k < length tp \<longrightarrow> unat (tp ! k) < unat (tp ! Suc k)"
    and "\<forall>k. k < nat (entries - 1) \<longrightarrow> k < length tp \<longrightarrow> unat (tp ! k) \<le> 100"
    and "\<forall>k. k < nat entries \<longrightarrow> k < length sp \<longrightarrow> unat (sp ! k) \<le> 150"
  shows "curve_invariant entries sp tp"
  using assms
  by (auto simp: curve_invariant_def sorted_wrt_iff_nth_Suc_transp list_all_length)


lemma curve_store_accepted:
  "curve_store f uninit buf s = (Inr c, s') \<Longrightarrow>
   read_curve (curve_fan_speed (pack_of f s)) (curve_temp (pack_of f s))
     (entries_count (cpu_fan_curve (conf s))) uninit buf
   = (Inr c, curve_fan_speed (pack_of f s'), curve_temp (pack_of f s'))"
  by (cases f) (auto simp: curve_store_def Let_def split: prod.splits sum.splits)

lemma read_curve_invariant:
  assumes "read_curve sp tp entries u buf = (Inr c, sp', tp')"
  shows "curve_invariant entries sp' tp'"
proof -
  from assms obtain ts tt where
    tv: "temperatures_valid 0 (nat (entries - 1)) 0 tt" and
    sv: "speeds_valid 0 (nat entries) ts" and
    cp: "copy_loop 0 (nat entries) ts tt sp tp = (sp', tp')"
    by (rule read_curve_accepted)
  from copy_loop_nth[OF cp] have
    len: "length sp' = length sp" "length tp' = length tp" and
    s: "\<And>k. k < length sp \<Longrightarrow> k < nat entries \<Longrightarrow> sp' ! k = ts ! k" and
    t: "\<And>k. k < length tp \<Longrightarrow> k < nat entries \<Longrightarrow> tp' ! k = tt ! k"
    by auto
  show ?thesis
  proof (rule curve_invariant_nth, intro allI impI)
    fix k assume a: "Suc k < nat (entries - 1)" "Suc k < length tp'"
    with len t[of k] t[of "Suc k"] have "tp' ! k = tt ! k" "tp' ! Suc k = tt ! Suc k"
      by auto
    moreover have "uint (tt ! k) < uint (tt ! Suc k)"
    proof (rule temperatures_valid_step[OF tv])
      show "0 \<le> k" by simp
      show "Suc k < 0 + nat (entries - 1)" using a(1) by simp
    qed
    ultimately show "unat (tp' ! k) < unat (tp' ! Suc k)"
      by (simp add: unat_less_if_uint)
  next
    show "\<forall>k. k < nat (entries - 1) \<longrightarrow> k < length tp' \<longrightarrow> unat (tp' ! k) \<le> 100"
    proof (intro allI impI)
      fix k assume a: "k < nat (entries - 1)" "k < length tp'"
      with len t[of k] have "tp' ! k = tt ! k" by auto
      moreover have "0 < uint (tt ! k) \<and> uint (tt ! k) \<le> 100"
      proof (rule temperatures_valid_nth[OF tv])
        show "0 \<le> k" by simp
        show "k < 0 + nat (entries - 1)" using a(1) by simp
      qed
      ultimately show "unat (tp' ! k) \<le> 100" using unat_le_if_uint[of "tt ! k" 100] by simp
    qed
  next
    show "\<forall>k. k < nat entries \<longrightarrow> k < length sp' \<longrightarrow> unat (sp' ! k) \<le> 150"
    proof (intro allI impI)
      fix k assume a: "k < nat entries" "k < length sp'"
      with len s[of k] have "sp' ! k = ts ! k" by auto
      moreover have "uint (ts ! k) \<le> 150"
      proof (rule speeds_valid_nth[OF sv])
        show "0 \<le> k" by simp
        show "k < 0 + nat entries" using a(1) by simp
      qed
      ultimately show "unat (sp' ! k) \<le> 150" using unat_le_if_uint[of "ts ! k" 150] by simp
    qed
  qed
qed

text \<open>
  C3 (amended). After every successful whole-curve store on a fan whose curve has as many
  entries as the CPU curve, the active buffers of that fan satisfy the invariant:
  temperature breakpoints strictly increasing and at most 100, speeds at most 150,
  whatever \<open>max_speed\<close> is. (The per-point store and the pull do not establish it, see
  the counterexample below.)
\<close>

theorem curve_store_establishes_invariant:
  assumes "curve_store f uninit buf s = (Inr c, s')"
    and "entries_count (curve_of f (conf s)) = entries_count (cpu_fan_curve (conf s))"
  shows "curve_invariant (entries_count (curve_of f (conf s)))
           (curve_fan_speed (pack_of f s')) (curve_temp (pack_of f s'))"
  using read_curve_invariant[OF curve_store_accepted[OF assms(1)]] assms(2) by simp

text \<open>On the Claw: a valid text of thirteen integers stored to the GPU curve.\<close>

theorem curve_store_establishes_invariant_witness:
  "curve_invariant (entries_count (curve_of GPU (conf (claw (1, 1) 0x80 []))))
     (curve_fan_speed (pack_of GPU
        (snd (curve_store GPU 0 ''0 40 20 50 40 60 60 70 80 80 100 90 150'' (claw (1, 1) 0x80 [])))))
     (curve_temp (pack_of GPU
        (snd (curve_store GPU 0 ''0 40 20 50 40 60 60 70 80 80 100 90 150'' (claw (1, 1) 0x80 [])))))"
proof -
  have "fst (curve_store GPU 0 ''0 40 20 50 40 60 60 70 80 80 100 90 150'' (claw (1, 1) 0x80 [])) = Inr 39"
    by code_simp
  then have ok: "curve_store GPU 0 ''0 40 20 50 40 60 60 70 80 80 100 90 150'' (claw (1, 1) 0x80 [])
      = (Inr 39, snd (curve_store GPU 0 ''0 40 20 50 40 60 60 70 80 80 100 90 150'' (claw (1, 1) 0x80 [])))"
    by (metis prod.collapse)
  have same: "entries_count (curve_of GPU (conf (claw (1, 1) 0x80 [])))
      = entries_count (cpu_fan_curve (conf (claw (1, 1) 0x80 [])))"
    by code_simp
  show ?thesis
    by (rule curve_store_establishes_invariant[OF ok same])
qed

text \<open>
  C3 as stated fails. The active CPU buffers of the Claw satisfy the invariant. Storing 95
  to temperature point 1 succeeds and leaves the breakpoints 95, 50, 60, ... . Pulling the
  CPU curve from an EC whose curve registers are zero succeeds and leaves six equal
  breakpoints.
\<close>

theorem invariant_broken_by_point_store_and_pull:
  "is_curve_allowed (cpu_fan_curve CONF401)
   \<and> curve_invariant 7 (curve_fan_speed claw_pack) (curve_temp claw_pack)
   \<and> fst (curve_attr_store CPU 1 False (Inr 95) 3 (claw (1, 1) 0x80 [])) = Inr 3
   \<and> \<not> curve_invariant 7
         (curve_fan_speed (pack_of CPU (snd (curve_attr_store CPU 1 False (Inr 95) 3 (claw (1, 1) 0x80 [])))))
         (curve_temp (pack_of CPU (snd (curve_attr_store CPU 1 False (Inr 95) 3 (claw (1, 1) 0x80 [])))))
   \<and> fst (sync_ec_curve (cpu_fan_curve CONF401) (curve_fan_speed claw_pack) (curve_temp claw_pack)
            (claw_ec 0x80 [])) = Inr 0
   \<and> \<not> curve_invariant 7
         (fst (snd (sync_ec_curve (cpu_fan_curve CONF401) (curve_fan_speed claw_pack)
                      (curve_temp claw_pack) (claw_ec 0x80 []))))
         (fst (snd (snd (sync_ec_curve (cpu_fan_curve CONF401) (curve_fan_speed claw_pack)
                      (curve_temp claw_pack) (claw_ec 0x80 [])))))"
  by code_simp

section \<open>The number of integers a curve text must hold\<close>

lemma isdigit_not_isspace: "isdigit c \<Longrightarrow> \<not> isspace c"
  by (auto simp: isdigit_def isspace_def)

lemma ws_tokens_from_spaces:
  "\<forall>c \<in> set ws. isspace c \<Longrightarrow> ws_tokens_from [] (ws @ r) = ws_tokens_from [] r"
  by (induction ws) auto

lemma ws_tokens_from_run:
  "\<forall>c \<in> set ds. \<not> isspace c \<Longrightarrow> ws_tokens_from cur (ds @ r) = ws_tokens_from (cur @ ds) r"
  by (induction ds arbitrary: cur) auto

lemma ws_tokens_from_close:
  "cur \<noteq> [] \<Longrightarrow> r = [] \<or> isspace (hd r) \<Longrightarrow> ws_tokens_from cur r = cur # ws_tokens_from [] r"
  by (cases r) auto

lemma ws_tokens_first:
  assumes "\<forall>c \<in> set ws. isspace c" "ds \<noteq> []" "\<forall>c \<in> set ds. \<not> isspace c" "r = [] \<or> isspace (hd r)"
  shows "ws_tokens (ws @ ds @ r) = ds # ws_tokens r"
  using assms
  by (simp add: ws_tokens_def ws_tokens_from_spaces ws_tokens_from_run ws_tokens_from_close)

lemma sscanf_u_parts:
  assumes "sscanf_u s = Some (d, rest)"
  obtains ws ds where "s = ws @ ds @ rest" "\<forall>c \<in> set ws. isspace c" "ds \<noteq> []"
    "\<forall>c \<in> set ds. isdigit c" "rest = [] \<or> \<not> isdigit (hd rest)"
    "d = sint (ucast (simple_strtoull ds) :: 32 word)"
proof -
  let ?ws = "takeWhile isspace s"
  let ?str = "dropWhile isspace s"
  let ?ds = "takeWhile isdigit ?str"
  from assms have ne: "?ds \<noteq> []" and r: "rest = dropWhile isdigit ?str"
    and d: "d = sint (ucast (simple_strtoull ?ds) :: 32 word)"
    by (auto simp: sscanf_u_def Let_def split: if_splits)
  have "s = ?ws @ ?ds @ rest"
    using r by simp
  moreover have "\<forall>c \<in> set ?ws. isspace c"
    by (auto dest: set_takeWhileD)
  moreover have "\<forall>c \<in> set ?ds. isdigit c"
    by (auto dest: set_takeWhileD)
  moreover have "rest = [] \<or> \<not> isdigit (hd rest)"
    using r hd_dropWhile[of isdigit ?str] by auto
  ultimately show thesis using ne d that by blast
qed

lemma scan_loop_starts:
  assumes "scan_loop i (Suc m) s = Inr x" "s = [] \<or> \<not> isdigit (hd s)"
  shows "s \<noteq> [] \<and> isspace (hd s)"
proof -
  from assms(1) have ne: "s \<noteq> []" and "sscanf_u s \<noteq> None"
    by (auto split: if_splits option.splits)
  then have "takeWhile isdigit (dropWhile isspace s) \<noteq> []"
    by (auto simp: sscanf_u_def Let_def split: if_splits)
  with ne assms(2) show ?thesis
    by (cases s) (auto split: if_splits)
qed

lemma scan_loop_tokens:
  "scan_loop i n s = Inr (data, r) \<Longrightarrow> r = [] \<or> isspace (hd r) \<Longrightarrow>
   \<exists>toks. ws_tokens s = toks @ ws_tokens r \<and> length toks = n \<and>
          (\<forall>t \<in> set toks. t \<noteq> [] \<and> list_all isdigit t)"
proof (induction n arbitrary: i s data)
  case 0
  then show ?case by simp
next
  case (Suc n)
  from Suc.prems(1) obtain d rest data' where
    sc: "sscanf_u s = Some (d, rest)" and
    rec: "scan_loop (Suc i) n rest = Inr (data', r)"
    by (auto split: if_splits option.splits sum.splits prod.splits)
  from sc obtain ws ds where
    s: "s = ws @ ds @ rest" and ws: "\<forall>c \<in> set ws. isspace c" and ne: "ds \<noteq> []" and
    ds: "\<forall>c \<in> set ds. isdigit c" and rest: "rest = [] \<or> \<not> isdigit (hd rest)"
    by (rule sscanf_u_parts)
  have sep: "rest = [] \<or> isspace (hd rest)"
  proof (cases n)
    case 0
    with rec Suc.prems(2) show ?thesis by simp
  next
    case (Suc m)
    with rec rest scan_loop_starts[of "Suc i" m rest] show ?thesis by simp
  qed
  from Suc.IH[OF rec Suc.prems(2)] obtain toks where
    t: "ws_tokens rest = toks @ ws_tokens r" "length toks = n"
       "\<forall>t \<in> set toks. t \<noteq> [] \<and> list_all isdigit t"
    by blast
  from ds have nsp: "\<forall>c \<in> set ds. \<not> isspace c"
    by (simp add: isdigit_not_isspace)
  have "ws_tokens (ws @ ds @ rest) = ds # ws_tokens rest"
    by (rule ws_tokens_first[OF ws ne nsp sep])
  with s t(1) have "ws_tokens s = (ds # toks) @ ws_tokens r" by simp
  moreover from t have "length (ds # toks) = Suc n" by simp
  moreover from t ne ds have "\<forall>t \<in> set (ds # toks). t \<noteq> [] \<and> list_all isdigit t"
    by (simp add: list_all_iff)
  ultimately show ?case by blast
qed

lemma isspace_newline: "isspace newline"
  by (simp add: isspace_def)

lemma read_curve_tokens:
  assumes "read_curve sp tp entries u buf = (Inr c, sp', tp')"
  shows "length (ws_tokens buf) = nat (2 * entries - 1) \<and>
         (\<forall>t \<in> set (ws_tokens buf). t \<noteq> [] \<and> list_all isdigit t)"
proof -
  from assms obtain data rest where
    sc: "scan_loop 0 (nat (2 * entries - 1)) buf = Inr (data, rest)" and
    r: "rest = [] \<or> rest = [newline]"
    by (rule read_curve_accepted)
  from r have "rest = [] \<or> isspace (hd rest)" and e: "ws_tokens rest = []"
    by (auto simp: isspace_newline ws_tokens_def)
  from scan_loop_tokens[OF sc this(1)] e show ?thesis by auto
qed

text \<open>
  C9. Whenever a whole-curve store succeeds, on the GPU fan as on the CPU fan, the text
  consists of exactly \<open>2 * n - 1\<close> white-space separated runs of digits, where \<open>n\<close> is the
  entry count of the CPU curve (none when that count is not positive), and it is this
  many values that were validated: the buffers of the fan satisfy the invariant for the
  CPU count. The count of the stored curve itself plays no part; the two requirements are
  the same only if the two entry counts are equal.
\<close>

theorem curve_store_counts_cpu_entries:
  assumes "curve_store f uninit buf s = (Inr c, s')"
  shows "int (length (ws_tokens buf)) = max 0 (2 * entries_count (cpu_fan_curve (conf s)) - 1)
       \<and> list_all (list_all isdigit) (ws_tokens buf)
       \<and> curve_invariant (entries_count (cpu_fan_curve (conf s)))
           (curve_fan_speed (pack_of f s')) (curve_temp (pack_of f s'))
       \<and> (2 * entries_count (cpu_fan_curve (conf s)) - 1 = 2 * entries_count (curve_of f (conf s)) - 1
          \<longrightarrow> entries_count (cpu_fan_curve (conf s)) = entries_count (curve_of f (conf s)))"
  using read_curve_tokens[OF curve_store_accepted[OF assms]]
        read_curve_invariant[OF curve_store_accepted[OF assms]]
  by (auto simp: list_all_iff)

text \<open>
  On a machine with seven CPU entries and three GPU entries, the GPU store rejects five
  integers and accepts thirteen.
\<close>

theorem curve_store_counts_cpu_entries_witness:
  "entries_count (curve_of GPU (conf lopsided)) = 3
   \<and> fst (curve_store GPU 0 ''10 40 60 70 90'' lopsided) = Inl EINVAL
   \<and> fst (curve_store GPU 0 ''0 40 20 50 40 60 60 70 80 80 100 90 150'' lopsided) = Inr 39
   \<and> int (length (ws_tokens ''0 40 20 50 40 60 60 70 80 80 100 90 150''))
       = max 0 (2 * entries_count (cpu_fan_curve (conf lopsided)) - 1)
   \<and> int (length (ws_tokens ''0 40 20 50 40 60 60 70 80 80 100 90 150'')) = 13"
proof -
  have a: "entries_count (curve_of GPU (conf lopsided)) = 3"
    by code_simp
  have b: "fst (curve_store GPU 0 ''10 40 60 70 90'' lopsided) = Inl EINVAL"
    by code_simp
  have c: "fst (curve_store GPU 0 ''0 40 20 50 40 60 60 70 80 80 100 90 150'' lopsided) = Inr 39"
    by code_simp
  then have ok: "curve_store GPU 0 ''0 40 20 50 40 60 60 70 80 80 100 90 150'' lopsided
      = (Inr 39, snd (curve_store GPU 0 ''0 40 20 50 40 60 60 70 80 80 100 90 150'' lopsided))"
    by (metis prod.collapse)
  have d: "int (length (ws_tokens ''0 40 20 50 40 60 60 70 80 80 100 90 150'')) = 13"
    by code_simp
  from curve_store_counts_cpu_entries[OF ok] a b c d show ?thesis
    by blast
qed

section \<open>Printing a curve and reading it back\<close>

lemma isdigit_digit_char: "d < 10 \<Longrightarrow> isdigit (digit_char d)"
  by (simp add: isdigit_def digit_char_def)

lemma digit_val_digit_char: "d < 10 \<Longrightarrow> digit_val (digit_char d) = d"
  by (simp add: digit_val_def digit_char_def)

lemma decimal_digits: "list_all isdigit (decimal n)"
  by (induction n rule: decimal.induct) (subst decimal.simps, simp add: isdigit_digit_char)

lemma decimal_nonempty: "decimal n \<noteq> []"
  by (subst decimal.simps) simp

lemma strtoull_decimal: "simple_strtoull (decimal n) = of_nat n"
proof (induction n rule: decimal.induct)
  case (1 n)
  show ?case
  proof (cases "n < 10")
    case True
    then show ?thesis
      by (subst decimal.simps) (simp add: simple_strtoull_def digit_val_digit_char)
  next
    case False
    with 1 have ih: "simple_strtoull (decimal (n div 10)) = of_nat (n div 10)" by simp
    have "simple_strtoull (decimal n) =
          simple_strtoull (decimal (n div 10)) * 10 + of_nat (digit_val (digit_char (n mod 10)))"
      using False by (subst decimal.simps) (simp add: simple_strtoull_def)
    also have "\<dots> = of_nat (n div 10 * 10 + n mod 10)"
      by (simp only: ih digit_val_digit_char mod_less_divisor zero_less_numeral
            of_nat_add of_nat_mult of_nat_numeral)
    finally show ?thesis by simp
  qed
qed

lemma stored_int:
  assumes "n < 256"
  shows "sint (ucast (of_nat n :: 64 word) :: 32 word) = int n"
proof -
  have "uint (of_nat n :: 64 word) = int n"
    using assms by (simp add: unsigned_of_nat take_bit_nat_eq_self)
  then have "sint (ucast (of_nat n :: 64 word) :: 32 word) = signed_take_bit 31 (int n)"
    by (simp add: signed_ucast_eq)
  also have "\<dots> = int n"
    using assms by (simp add: signed_take_bit_int_eq_self)
  finally show ?thesis .
qed


lemma sscanf_u_decimal:
  assumes "n < 256" "\<forall>c \<in> set ws. isspace c" "r = [] \<or> \<not> isdigit (hd r)"
  shows "sscanf_u (ws @ decimal n @ r) = Some (int n, r)"
proof -
  obtain c cs where dec: "decimal n = c # cs"
    using decimal_nonempty[of n] by (cases "decimal n") auto
  have dig: "\<forall>x \<in> set (decimal n). isdigit x"
    using decimal_digits[of n] by (simp add: list_all_iff)
  with dec have "\<not> isspace c"
    by (simp add: isdigit_not_isspace)
  with assms(2) dec have skip: "dropWhile isspace (ws @ decimal n @ r) = decimal n @ r"
    by (simp add: dropWhile_append2)
  have stop: "takeWhile isdigit r = []" "dropWhile isdigit r = r"
    using assms(3) by (cases r; simp)+
  have run: "takeWhile isdigit (decimal n @ r) = decimal n"
    using dig stop by (simp add: takeWhile_append2)
  have rest: "dropWhile isdigit (decimal n @ r) = r"
    using dig stop by (simp add: dropWhile_append2)
  show ?thesis
    using assms(1)
    by (simp add: sscanf_u_def skip run rest decimal_nonempty strtoull_decimal stored_int)
qed

lemma print_loop_values:
  "print_loop j n sc tc sp tp =
   concat (map (\<lambda>v. decimal (unat v) @ '' '') (curve_values j n sc tc sp tp))"
  by (induction n arbitrary: j sc tc) simp_all

lemma length_curve_values: "length (curve_values j n sc tc sp tp) = n"
  by (induction n arbitrary: j sc tc) simp_all

lemma not_isdigit_blank: "\<not> isdigit CHR '' ''"
  by (simp add: isdigit_def)

lemma isspace_blank: "isspace CHR '' ''"
  by (simp add: isspace_def)

lemma scan_loop_values:
  "vs \<noteq> [] \<Longrightarrow> i + length vs \<le> 2 * CURVE_MAX_ENTRIES \<Longrightarrow> \<forall>c \<in> set ws. isspace c \<Longrightarrow>
   r = [] \<or> \<not> isdigit (hd r) \<Longrightarrow>
   scan_loop i (length vs)
     (ws @ butlast (concat (map (\<lambda>v. decimal (unat v) @ '' '') vs)) @ r)
   = Inr (map (\<lambda>v. int (unat (v :: u8))) vs, r)"
proof (induction vs arbitrary: i ws)
  case Nil
  then show ?case by simp
next
  case (Cons v vs)
  have small: "unat v < 256"
    using unsigned_less[of v, where ?'a = nat] by simp
  have small': "uint v < 256"
    using uint_lt2p[of v] by simp
  have ne: "ws @ decimal (unat v) @ x \<noteq> []" for x
    by (simp add: decimal_nonempty)
  show ?case
  proof (cases vs)
    case Nil
    have "sscanf_u (ws @ decimal (unat v) @ r) = Some (int (unat v), r)"
      using small Cons.prems(3,4) by (rule sscanf_u_decimal)
    with Nil Cons.prems(2) small' ne[of r] show ?thesis
      by simp
  next
    case (Cons w vs')
    let ?tail = "butlast (concat (map (\<lambda>v. decimal (unat v) @ '' '') vs)) @ r"
    have shape: "ws @ butlast (concat (map (\<lambda>v. decimal (unat v) @ '' '') (v # vs))) @ r
                = ws @ decimal (unat v) @ ('' '' @ ?tail)"
      using Cons by (simp add: butlast_append)
    have "sscanf_u (ws @ decimal (unat v) @ ('' '' @ ?tail)) = Some (int (unat v), '' '' @ ?tail)"
      using small Cons.prems(3) by (rule sscanf_u_decimal) (simp add: not_isdigit_blank)
    moreover have "scan_loop (Suc i) (length vs) ('' '' @ ?tail) = Inr (map (\<lambda>v. int (unat v)) vs, r)"
      using Cons.IH[of "Suc i" "'' ''"] Cons Cons.prems(2,4) by (simp add: isspace_blank)
    ultimately show ?thesis
      using shape Cons.prems(2) small' ne[of "'' '' @ ?tail"]
      by simp
  qed
qed


lemma split_loop_values:
  "split_loop j (map (\<lambda>v. int (unat v)) (curve_values j n sc tc sp tp)) sc tc ts tt = (ts', tt') \<Longrightarrow>
   length ts' = length ts \<and> length tt' = length tt \<and>
   (\<forall>k < length ts. ts' ! k =
      (if sc \<le> k \<and> k < sc + (if even j then (n + 1) div 2 else n div 2) then sp ! k else ts ! k)) \<and>
   (\<forall>k < length tt. tt' ! k =
      (if tc \<le> k \<and> k < tc + (if even j then n div 2 else (n + 1) div 2) then tp ! k else tt ! k))"
proof (induction n arbitrary: j sc tc ts tt)
  case 0
  then show ?case by auto
next
  case (Suc n)
  show ?case
  proof (cases "even j")
    case True
    with Suc.prems have
      "split_loop (Suc j) (map (\<lambda>v. int (unat v)) (curve_values (Suc j) n (Suc sc) tc sp tp))
         (Suc sc) tc (ts[sc := sp ! sc]) tt = (ts', tt')"
      by (simp add: even_iff_mod_2_eq_zero)
    from Suc.IH[OF this] True have
      len: "length ts' = length ts \<and> length tt' = length tt" and
      s: "\<And>k. k < length ts \<Longrightarrow>
            ts' ! k = (if Suc sc \<le> k \<and> k < Suc sc + n div 2 then sp ! k else ts[sc := sp ! sc] ! k)" and
      t: "\<And>k. k < length tt \<Longrightarrow>
            tt' ! k = (if tc \<le> k \<and> k < tc + (n + 1) div 2 then tp ! k else tt ! k)"
      by auto
    have "ts' ! k = (if sc \<le> k \<and> k < sc + (Suc n + 1) div 2 then sp ! k else ts ! k)"
      if "k < length ts" for k
      using s[OF that] that by (cases "k = sc") (auto simp: nth_list_update)
    moreover have "tt' ! k = (if tc \<le> k \<and> k < tc + Suc n div 2 then tp ! k else tt ! k)"
      if "k < length tt" for k
      using t[OF that] by simp
    ultimately show ?thesis using len True by simp
  next
    case False
    with Suc.prems have
      "split_loop (Suc j) (map (\<lambda>v. int (unat v)) (curve_values (Suc j) n sc (Suc tc) sp tp))
         sc (Suc tc) ts (tt[tc := tp ! tc]) = (ts', tt')"
      by (simp add: even_iff_mod_2_eq_zero)
    from Suc.IH[OF this] False have
      len: "length ts' = length ts \<and> length tt' = length tt" and
      s: "\<And>k. k < length ts \<Longrightarrow>
            ts' ! k = (if sc \<le> k \<and> k < sc + (n + 1) div 2 then sp ! k else ts ! k)" and
      t: "\<And>k. k < length tt \<Longrightarrow>
            tt' ! k = (if Suc tc \<le> k \<and> k < Suc tc + n div 2 then tp ! k else tt[tc := tp ! tc] ! k)"
      by auto
    have "ts' ! k = (if sc \<le> k \<and> k < sc + Suc n div 2 then sp ! k else ts ! k)"
      if "k < length ts" for k
      using s[OF that] by simp
    moreover have "tt' ! k = (if tc \<le> k \<and> k < tc + (Suc n + 1) div 2 then tp ! k else tt ! k)"
      if "k < length tt" for k
      using t[OF that] that by (cases "k = tc") (auto simp: nth_list_update)
    ultimately show ?thesis using len False by simp
  qed
qed

lemma speeds_valid_intro:
  "(\<And>k. i \<le> k \<Longrightarrow> k < i + n \<Longrightarrow> uint (ts ! k) \<le> 150) \<Longrightarrow> speeds_valid i n ts"
proof (induction n arbitrary: i)
  case 0
  then show ?case by simp
next
  case (Suc n)
  have "uint (ts ! i) \<le> 150" by (rule Suc.prems) simp_all
  moreover have "speeds_valid (Suc i) n ts"
    by (rule Suc.IH, rule Suc.prems) simp_all
  ultimately show ?case by simp
qed

lemma temperatures_valid_intro:
  "(\<And>k. i \<le> k \<Longrightarrow> k < i + n \<Longrightarrow> uint (tt ! k) \<le> 100) \<Longrightarrow>
   (\<And>k. i \<le> k \<Longrightarrow> Suc k < i + n \<Longrightarrow> uint (tt ! k) < uint (tt ! Suc k)) \<Longrightarrow>
   (0 < n \<Longrightarrow> late < uint (tt ! i)) \<Longrightarrow>
   temperatures_valid i n late tt"
proof (induction n arbitrary: i late)
  case 0
  then show ?case by simp
next
  case (Suc n)
  have a: "late < uint (tt ! i)" by (rule Suc.prems(3)) simp
  have b: "uint (tt ! i) \<le> 100" by (rule Suc.prems(1)) simp_all
  have "temperatures_valid (Suc i) n (uint (tt ! i)) tt"
  proof (rule Suc.IH)
    show "uint (tt ! k) \<le> 100" if "Suc i \<le> k" "k < Suc i + n" for k
      using that by (intro Suc.prems(1)) simp_all
    show "uint (tt ! k) < uint (tt ! Suc k)" if "Suc i \<le> k" "Suc k < Suc i + n" for k
      using that by (intro Suc.prems(2)) simp_all
    show "uint (tt ! i) < uint (tt ! Suc i)" if "0 < n"
      using that by (intro Suc.prems(2)) simp_all
  qed
  with a b show ?case by simp
qed


lemma uint_le_if_unat: "unat (a :: u8) \<le> n \<Longrightarrow> uint a \<le> int n"
  by (metis nat_le_iff unat_eq_nat_uint)

lemma uint_less_if_unat: "unat (a :: u8) < unat (b :: u8) \<Longrightarrow> uint a < uint b"
  by (metis word_less_def word_less_nat_alt)

lemma uint_pos_if_unat: "0 < unat (a :: u8) \<Longrightarrow> 0 < uint a"
  by (metis of_nat_0_less_iff uint_nat)

lemma curve_accepted_nth:
  assumes "curve_accepted entries sp tp" "entries \<le> int (length sp)" "entries \<le> int (length tp)"
  shows "\<And>k. k < nat entries \<Longrightarrow> uint (sp ! k) \<le> 150"
    and "\<And>k. k < nat (entries - 1) \<Longrightarrow> uint (tp ! k) \<le> 100"
    and "\<And>k. Suc k < nat (entries - 1) \<Longrightarrow> uint (tp ! k) < uint (tp ! Suc k)"
    and "0 < nat (entries - 1) \<Longrightarrow> 0 < uint (tp ! 0)"
proof -
  let ?m = "nat (entries - 1)"
  from assms have inv: "curve_invariant entries sp tp"
    and first: "case take ?m tp of [] \<Rightarrow> True | t # _ \<Rightarrow> 0 < unat t"
    by (simp_all add: curve_accepted_def)
  from assms(2,3) have ls: "nat entries \<le> length sp" and lt: "?m \<le> length tp"
    by auto
  show "uint (sp ! k) \<le> 150" if "k < nat entries" for k
  proof -
    from inv have "list_all (\<lambda>v. unat v \<le> 150) (take (nat entries) sp)"
      by (simp add: curve_invariant_def)
    with that ls have "unat (sp ! k) \<le> 150"
      by (auto simp: list_all_length)
    then show ?thesis using uint_le_if_unat[of "sp ! k" 150] by simp
  qed
  show "uint (tp ! k) \<le> 100" if "k < ?m" for k
  proof -
    from inv have "list_all (\<lambda>t. unat t \<le> 100) (take ?m tp)"
      by (simp add: curve_invariant_def)
    with that lt have "unat (tp ! k) \<le> 100"
      by (auto simp: list_all_length)
    then show ?thesis using uint_le_if_unat[of "tp ! k" 100] by simp
  qed
  show "uint (tp ! k) < uint (tp ! Suc k)" if "Suc k < ?m" for k
  proof -
    from inv have "sorted_wrt (<) (map unat (take ?m tp))"
      by (simp add: curve_invariant_def)
    moreover from that lt have "Suc k < length (map unat (take ?m tp))" by simp
    ultimately have "map unat (take ?m tp) ! k < map unat (take ?m tp) ! Suc k"
      using sorted_wrt_nth_less[of "(<)" "map unat (take ?m tp)" k "Suc k"] by simp
    with that lt have "unat (tp ! k) < unat (tp ! Suc k)" by simp
    then show ?thesis by (rule uint_less_if_unat)
  qed
  show "0 < uint (tp ! 0)" if "0 < ?m"
  proof -
    from that lt obtain t rest where tp: "tp = t # rest" by (cases tp) auto
    with that have "take ?m tp = t # take (?m - 1) rest"
      by (cases ?m) simp_all
    with first tp have "0 < unat (tp ! 0)" by simp
    then show ?thesis by (rule uint_pos_if_unat)
  qed
qed

lemma not_isdigit_newline: "\<not> isdigit newline"
  by (simp add: isdigit_def)

text \<open>
  C6 (amended). Take buffers of sixteen cells that the validator accepts for \<open>entries\<close>
  entries, \<open>1 \<le> entries \<le> 16\<close>. Then \<^verbatim>\<open>print_curve\<close> emits a text followed by a newline, and
  \<^verbatim>\<open>read_curve\<close> accepts what was emitted, with or without the final newline, and stores
  into any destination buffers the same \<open>entries\<close> speeds and \<open>entries - 1\<close> temperature
  breakpoints.
\<close>

theorem curve_text_round_trip:
  assumes "1 \<le> entries" "entries \<le> int CURVE_MAX_ENTRIES"
    and "length sp = CURVE_MAX_ENTRIES" "length tp = CURVE_MAX_ENTRIES"
    and "length sp0 = CURVE_MAX_ENTRIES" "length tp0 = CURVE_MAX_ENTRIES"
    and "curve_accepted entries sp tp"
  shows "\<exists>text sp' tp'.
           print_curve sp tp entries = Inr (text @ [newline]) \<and>
           read_curve sp0 tp0 entries uninit (text @ [newline])
             = (Inr (int (length (text @ [newline]))), sp', tp') \<and>
           read_curve sp0 tp0 entries uninit text = (Inr (int (length text)), sp', tp') \<and>
           take (nat entries) sp' = take (nat entries) sp \<and>
           take (nat (entries - 1)) tp' = take (nat (entries - 1)) tp"
proof -
  let ?n = "nat (2 * entries - 1)"
  let ?vs = "curve_values 0 ?n 0 0 sp tp"
  let ?text = "butlast (concat (map (\<lambda>v. decimal (unat v) @ '' '') ?vs))"
  let ?data = "map (\<lambda>v. int (unat v)) ?vs"
  let ?init = "replicate CURVE_MAX_ENTRIES uninit"
  from assms(1,2) have n: "?n = 2 * nat entries - 1" "0 < ?n" "?n \<le> 2 * CURVE_MAX_ENTRIES"
    and halves: "(?n + 1) div 2 = nat entries" "?n div 2 = nat (entries - 1)"
    by auto
  have vs: "length ?vs = ?n" "?vs \<noteq> []"
    using n(2) length_curve_values[of 0 ?n 0 0 sp tp] by auto
  have printed: "print_curve sp tp entries = Inr (?text @ [newline])"
    using assms(1,2) by (simp add: print_curve_def print_loop_values)
  have scan: "scan_loop 0 ?n (?text @ r) = Inr (?data, r)" if "r = [] \<or> \<not> isdigit (hd r)" for r
    using scan_loop_values[of ?vs 0 "[]" r] vs n(3) that by simp
  obtain ts tt where split: "split_loop 0 ?data 0 0 ?init ?init = (ts, tt)"
    by (cases "split_loop 0 ?data 0 0 ?init ?init") auto
  from split_loop_values[OF split] halves have
    ts: "\<And>k. k < nat entries \<Longrightarrow> k < CURVE_MAX_ENTRIES \<Longrightarrow> ts ! k = sp ! k" and
    tt: "\<And>k. k < nat (entries - 1) \<Longrightarrow> k < CURVE_MAX_ENTRIES \<Longrightarrow> tt ! k = tp ! k"
    by auto
  from assms(2) have bound: "k < nat entries \<Longrightarrow> k < CURVE_MAX_ENTRIES" for k
    by auto
  from assms(2) have bound': "k < nat (entries - 1) \<Longrightarrow> k < CURVE_MAX_ENTRIES" for k
    by auto
  note acc = curve_accepted_nth[OF assms(7)]
  have le: "entries \<le> int (length sp)" "entries \<le> int (length tp)"
    using assms(2,3,4) by simp_all
  have tv: "temperatures_valid 0 (nat (entries - 1)) 0 tt"
  proof (rule temperatures_valid_intro)
    show "uint (tt ! k) \<le> 100" if "0 \<le> k" "k < 0 + nat (entries - 1)" for k
      using that tt[of k] bound'[of k] acc(2)[OF le, of k] by simp
    show "uint (tt ! k) < uint (tt ! Suc k)" if "0 \<le> k" "Suc k < 0 + nat (entries - 1)" for k
      using that tt[of k] tt[of "Suc k"] bound'[of k] bound'[of "Suc k"] acc(3)[OF le, of k] by simp
    show "0 < uint (tt ! 0)" if "0 < nat (entries - 1)"
      using that tt[of 0] acc(4)[OF le] by simp
  qed
  have sv: "speeds_valid 0 (nat entries) ts"
  proof (rule speeds_valid_intro)
    show "uint (ts ! k) \<le> 150" if "0 \<le> k" "k < 0 + nat entries" for k
      using that ts[of k] bound[of k] acc(1)[OF le, of k] by simp
  qed
  obtain sp' tp' where copy: "copy_loop 0 (nat entries) ts tt sp0 tp0 = (sp', tp')"
    by (cases "copy_loop 0 (nat entries) ts tt sp0 tp0") auto
  from copy_loop_nth[OF copy] assms(5,6) have
    len: "length sp' = CURVE_MAX_ENTRIES" "length tp' = CURVE_MAX_ENTRIES" and
    s: "\<And>k. k < nat entries \<Longrightarrow> sp' ! k = ts ! k" and
    t: "\<And>k. k < nat entries \<Longrightarrow> tp' ! k = tt ! k"
    using bound by auto
  have "take (nat entries) sp' = take (nat entries) sp"
  proof (rule nth_take_lemma)
    show "nat entries \<le> length sp'" "nat entries \<le> length sp"
      using len assms(2,3) by simp_all
    show "k < nat entries \<longrightarrow> sp' ! k = sp ! k" for k
      using s[of k] ts[of k] bound[of k] by simp
  qed
  moreover have "take (nat (entries - 1)) tp' = take (nat (entries - 1)) tp"
  proof (rule nth_take_lemma)
    show "nat (entries - 1) \<le> length tp'" "nat (entries - 1) \<le> length tp"
      using len assms(2,4) by simp_all
    show "k < nat (entries - 1) \<longrightarrow> tp' ! k = tp ! k" for k
      using t[of k] tt[of k] bound'[of k] by simp
  qed
  moreover have "read_curve sp0 tp0 entries uninit (?text @ [newline])
      = (Inr (int (length (?text @ [newline]))), sp', tp')"
    using scan[of "[newline]"] split tv sv copy
    by (simp add: read_curve_def not_isdigit_newline)
  moreover have "read_curve sp0 tp0 entries uninit ?text = (Inr (int (length ?text)), sp', tp')"
    using scan[of "[]"] split tv sv copy
    by (simp add: read_curve_def)
  ultimately show ?thesis
    using printed by blast
qed

text \<open>
  For three entries: the buffers with speeds 10, 60, 90 and breakpoints 40, 70 are printed
  as \<^verbatim>\<open>10 40 60 70 90\<close> and a newline.
\<close>

theorem curve_text_round_trip_witness:
  "(\<exists>text sp' tp'.
      print_curve ([10, 60, 90] @ replicate 13 0) ([40, 70] @ replicate 14 0) 3 = Inr (text @ [newline]) \<and>
      read_curve (replicate 16 0) (replicate 16 0) 3 0 (text @ [newline])
        = (Inr (int (length (text @ [newline]))), sp', tp') \<and>
      read_curve (replicate 16 0) (replicate 16 0) 3 0 text = (Inr (int (length text)), sp', tp') \<and>
      take (nat 3) sp' = take (nat 3) ([10, 60, 90] @ replicate 13 0) \<and>
      take (nat (3 - 1)) tp' = take (nat (3 - 1)) ([40, 70] @ replicate 14 0))
   \<and> print_curve ([10, 60, 90] @ replicate 13 0) ([40, 70] @ replicate 14 0) 3
       = Inr (''10 40 60 70 90'' @ [newline])"
proof -
  have ok: "curve_accepted 3 ([10, 60, 90] @ replicate 13 0) ([40, 70] @ replicate 14 0)"
    by code_simp
  have shown: "print_curve ([10, 60, 90] @ replicate 13 0) ([40, 70] @ replicate 14 0) 3
       = Inr (''10 40 60 70 90'' @ [newline])"
    by code_simp
  have "\<exists>text sp' tp'.
      print_curve ([10, 60, 90] @ replicate 13 0) ([40, 70] @ replicate 14 0) 3 = Inr (text @ [newline]) \<and>
      read_curve (replicate 16 0) (replicate 16 0) 3 0 (text @ [newline])
        = (Inr (int (length (text @ [newline]))), sp', tp') \<and>
      read_curve (replicate 16 0) (replicate 16 0) 3 0 text = (Inr (int (length text)), sp', tp') \<and>
      take (nat 3) sp' = take (nat 3) ([10, 60, 90] @ replicate 13 0) \<and>
      take (nat (3 - 1)) tp' = take (nat (3 - 1)) ([40, 70] @ replicate 14 0)"
    by (rule curve_text_round_trip[OF _ _ _ _ _ _ ok]) simp_all
  with shown show ?thesis by blast
qed

text \<open>
  C6 as stated fails in its example: the text \<^verbatim>\<open>10 40 60 70 90\<close> decodes to speeds 10, 60,
  90 and breakpoints 40, 70, but printing these buffers does not give the same string. It
  gives the string and a newline.
\<close>

theorem print_curve_appends_newline:
  "read_curve (replicate 16 0) (replicate 16 0) 3 0 ''10 40 60 70 90''
     = (Inr 14, [10, 60, 90] @ replicate 13 0, [40, 70] @ replicate 14 0)
   \<and> print_curve ([10, 60, 90] @ replicate 13 0) ([40, 70] @ replicate 14 0) 3
       \<noteq> Inr ''10 40 60 70 90''
   \<and> print_curve ([10, 60, 90] @ replicate 13 0) ([40, 70] @ replicate 14 0) 3
       = Inr (''10 40 60 70 90'' @ [newline])"
  by code_simp

section \<open>Pushing and pulling curves on an EC that does not fail\<close>

lemma ec_read_ok: "faults e = [] \<Longrightarrow> ec_read a e = (Inr (mem e a), e)"
  by (simp add: ec_read_def ec_access_def)

lemma ec_write_ok:
  "faults e = [] \<Longrightarrow>
   ec_write a v e = (Inr 0, e\<lparr>mem := (mem e)(a := v), written := written e @ [(a, v)]\<rparr>)"
  by (simp add: ec_write_def ec_access_def)

lemma length_reg_addrs: "length (reg_addrs j n) = n"
  by (induction n arbitrary: j) simp_all

lemma poke_other: "a \<notin> fst ` set ws \<Longrightarrow> poke ws m a = m a"
  by (induction ws m rule: poke.induct) auto

lemma poke_map:
  "distinct (map fst ws) \<Longrightarrow> map (poke ws m) (map fst ws) = map snd ws"
proof (induction ws m rule: poke.induct)
  case (1 m)
  then show ?case by simp
next
  case (2 a v ws m)
  from "2.prems" have a: "a \<notin> fst ` set ws" and d: "distinct (map fst ws)"
    by auto
  have here: "poke ws (m(a := v)) a = v"
    using poke_other[OF a, of "m(a := v)"] by simp
  show ?case
    by (simp only: poke.simps list.map fst_conv snd_conv here "2.IH"[OF d])
qed

lemma push_loop_ok:
  "faults e = [] \<Longrightarrow> i + n \<le> length buf \<Longrightarrow>
   push_loop i j n buf e =
     (Inr 0, e\<lparr>mem := poke (zip (reg_addrs j n) (take n (drop i buf))) (mem e),
              written := written e @ zip (reg_addrs j n) (take n (drop i buf))\<rparr>)"
proof (induction n arbitrary: i j e)
  case 0
  then show ?case by simp
next
  case (Suc n)
  let ?e1 = "e\<lparr>mem := (mem e)(of_int j := buf ! i), written := written e @ [(of_int j, buf ! i)]\<rparr>"
  have w: "ec_write (of_int j) (buf ! i) e = (Inr 0, ?e1)"
    using Suc.prems(1) by (rule ec_write_ok)
  have f1: "faults ?e1 = []" using Suc.prems(1) by simp
  have l1: "Suc i + n \<le> length buf" using Suc.prems(2) by simp
  have vals: "take (Suc n) (drop i buf) = buf ! i # take n (drop (Suc i) buf)"
    using Suc.prems(2) by (simp add: Cons_nth_drop_Suc[symmetric])
  have "push_loop i j (Suc n) buf e = push_loop (Suc i) (j + 1) n buf ?e1"
    by (simp only: push_loop.simps w prod.case sum.case)
  also note Suc.IH[OF f1 l1, of "j + 1"]
  also have "?e1\<lparr>mem := poke (zip (reg_addrs (j + 1) n) (take n (drop (Suc i) buf))) (mem ?e1),
                 written := written ?e1 @ zip (reg_addrs (j + 1) n) (take n (drop (Suc i) buf))\<rparr>
             = e\<lparr>mem := poke (zip (reg_addrs j (Suc n)) (take (Suc n) (drop i buf))) (mem e),
                  written := written e @ zip (reg_addrs j (Suc n)) (take (Suc n) (drop i buf))\<rparr>"
    by (simp add: vals)
  finally show ?case .
qed



lemma poke_append: "poke (xs @ ys) m = poke ys (poke xs m)"
  by (induction xs arbitrary: m) auto

lemma curve_writes_fst:
  "nat (entries_count curve) \<le> length sp \<Longrightarrow> nat (entries_count curve - 1) \<le> length tp \<Longrightarrow>
   map fst (curve_writes curve sp tp) = curve_speed_addrs curve @ curve_temp_addrs curve"
  by (simp add: curve_writes_def curve_speed_addrs_def curve_temp_addrs_def length_reg_addrs)

lemma curve_writes_snd:
  "nat (entries_count curve) \<le> length sp \<Longrightarrow> nat (entries_count curve - 1) \<le> length tp \<Longrightarrow>
   map snd (curve_writes curve sp tp)
   = take (nat (entries_count curve)) sp @ take (nat (entries_count curve - 1)) tp"
  by (simp add: curve_writes_def curve_speed_addrs_def curve_temp_addrs_def length_reg_addrs)

lemma allowed_sizes:
  assumes "is_curve_allowed curve" "length sp = CURVE_MAX_ENTRIES" "length tp = CURVE_MAX_ENTRIES"
  shows "nat (entries_count curve) \<le> length sp" "nat (entries_count curve - 1) \<le> length tp"
  using assms by (auto simp: is_curve_allowed_def)

lemma push_ec_curve_ok:
  assumes "faults e = []" "is_curve_allowed curve"
    and "length sp = CURVE_MAX_ENTRIES" "length tp = CURVE_MAX_ENTRIES"
  shows "push_ec_curve curve sp tp e =
           (Inr 0, e\<lparr>mem := poke (curve_writes curve sp tp) (mem e),
                    written := written e @ curve_writes curve sp tp\<rparr>)"
proof -
  let ?n = "nat (entries_count curve)" and ?m = "nat (entries_count curve - 1)"
  let ?ws = "zip (curve_speed_addrs curve) (take ?n sp)"
  let ?wt = "zip (curve_temp_addrs curve) (take ?m tp)"
  let ?e1 = "e\<lparr>mem := poke ?ws (mem e), written := written e @ ?ws\<rparr>"
  note sz = allowed_sizes[OF assms(2,3,4)]
  have a: "push_loop 0 (speed_start_address curve) ?n sp e = (Inr 0, ?e1)"
    using push_loop_ok[OF assms(1), of 0 ?n sp "speed_start_address curve"] sz(1)
    by (simp add: curve_speed_addrs_def)
  have f1: "faults ?e1 = []" using assms(1) by simp
  have b: "push_loop 0 (temperature_start_address curve) ?m tp ?e1
           = (Inr 0, ?e1\<lparr>mem := poke ?wt (mem ?e1), written := written ?e1 @ ?wt\<rparr>)"
    using push_loop_ok[OF f1, of 0 ?m tp "temperature_start_address curve"] sz(2)
    by (simp add: curve_temp_addrs_def)
  have "push_ec_curve curve sp tp e = push_loop 0 (temperature_start_address curve) ?m tp ?e1"
    using assms(2) by (simp only: push_ec_curve_def a prod.case sum.case simp_thms if_False)
  also note b
  also have "?e1\<lparr>mem := poke ?wt (mem ?e1), written := written ?e1 @ ?wt\<rparr>
             = e\<lparr>mem := poke (curve_writes curve sp tp) (mem e),
                  written := written e @ curve_writes curve sp tp\<rparr>"
    by (simp add: curve_writes_def poke_append)
  finally show ?thesis .
qed

lemma ec_holds_after_writes:
  assumes "distinct (curve_speed_addrs curve @ curve_temp_addrs curve)"
    and "nat (entries_count curve) \<le> length sp" "nat (entries_count curve - 1) \<le> length tp"
    and "mem e' = poke (curve_writes curve sp tp) m"
  shows "ec_holds curve sp tp e'"
proof -
  have "map (mem e') (curve_speed_addrs curve @ curve_temp_addrs curve)
        = take (nat (entries_count curve)) sp @ take (nat (entries_count curve - 1)) tp"
    using poke_map[of "curve_writes curve sp tp" m] assms
    by (simp only: curve_writes_fst curve_writes_snd)
  moreover have "length (curve_speed_addrs curve) = length (take (nat (entries_count curve)) sp)"
    using assms(2) by (simp add: curve_speed_addrs_def length_reg_addrs)
  ultimately show ?thesis
    by (simp add: ec_holds_def)
qed

lemma ec_holds_frame:
  assumes "ec_holds curve sp tp e"
    and "\<forall>a \<in> set (curve_speed_addrs curve @ curve_temp_addrs curve). mem e' a = mem e a"
  shows "ec_holds curve sp tp e'"
proof -
  from assms(2) have "map (mem e') (curve_speed_addrs curve) = map (mem e) (curve_speed_addrs curve)"
    and "map (mem e') (curve_temp_addrs curve) = map (mem e) (curve_temp_addrs curve)"
    by simp_all
  with assms(1) show ?thesis by (simp add: ec_holds_def)
qed


section \<open>The reset-on-auto strategy across a trip through the auto mode\<close>

lemma layout_distinct:
  "ec_layout_ok cnf \<Longrightarrow> managed f cnf \<Longrightarrow>
   distinct (curve_speed_addrs (curve_of f cnf) @ curve_temp_addrs (curve_of f cnf))"
  by (cases f) (auto simp: ec_layout_ok_def managed_addrs_def)

lemma layout_fan_mode:
  "ec_layout_ok cnf \<Longrightarrow> managed f cnf \<Longrightarrow>
   fan_mode_addr cnf \<notin> set (curve_speed_addrs (curve_of f cnf) @ curve_temp_addrs (curve_of f cnf))"
  by (cases f) (auto simp: ec_layout_ok_def managed_addrs_def)

lemma layout_disjoint:
  "ec_layout_ok cnf \<Longrightarrow> managed f cnf \<Longrightarrow> managed g cnf \<Longrightarrow> f \<noteq> g \<Longrightarrow>
   a \<in> set (curve_speed_addrs (curve_of f cnf) @ curve_temp_addrs (curve_of f cnf)) \<Longrightarrow>
   a \<notin> set (curve_speed_addrs (curve_of g cnf) @ curve_temp_addrs (curve_of g cnf))"
  by (cases f; cases g) (auto simp: ec_layout_ok_def managed_addrs_def)

lemma push_managed:
  assumes "faults e = []" "managed g cnf" "ec_layout_ok cnf"
    and "length sp = CURVE_MAX_ENTRIES" "length tp = CURVE_MAX_ENTRIES"
  obtains e1 where
    "push_ec_curve (curve_of g cnf) sp tp e = (Inr 0, e1)"
    "faults e1 = []"
    "ec_holds (curve_of g cnf) sp tp e1"
    "mem e1 (fan_mode_addr cnf) = mem e (fan_mode_addr cnf)"
    "\<And>f sp' tp'. f \<noteq> g \<Longrightarrow> managed f cnf \<Longrightarrow> ec_holds (curve_of f cnf) sp' tp' e \<Longrightarrow>
       ec_holds (curve_of f cnf) sp' tp' e1"
proof -
  let ?c = "curve_of g cnf"
  let ?e1 = "e\<lparr>mem := poke (curve_writes ?c sp tp) (mem e), written := written e @ curve_writes ?c sp tp\<rparr>"
  from assms(2) have al: "is_curve_allowed ?c" by (simp add: managed_def)
  note sz = allowed_sizes[OF al assms(4,5)]
  have fst: "fst ` set (curve_writes ?c sp tp) = set (curve_speed_addrs ?c @ curve_temp_addrs ?c)"
    using curve_writes_fst[OF sz] by (metis set_map)
  have frame: "mem ?e1 a = mem e a" if "a \<notin> set (curve_speed_addrs ?c @ curve_temp_addrs ?c)" for a
    using that fst poke_other[of a "curve_writes ?c sp tp" "mem e"] by simp
  have 1: "push_ec_curve ?c sp tp e = (Inr 0, ?e1)"
    by (rule push_ec_curve_ok[OF assms(1) al assms(4,5)])
  have 2: "faults ?e1 = []" using assms(1) by simp
  have 3: "ec_holds ?c sp tp ?e1"
    by (rule ec_holds_after_writes[OF layout_distinct[OF assms(3,2)] sz, of _ "mem e"]) simp
  have 4: "mem ?e1 (fan_mode_addr cnf) = mem e (fan_mode_addr cnf)"
    by (rule frame[OF layout_fan_mode[OF assms(3,2)]])
  have 5: "ec_holds (curve_of f cnf) sp' tp' ?e1"
    if "f \<noteq> g" "managed f cnf" "ec_holds (curve_of f cnf) sp' tp' e" for f sp' tp'
  proof (rule ec_holds_frame[OF that(3)], rule ballI)
    fix a assume "a \<in> set (curve_speed_addrs (curve_of f cnf) @ curve_temp_addrs (curve_of f cnf))"
    from layout_disjoint[OF assms(3) that(2) assms(2) that(1) this]
    show "mem ?e1 a = mem e a" by (rule frame)
  qed
  show thesis
    by (rule that[OF 1 2 3 4 5])
qed

lemma pack_sized_of:
  "pack_sized (cpu_curve_package s) \<Longrightarrow> pack_sized (gpu_curve_package s) \<Longrightarrow> pack_sized (pack_of f s)"
  by (cases f) simp_all

lemma pack_of_ec [simp]: "pack_of f (s\<lparr>ec := e\<rparr>) = pack_of f s"
  by (cases f) simp_all

lemma push_active_curves_Cons:
  "push_active_curves (g # fs) s =
     (if managed g (conf s) then
        (case push_ec_curve (curve_of g (conf s)) (curve_fan_speed (pack_of g s))
                (curve_temp (pack_of g s)) (ec s) of
           (Inl status, e') \<Rightarrow> (Inl status, s\<lparr>ec := e'\<rparr>)
         | (Inr _, e') \<Rightarrow> push_active_curves fs (s\<lparr>ec := e'\<rparr>))
      else push_active_curves fs s)"
  by (simp add: managed_def Let_def)

lemma push_active_curves_ok:
  "faults (ec s) = [] \<Longrightarrow> pack_sized (cpu_curve_package s) \<Longrightarrow> pack_sized (gpu_curve_package s) \<Longrightarrow>
   ec_layout_ok (conf s) \<Longrightarrow>
   \<exists>e'. push_active_curves fs s = (Inr 0, s\<lparr>ec := e'\<rparr>) \<and> faults e' = [] \<and>
        mem e' (fan_mode_addr (conf s)) = mem (ec s) (fan_mode_addr (conf s)) \<and>
        (\<forall>f. managed f (conf s) \<longrightarrow>
           (f \<in> set fs \<longrightarrow> active_holds f s e') \<and>
           (\<forall>sp tp. f \<notin> set fs \<longrightarrow> ec_holds (curve_of f (conf s)) sp tp (ec s) \<longrightarrow>
                        ec_holds (curve_of f (conf s)) sp tp e'))"
proof (induction fs arbitrary: s)
  case Nil
  have "s\<lparr>ec := ec s\<rparr> = s" by simp
  then show ?case
    by (intro exI[of _ "ec s"]) (simp add: Nil.prems)
next
  case (Cons g fs)
  show ?case
  proof (cases "managed g (conf s)")
    case False
    then have skip: "push_active_curves (g # fs) s = push_active_curves fs s"
      by (simp add: push_active_curves_Cons del: push_active_curves.simps)
    from Cons.IH[OF Cons.prems] obtain e' where
      r: "push_active_curves fs s = (Inr 0, s\<lparr>ec := e'\<rparr>)" "faults e' = []"
         "mem e' (fan_mode_addr (conf s)) = mem (ec s) (fan_mode_addr (conf s))" and
      h: "\<forall>f. managed f (conf s) \<longrightarrow>
           (f \<in> set fs \<longrightarrow> active_holds f s e') \<and>
           (\<forall>sp tp. f \<notin> set fs \<longrightarrow> ec_holds (curve_of f (conf s)) sp tp (ec s) \<longrightarrow>
                        ec_holds (curve_of f (conf s)) sp tp e')"
      by blast
    from h False have
      "\<forall>f. managed f (conf s) \<longrightarrow>
           (f \<in> set (g # fs) \<longrightarrow> active_holds f s e') \<and>
           (\<forall>sp tp. f \<notin> set (g # fs) \<longrightarrow> ec_holds (curve_of f (conf s)) sp tp (ec s) \<longrightarrow>
                        ec_holds (curve_of f (conf s)) sp tp e')"
      by auto
    with r skip show ?thesis by metis
  next
    case True
    let ?p = "pack_of g s"
    from Cons.prems(2,3) have sized: "pack_sized ?p" by (rule pack_sized_of)
    then have len: "length (curve_fan_speed ?p) = CURVE_MAX_ENTRIES" "length (curve_temp ?p) = CURVE_MAX_ENTRIES"
      by (simp_all add: pack_sized_def)
    from push_managed[OF Cons.prems(1) True Cons.prems(4) len] obtain e1 where
      p: "push_ec_curve (curve_of g (conf s)) (curve_fan_speed ?p) (curve_temp ?p) (ec s) = (Inr 0, e1)" and
      f1: "faults e1 = []" and
      h1: "ec_holds (curve_of g (conf s)) (curve_fan_speed ?p) (curve_temp ?p) e1" and
      m1: "mem e1 (fan_mode_addr (conf s)) = mem (ec s) (fan_mode_addr (conf s))" and
      o1: "\<And>f sp' tp'. f \<noteq> g \<Longrightarrow> managed f (conf s) \<Longrightarrow> ec_holds (curve_of f (conf s)) sp' tp' (ec s) \<Longrightarrow>
             ec_holds (curve_of f (conf s)) sp' tp' e1"
      by blast
    let ?s1 = "s\<lparr>ec := e1\<rparr>"
    from True p have step: "push_active_curves (g # fs) s = push_active_curves fs ?s1"
      by (simp add: push_active_curves_Cons del: push_active_curves.simps)
    have "\<exists>e'. push_active_curves fs ?s1 = (Inr 0, ?s1\<lparr>ec := e'\<rparr>) \<and> faults e' = [] \<and>
        mem e' (fan_mode_addr (conf ?s1)) = mem (ec ?s1) (fan_mode_addr (conf ?s1)) \<and>
        (\<forall>f. managed f (conf ?s1) \<longrightarrow>
           (f \<in> set fs \<longrightarrow> active_holds f ?s1 e') \<and>
           (\<forall>sp tp. f \<notin> set fs \<longrightarrow> ec_holds (curve_of f (conf ?s1)) sp tp (ec ?s1) \<longrightarrow>
                        ec_holds (curve_of f (conf ?s1)) sp tp e'))"
      by (rule Cons.IH) (use f1 Cons.prems in simp_all)
    then obtain e' where
      r: "push_active_curves fs ?s1 = (Inr 0, s\<lparr>ec := e'\<rparr>)" "faults e' = []"
         "mem e' (fan_mode_addr (conf s)) = mem e1 (fan_mode_addr (conf s))" and
      h: "\<And>f. managed f (conf s) \<Longrightarrow> f \<in> set fs \<Longrightarrow> active_holds f s e'" and
      o: "\<And>f sp tp. managed f (conf s) \<Longrightarrow> f \<notin> set fs \<Longrightarrow> ec_holds (curve_of f (conf s)) sp tp e1 \<Longrightarrow>
                        ec_holds (curve_of f (conf s)) sp tp e'"
      by (auto simp: active_holds_def)
    have "active_holds f s e'" if "managed f (conf s)" "f \<in> set (g # fs)" for f
    proof (cases "f \<in> set fs")
      case True
      with that show ?thesis by (simp add: h)
    next
      case False
      with that have "f = g" by simp
      with False that(1) h1 o[of g] show ?thesis by (simp add: active_holds_def)
    qed
    moreover have "ec_holds (curve_of f (conf s)) sp tp e'"
      if "managed f (conf s)" "f \<notin> set (g # fs)" "ec_holds (curve_of f (conf s)) sp tp (ec s)" for f sp tp
      using that o1[of f sp tp] o[of f sp tp] by simp
    ultimately show ?thesis
      using step r m1 by (intro exI[of _ e']) simp
  qed
qed


lemma fan_mode_lookup_terminated:
  "null_terminated modes \<Longrightarrow> fan_mode_lookup modes rdata \<noteq> Inl err"
  by (induction modes) (auto simp: null_terminated_def split: option.splits)

lemma safe_gate_open:
  "faults e = [] \<Longrightarrow>
   fan_mode_lookup (fm_modes (fan_mode cnf)) (mem e (fan_mode_addr cnf)) = Inr (0, Some FM_ADVANCED_NAME) \<Longrightarrow>
   safe_gate cnf curve e = (Inr True, e)"
  by (simp add: safe_gate_def fan_mode_get_def ec_read_ok fan_mode_addr_def)

lemma reset_default_curves_Cons:
  assumes "sync_ec_curve_safe (conf s) (curve_of g (conf s)) (curve_fan_speed (pack_of g s))
             (curve_temp (pack_of g s)) (ec s) = (r, sp, tp, e1)"
    and "r \<noteq> Inl OUT_OF_BOUNDS" "managed g (conf s)"
  shows "reset_default_curves (g # fs) s =
     (case push_ec_curve (curve_of g (conf s)) (curve_fan_speed_default (pack_of g s))
             (curve_temp_default (pack_of g s)) e1 of
        (Inl status, e2) \<Rightarrow>
          (Inl status,
           (set_pack g ((pack_of g s)\<lparr>curve_fan_speed := sp, curve_temp := tp\<rparr>) (s\<lparr>ec := e1\<rparr>))\<lparr>ec := e2\<rparr>)
      | (Inr _, e2) \<Rightarrow>
          reset_default_curves fs
            ((set_pack g ((pack_of g s)\<lparr>curve_fan_speed := sp, curve_temp := tp\<rparr>) (s\<lparr>ec := e1\<rparr>))\<lparr>ec := e2\<rparr>))"
proof (cases r)
  case (Inl err)
  with assms show ?thesis
    by (cases err) (simp_all add: managed_def Let_def)
next
  case (Inr x)
  with assms show ?thesis
    by (simp add: managed_def Let_def)
qed

lemma reset_default_curves_skip:
  "\<not> managed g (conf s) \<Longrightarrow> reset_default_curves (g # fs) s = reset_default_curves fs s"
  by (auto simp: managed_def Let_def)

lemma set_pack_same [simp]: "set_pack g (pack_of g s) s = s"
  by (cases g) simp_all

lemma set_fan_mode_from_found:
  "mode_value_of modes mode = Some v \<Longrightarrow>
   set_fan_mode_from modes mode s =
     (case curve_fan_mode_change mode s of
        (Inl err, s1) \<Rightarrow> (Inl err, s1)
      | (Inr _, s1) \<Rightarrow>
          (case ec_write (of_int (fm_address (fan_mode (conf s1)))) (of_int v) (ec s1) of
             (Inl err, e') \<Rightarrow> (Inl err, s1\<lparr>ec := e'\<rparr>)
           | (Inr _, e') \<Rightarrow> (Inr 0, s1\<lparr>ec := e'\<rparr>)))"
  by (induction modes) (auto split: if_splits)

lemma set_fan_mode_after:
  assumes "mode_value_of (fm_modes (fan_mode (conf s))) mode = Some v"
    and "curve_fan_mode_change mode s = (Inr 0, s\<lparr>ec := e1\<rparr>)" "faults e1 = []"
  shows "set_fan_mode mode s =
           (Inr 0, s\<lparr>ec := e1\<lparr>mem := (mem e1)(fan_mode_addr (conf s) := of_int v),
                               written := written e1 @ [(fan_mode_addr (conf s), of_int v)]\<rparr>\<rparr>)"
  using set_fan_mode_from_found[OF assms(1), of s] assms(2)
        ec_write_ok[OF assms(3), of "fan_mode_addr (conf s)" "of_int v"]
  by (simp add: set_fan_mode_def fan_mode_addr_def)

lemma fan_exhaust: "f \<in> set [CPU, GPU]"
  by (cases f) simp_all

lemma ec_holds_fan_mode_write:
  assumes "ec_layout_ok cnf" "managed f cnf" "ec_holds (curve_of f cnf) sp tp e"
  shows "ec_holds (curve_of f cnf) sp tp
           (e\<lparr>mem := (mem e)(fan_mode_addr cnf := v), written := w\<rparr>)"
proof (rule ec_holds_frame[OF assms(3)], rule ballI)
  fix a assume "a \<in> set (curve_speed_addrs (curve_of f cnf) @ curve_temp_addrs (curve_of f cnf))"
  with layout_fan_mode[OF assms(1,2)] have "a \<noteq> fan_mode_addr cnf" by auto
  then show "mem (e\<lparr>mem := (mem e)(fan_mode_addr cnf := v), written := w\<rparr>) a = mem e a"
    by simp
qed

lemma enter_advanced:
  assumes "faults (ec s) = []" "pack_sized (cpu_curve_package s)" "pack_sized (gpu_curve_package s)"
    and "ec_layout_ok (conf s)"
    and "mode_value_of (fm_modes (fan_mode (conf s))) FM_ADVANCED_NAME = Some va"
  obtains e' where
    "set_fan_mode FM_ADVANCED_NAME s = (Inr 0, s\<lparr>ec := e'\<rparr>)" "faults e' = []"
    "mem e' (fan_mode_addr (conf s)) = of_int va"
    "\<And>f. managed f (conf s) \<Longrightarrow> active_holds f s e'"
proof -
  from push_active_curves_ok[OF assms(1-4), of "[CPU, GPU]"] obtain e1 where
    r: "push_active_curves [CPU, GPU] s = (Inr 0, s\<lparr>ec := e1\<rparr>)" and f1: "faults e1 = []" and
    h: "\<And>f. managed f (conf s) \<Longrightarrow> active_holds f s e1"
    using fan_exhaust by blast
  let ?e' = "e1\<lparr>mem := (mem e1)(fan_mode_addr (conf s) := of_int va),
                 written := written e1 @ [(fan_mode_addr (conf s), of_int va)]\<rparr>"
  from r have c: "curve_fan_mode_change FM_ADVANCED_NAME s = (Inr 0, s\<lparr>ec := e1\<rparr>)"
    by (simp add: curve_fan_mode_change_def)
  have 1: "set_fan_mode FM_ADVANCED_NAME s = (Inr 0, s\<lparr>ec := ?e'\<rparr>)"
    by (rule set_fan_mode_after[OF assms(5) c f1])
  have 2: "faults ?e' = []" using f1 by simp
  have 3: "mem ?e' (fan_mode_addr (conf s)) = of_int va" by simp
  have 4: "active_holds f s ?e'" if "managed f (conf s)" for f
    using ec_holds_fan_mode_write[OF assms(4) that] h[OF that]
    by (simp add: active_holds_def)
  show thesis by (rule that[OF 1 2 3 4])
qed

lemma active_holds_ec [simp]: "active_holds f (s\<lparr>ec := e\<rparr>) e' = active_holds f s e'"
  by (simp add: active_holds_def)

lemma default_holds_ec [simp]: "default_holds f (s\<lparr>ec := e\<rparr>) e' = default_holds f s e'"
  by (simp add: default_holds_def)


lemma sync_loop_pull:
  "faults e = [] \<Longrightarrow> i + n \<le> length buf \<Longrightarrow>
   sync_loop i j n buf e
     = (Inr 0, take i buf @ map (mem e) (reg_addrs j n) @ drop (i + n) buf, e)"
proof (induction n arbitrary: i j buf)
  case 0
  then show ?case by simp
next
  case (Suc n)
  let ?b = "buf[i := mem e (of_int j)]"
  have l: "Suc i + n \<le> length ?b" using Suc.prems(2) by simp
  have step: "sync_loop i j (Suc n) buf e = sync_loop (Suc i) (j + 1) n ?b e"
    using ec_read_ok[OF Suc.prems(1), of "of_int j"] by simp
  have cells: "take (Suc i) ?b @ map (mem e) (reg_addrs (j + 1) n) @ drop (Suc i + n) ?b
               = take i buf @ map (mem e) (reg_addrs j (Suc n)) @ drop (i + Suc n) buf"
    using Suc.prems(2) by (simp add: take_Suc_conv_app_nth)
  show ?case
    using Suc.IH[OF Suc.prems(1) l, of "j + 1"] cells by (simp only: step)
qed

lemma sync_ec_curve_pull:
  assumes "faults e = []" "is_curve_allowed curve"
    and "length sp = CURVE_MAX_ENTRIES" "length tp = CURVE_MAX_ENTRIES"
  shows "sync_ec_curve curve sp tp e =
           (Inr 0, map (mem e) (curve_speed_addrs curve) @ drop (nat (entries_count curve)) sp,
            map (mem e) (curve_temp_addrs curve) @ drop (nat (entries_count curve - 1)) tp, e)"
proof -
  note sz = allowed_sizes[OF assms(2,3,4)]
  have a: "sync_loop 0 (speed_start_address curve) (nat (entries_count curve)) sp e
           = (Inr 0, map (mem e) (curve_speed_addrs curve) @ drop (nat (entries_count curve)) sp, e)"
    using sync_loop_pull[OF assms(1), of 0 "nat (entries_count curve)" sp "speed_start_address curve"]
      sz(1)
    by (simp add: curve_speed_addrs_def)
  have b: "sync_loop 0 (temperature_start_address curve) (nat (entries_count curve - 1)) tp e
           = (Inr 0, map (mem e) (curve_temp_addrs curve) @ drop (nat (entries_count curve - 1)) tp, e)"
    using sync_loop_pull[OF assms(1), of 0 "nat (entries_count curve - 1)" tp
            "temperature_start_address curve"] sz(2)
    by (simp add: curve_temp_addrs_def)
  show ?thesis
    using assms(2) by (simp add: sync_ec_curve_def a b)
qed

lemma pulled_fields [simp]:
  "curve_fan_speed_default (pulled c p e) = curve_fan_speed_default p"
  "curve_temp_default (pulled c p e) = curve_temp_default p"
  "p\<lparr>curve_fan_speed := curve_fan_speed (pulled c p e), curve_temp := curve_temp (pulled c p e)\<rparr>
   = pulled c p e"
  by (simp_all add: pulled_def)

lemma pulled_sized:
  "is_curve_allowed c \<Longrightarrow> pack_sized p \<Longrightarrow> pack_sized (pulled c p e)"
  by (auto simp: pulled_def pack_sized_def is_curve_allowed_def curve_speed_addrs_def
        curve_temp_addrs_def length_reg_addrs)

lemma pulled_same:
  assumes "ec_holds c (curve_fan_speed p) (curve_temp p) e"
  shows "pulled c p e = p"
  using assms by (simp add: pulled_def ec_holds_def)

lemma pulled_cong:
  assumes "\<And>a. a \<in> set (curve_speed_addrs c @ curve_temp_addrs c) \<Longrightarrow> mem e' a = mem e a"
  shows "pulled c p e' = pulled c p e"
proof -
  from assms have "map (mem e') (curve_speed_addrs c) = map (mem e) (curve_speed_addrs c)"
    and "map (mem e') (curve_temp_addrs c) = map (mem e) (curve_temp_addrs c)"
    by simp_all
  then show ?thesis by (simp add: pulled_def)
qed

lemma pack_of_set_pack: "pack_of f (set_pack g p s) = (if f = g then p else pack_of f s)"
  by (cases f; cases g) simp_all

lemma set_pack_sized:
  "pack_sized p \<Longrightarrow> pack_sized (cpu_curve_package s) \<Longrightarrow> pack_sized (gpu_curve_package s) \<Longrightarrow>
   pack_sized (cpu_curve_package (set_pack g p s)) \<and> pack_sized (gpu_curve_package (set_pack g p s))"
  by (cases g) simp_all

lemma sync_ec_curve_safe_managed:
  assumes "faults (ec s) = []" "managed g (conf s)" "pack_sized (pack_of g s)"
    and "fan_mode_lookup (fm_modes (fan_mode (conf s))) (mem (ec s) (fan_mode_addr (conf s))) = Inr lr"
  obtains r where
    "sync_ec_curve_safe (conf s) (curve_of g (conf s)) (curve_fan_speed (pack_of g s))
       (curve_temp (pack_of g s)) (ec s)
     = (r, curve_fan_speed (if advanced_now s then pulled (curve_of g (conf s)) (pack_of g s) (ec s)
                            else pack_of g s),
           curve_temp (if advanced_now s then pulled (curve_of g (conf s)) (pack_of g s) (ec s)
                       else pack_of g s),
           ec s)"
    "r \<noteq> Inl OUT_OF_BOUNDS"
proof (cases "advanced_now s")
  case True
  let ?p = "pack_of g s" and ?c = "curve_of g (conf s)"
  from assms(2) have al: "is_curve_allowed ?c" by (simp add: managed_def)
  from assms(3) have len: "length (curve_fan_speed ?p) = CURVE_MAX_ENTRIES"
    "length (curve_temp ?p) = CURVE_MAX_ENTRIES"
    by (simp_all add: pack_sized_def)
  from True have "safe_gate (conf s) ?c (ec s) = (Inr True, ec s)"
    using safe_gate_open[OF assms(1), of "conf s" ?c] by (simp add: advanced_now_def)
  then have "sync_ec_curve_safe (conf s) ?c (curve_fan_speed ?p) (curve_temp ?p) (ec s)
             = (Inr 0, curve_fan_speed (pulled ?c ?p (ec s)), curve_temp (pulled ?c ?p (ec s)), ec s)"
    using sync_ec_curve_pull[OF assms(1) al len]
    by (simp add: sync_ec_curve_safe_def pulled_def)
  with True show thesis by (intro that[of "Inr 0"]) simp_all
next
  case False
  let ?p = "pack_of g s" and ?c = "curve_of g (conf s)"
  from assms(2) have st: "apply_strategy ?c = CURVE_APPLY_STRATEGY_RESET_ON_AUTO"
    by (simp add: managed_def)
  obtain code nm where lr: "lr = (code, nm)" by (cases lr)
  from False assms(4) lr have closed: "\<not> (code = 0 \<and> nm = Some FM_ADVANCED_NAME)"
    by (auto simp: advanced_now_def)
  have "\<exists>r. safe_gate (conf s) ?c (ec s) = (r, ec s) \<and> r \<noteq> Inr True \<and> r \<noteq> Inl OUT_OF_BOUNDS"
    using assms(1,4) lr closed st
    by (cases nm) (auto simp: safe_gate_def fan_mode_get_def ec_read_ok fan_mode_addr_def)
  then obtain r where g: "safe_gate (conf s) ?c (ec s) = (r, ec s)" "r \<noteq> Inr True"
    "r \<noteq> Inl OUT_OF_BOUNDS"
    by blast
  then have "\<exists>r'. sync_ec_curve_safe (conf s) ?c (curve_fan_speed ?p) (curve_temp ?p) (ec s)
             = (r', curve_fan_speed ?p, curve_temp ?p, ec s) \<and> r' \<noteq> Inl OUT_OF_BOUNDS"
    by (cases r) (auto simp: sync_ec_curve_safe_def split: bool.splits)
  with False show thesis using that by auto
qed


lemma push_managed_frame:
  assumes "faults e = []" "managed g cnf" "ec_layout_ok cnf"
    and "length sp = CURVE_MAX_ENTRIES" "length tp = CURVE_MAX_ENTRIES"
  obtains e1 where
    "push_ec_curve (curve_of g cnf) sp tp e = (Inr 0, e1)"
    "faults e1 = []"
    "ec_holds (curve_of g cnf) sp tp e1"
    "\<And>a. a \<notin> set (curve_speed_addrs (curve_of g cnf) @ curve_temp_addrs (curve_of g cnf)) \<Longrightarrow>
       mem e1 a = mem e a"
proof -
  let ?c = "curve_of g cnf"
  let ?e1 = "e\<lparr>mem := poke (curve_writes ?c sp tp) (mem e), written := written e @ curve_writes ?c sp tp\<rparr>"
  from assms(2) have al: "is_curve_allowed ?c" by (simp add: managed_def)
  note sz = allowed_sizes[OF al assms(4,5)]
  have fst: "fst ` set (curve_writes ?c sp tp) = set (curve_speed_addrs ?c @ curve_temp_addrs ?c)"
    using curve_writes_fst[OF sz] by (metis set_map)
  have 4: "mem ?e1 a = mem e a" if "a \<notin> set (curve_speed_addrs ?c @ curve_temp_addrs ?c)" for a
    using that fst poke_other[of a "curve_writes ?c sp tp" "mem e"] by simp
  have 1: "push_ec_curve ?c sp tp e = (Inr 0, ?e1)"
    by (rule push_ec_curve_ok[OF assms(1) al assms(4,5)])
  have 2: "faults ?e1 = []" using assms(1) by simp
  have 3: "ec_holds ?c sp tp ?e1"
    by (rule ec_holds_after_writes[OF layout_distinct[OF assms(3,2)] sz, of _ "mem e"]) simp
  show thesis
    by (rule that[OF 1 2 3 4])
qed

lemma reset_default_curves_step:
  assumes "faults (ec s) = []"
    and "pack_sized (cpu_curve_package s)" "pack_sized (gpu_curve_package s)"
    and "ec_layout_ok (conf s)"
    and "fan_mode_lookup (fm_modes (fan_mode (conf s))) (mem (ec s) (fan_mode_addr (conf s))) = Inr lr"
    and "managed g (conf s)"
  obtains e1 where
    "reset_default_curves (g # fs) s =
       reset_default_curves fs
         ((set_pack g (if advanced_now s then pulled (curve_of g (conf s)) (pack_of g s) (ec s)
                       else pack_of g s) s)\<lparr>ec := e1\<rparr>)"
    "faults e1 = []"
    "ec_holds (curve_of g (conf s)) (curve_fan_speed_default (pack_of g s))
       (curve_temp_default (pack_of g s)) e1"
    "\<And>a. a \<notin> set (curve_speed_addrs (curve_of g (conf s)) @ curve_temp_addrs (curve_of g (conf s))) \<Longrightarrow>
       mem e1 a = mem (ec s) a"
proof -
  let ?p = "pack_of g s" and ?c = "curve_of g (conf s)"
  let ?p' = "if advanced_now s then pulled ?c ?p (ec s) else ?p"
  from assms(2,3) have sized: "pack_sized ?p" by (rule pack_sized_of)
  then have dlen: "length (curve_fan_speed_default ?p) = CURVE_MAX_ENTRIES"
                  "length (curve_temp_default ?p) = CURVE_MAX_ENTRIES"
    by (simp_all add: pack_sized_def)
  from sync_ec_curve_safe_managed[OF assms(1,6) sized assms(5)] obtain r where
    pull: "sync_ec_curve_safe (conf s) ?c (curve_fan_speed ?p) (curve_temp ?p) (ec s)
           = (r, curve_fan_speed ?p', curve_temp ?p', ec s)"
    and r: "r \<noteq> Inl OUT_OF_BOUNDS"
    by blast
  from push_managed_frame[OF assms(1,6,4) dlen] obtain e1 where
    p: "push_ec_curve ?c (curve_fan_speed_default ?p) (curve_temp_default ?p) (ec s) = (Inr 0, e1)" and
    f1: "faults e1 = []" and
    h1: "ec_holds ?c (curve_fan_speed_default ?p) (curve_temp_default ?p) e1" and
    m1: "\<And>a. a \<notin> set (curve_speed_addrs ?c @ curve_temp_addrs ?c) \<Longrightarrow> mem e1 a = mem (ec s) a"
    by blast
  have upd: "?p\<lparr>curve_fan_speed := curve_fan_speed ?p', curve_temp := curve_temp ?p'\<rparr> = ?p'"
    by simp
  have same: "s\<lparr>ec := ec s\<rparr> = s" by simp
  have step: "reset_default_curves (g # fs) s = reset_default_curves fs ((set_pack g ?p' s)\<lparr>ec := e1\<rparr>)"
    using reset_default_curves_Cons[OF pull r assms(6), of fs] p
    by (simp only: upd same prod.case sum.case)
  show thesis
    by (rule that[OF step f1 h1 m1])
qed

lemma advanced_now_frame:
  "conf s' = conf s \<Longrightarrow> mem (ec s') (fan_mode_addr (conf s)) = mem (ec s) (fan_mode_addr (conf s)) \<Longrightarrow>
   advanced_now s' = advanced_now s"
  by (simp add: advanced_now_def)

lemma reset_default_curves_pull:
  "distinct fs \<Longrightarrow> faults (ec s) = [] \<Longrightarrow>
   pack_sized (cpu_curve_package s) \<Longrightarrow> pack_sized (gpu_curve_package s) \<Longrightarrow>
   ec_layout_ok (conf s) \<Longrightarrow>
   fan_mode_lookup (fm_modes (fan_mode (conf s))) (mem (ec s) (fan_mode_addr (conf s))) = Inr lr \<Longrightarrow>
   \<exists>s'. reset_default_curves fs s = (Inr 0, s') \<and> faults (ec s') = [] \<and> conf s' = conf s \<and>
        mem (ec s') (fan_mode_addr (conf s)) = mem (ec s) (fan_mode_addr (conf s)) \<and>
        (\<forall>f. pack_of f s' =
               (if f \<in> set fs \<and> managed f (conf s) \<and> advanced_now s
                then pulled (curve_of f (conf s)) (pack_of f s) (ec s) else pack_of f s)) \<and>
        (\<forall>f. managed f (conf s) \<longrightarrow>
           (f \<in> set fs \<longrightarrow> default_holds f s (ec s')) \<and>
           (f \<notin> set fs \<longrightarrow>
              (\<forall>a \<in> set (curve_speed_addrs (curve_of f (conf s)) @ curve_temp_addrs (curve_of f (conf s))).
                 mem (ec s') a = mem (ec s) a)))"
proof (induction fs arbitrary: s)
  case Nil
  then show ?case by simp
next
  case (Cons g fs)
  from Cons.prems(1) have dfs: "distinct fs" and gfs: "g \<notin> set fs" by simp_all
  show ?case
  proof (cases "managed g (conf s)")
    case False
    from Cons.IH[OF dfs Cons.prems(2-6)] obtain s' where
      r: "reset_default_curves fs s = (Inr 0, s')" "faults (ec s') = []" "conf s' = conf s"
         "mem (ec s') (fan_mode_addr (conf s)) = mem (ec s) (fan_mode_addr (conf s))" and
      pk: "\<And>f. pack_of f s' =
               (if f \<in> set fs \<and> managed f (conf s) \<and> advanced_now s
                then pulled (curve_of f (conf s)) (pack_of f s) (ec s) else pack_of f s)" and
      h: "\<And>f. managed f (conf s) \<Longrightarrow> f \<in> set fs \<Longrightarrow> default_holds f s (ec s')" and
      o: "\<And>f a. managed f (conf s) \<Longrightarrow> f \<notin> set fs \<Longrightarrow>
            a \<in> set (curve_speed_addrs (curve_of f (conf s)) @ curve_temp_addrs (curve_of f (conf s))) \<Longrightarrow>
            mem (ec s') a = mem (ec s) a"
      by blast
    have "pack_of f s' =
               (if f \<in> set (g # fs) \<and> managed f (conf s) \<and> advanced_now s
                then pulled (curve_of f (conf s)) (pack_of f s) (ec s) else pack_of f s)" for f
      using pk[of f] False by auto
    moreover have "default_holds f s (ec s')" if "managed f (conf s)" "f \<in> set (g # fs)" for f
      using that False h[of f] by auto
    moreover have "mem (ec s') a = mem (ec s) a"
      if "managed f (conf s)" "f \<notin> set (g # fs)"
         "a \<in> set (curve_speed_addrs (curve_of f (conf s)) @ curve_temp_addrs (curve_of f (conf s)))" for f a
      using that o[of f a] by simp
    ultimately show ?thesis
      using r reset_default_curves_skip[OF False, of fs]
      by (intro exI[of _ s']) (simp del: reset_default_curves.simps)
  next
    case True
    let ?p = "pack_of g s" and ?c = "curve_of g (conf s)"
    let ?p' = "if advanced_now s then pulled ?c ?p (ec s) else ?p"
    from True have al: "is_curve_allowed ?c" by (simp add: managed_def)
    from Cons.prems(3,4) have sized: "pack_sized ?p" by (rule pack_sized_of)
    then have sized': "pack_sized ?p'" using pulled_sized[OF al] by simp
    from reset_default_curves_step[OF Cons.prems(2-6) True, of fs] obtain e1 where
      step: "reset_default_curves (g # fs) s = reset_default_curves fs ((set_pack g ?p' s)\<lparr>ec := e1\<rparr>)" and
      f1: "faults e1 = []" and
      h1: "ec_holds ?c (curve_fan_speed_default ?p) (curve_temp_default ?p) e1" and
      m1: "\<And>a. a \<notin> set (curve_speed_addrs ?c @ curve_temp_addrs ?c) \<Longrightarrow> mem e1 a = mem (ec s) a"
      by blast
    let ?s2 = "(set_pack g ?p' s)\<lparr>ec := e1\<rparr>"
    have c2: "conf ?s2 = conf s" by (cases g) simp_all
    have e2: "ec ?s2 = e1" by simp
    have fm: "mem e1 (fan_mode_addr (conf s)) = mem (ec s) (fan_mode_addr (conf s))"
      by (rule m1[OF layout_fan_mode[OF Cons.prems(5) True]])
    have adv: "advanced_now ?s2 = advanced_now s"
      by (rule advanced_now_frame) (simp_all add: c2 fm)
    have pk2: "pack_of f ?s2 = (if f = g then ?p' else pack_of f s)" for f
      by (simp add: pack_of_set_pack)
    have other: "mem e1 a = mem (ec s) a"
      if "managed f (conf s)" "f \<noteq> g"
         "a \<in> set (curve_speed_addrs (curve_of f (conf s)) @ curve_temp_addrs (curve_of f (conf s)))" for f a
      by (rule m1[OF layout_disjoint[OF Cons.prems(5) that(1) True that(2,3)]])
    have "\<exists>s'. reset_default_curves fs ?s2 = (Inr 0, s') \<and> faults (ec s') = [] \<and> conf s' = conf ?s2 \<and>
        mem (ec s') (fan_mode_addr (conf ?s2)) = mem (ec ?s2) (fan_mode_addr (conf ?s2)) \<and>
        (\<forall>f. pack_of f s' =
               (if f \<in> set fs \<and> managed f (conf ?s2) \<and> advanced_now ?s2
                then pulled (curve_of f (conf ?s2)) (pack_of f ?s2) (ec ?s2) else pack_of f ?s2)) \<and>
        (\<forall>f. managed f (conf ?s2) \<longrightarrow>
           (f \<in> set fs \<longrightarrow> default_holds f ?s2 (ec s')) \<and>
           (f \<notin> set fs \<longrightarrow>
              (\<forall>a \<in> set (curve_speed_addrs (curve_of f (conf ?s2)) @ curve_temp_addrs (curve_of f (conf ?s2))).
                 mem (ec s') a = mem (ec ?s2) a)))"
    proof (rule Cons.IH[OF dfs])
      show "faults (ec ?s2) = []" using f1 by simp
      show "pack_sized (cpu_curve_package ?s2)" "pack_sized (gpu_curve_package ?s2)"
        using set_pack_sized[OF sized' Cons.prems(3,4), of g] by simp_all
      show "ec_layout_ok (conf ?s2)" using Cons.prems(5) c2 by simp
      show "fan_mode_lookup (fm_modes (fan_mode (conf ?s2))) (mem (ec ?s2) (fan_mode_addr (conf ?s2))) = Inr lr"
        using Cons.prems(6) fm c2 by simp
    qed
    then obtain s' where
      r: "reset_default_curves fs ?s2 = (Inr 0, s')" "faults (ec s') = []" "conf s' = conf s"
         "mem (ec s') (fan_mode_addr (conf s)) = mem e1 (fan_mode_addr (conf s))" and
      pk: "\<And>f. pack_of f s' =
               (if f \<in> set fs \<and> managed f (conf s) \<and> advanced_now s
                then pulled (curve_of f (conf s)) (pack_of f ?s2) e1 else pack_of f ?s2)" and
      h: "\<And>f. managed f (conf s) \<Longrightarrow> f \<in> set fs \<Longrightarrow> default_holds f ?s2 (ec s')" and
      o: "\<And>f a. managed f (conf s) \<Longrightarrow> f \<notin> set fs \<Longrightarrow>
            a \<in> set (curve_speed_addrs (curve_of f (conf s)) @ curve_temp_addrs (curve_of f (conf s))) \<Longrightarrow>
            mem (ec s') a = mem e1 a"
      unfolding c2 e2 adv by blast
    have packs: "pack_of f s' =
               (if f \<in> set (g # fs) \<and> managed f (conf s) \<and> advanced_now s
                then pulled (curve_of f (conf s)) (pack_of f s) (ec s) else pack_of f s)" for f
    proof (cases "f = g")
      case True
      with gfs pk[of g] pk2[of g] \<open>managed g (conf s)\<close> show ?thesis by simp
    next
      case False
      show ?thesis
      proof (cases "f \<in> set fs \<and> managed f (conf s) \<and> advanced_now s")
        case True
        then have "pulled (curve_of f (conf s)) (pack_of f s) e1
                   = pulled (curve_of f (conf s)) (pack_of f s) (ec s)"
          using other[of f] False by (intro pulled_cong) simp
        with True False pk[of f] pk2[of f] show ?thesis by simp
      next
        case no: False
        with False pk[of f] pk2[of f] show ?thesis by auto
      qed
    qed
    have holds: "default_holds f s (ec s')" if "managed f (conf s)" "f \<in> set (g # fs)" for f
    proof (cases "f \<in> set fs")
      case True
      with gfs have "f \<noteq> g" by auto
      with h[OF that(1) True] pk2[of f] c2 show ?thesis
        by (simp add: default_holds_def)
    next
      case False
      with that have fg: "f = g" by simp
      have "ec_holds ?c (curve_fan_speed_default ?p) (curve_temp_default ?p) (ec s')"
      proof (rule ec_holds_frame[OF h1], rule ballI)
        fix a assume "a \<in> set (curve_speed_addrs ?c @ curve_temp_addrs ?c)"
        with o[of g a] \<open>managed g (conf s)\<close> gfs show "mem (ec s') a = mem e1 a" by simp
      qed
      with fg show ?thesis by (simp add: default_holds_def)
    qed
    have frame: "mem (ec s') a = mem (ec s) a"
      if "managed f (conf s)" "f \<notin> set (g # fs)"
         "a \<in> set (curve_speed_addrs (curve_of f (conf s)) @ curve_temp_addrs (curve_of f (conf s)))" for f a
      using that o[of f a] other[of f a] by simp
    show ?thesis
      using step r fm packs holds frame
      by (intro exI[of _ s']) (simp del: reset_default_curves.simps)
  qed
qed


lemma leave_mode:
  assumes "faults (ec s) = []" "pack_sized (cpu_curve_package s)" "pack_sized (gpu_curve_package s)"
    and "ec_layout_ok (conf s)"
    and "mode \<noteq> FM_ADVANCED_NAME"
    and "mode_value_of (fm_modes (fan_mode (conf s))) mode = Some v"
    and "fan_mode_lookup (fm_modes (fan_mode (conf s))) (mem (ec s) (fan_mode_addr (conf s))) = Inr lr"
  obtains s' where
    "set_fan_mode mode s = (Inr 0, s')" "faults (ec s') = []" "conf s' = conf s"
    "mem (ec s') (fan_mode_addr (conf s)) = of_int v"
    "\<And>f. pack_of f s' =
            (if managed f (conf s) \<and> advanced_now s
             then pulled (curve_of f (conf s)) (pack_of f s) (ec s) else pack_of f s)"
    "\<And>f. managed f (conf s) \<Longrightarrow> default_holds f s (ec s')"
proof -
  have "distinct [CPU, GPU]" by simp
  from reset_default_curves_pull[OF this assms(1-4,7)] obtain s1 where
    r: "reset_default_curves [CPU, GPU] s = (Inr 0, s1)" and f1: "faults (ec s1) = []" and
    c1: "conf s1 = conf s" and
    pk: "\<And>f. pack_of f s1 =
               (if f \<in> set [CPU, GPU] \<and> managed f (conf s) \<and> advanced_now s
                then pulled (curve_of f (conf s)) (pack_of f s) (ec s) else pack_of f s)" and
    h: "\<And>f. managed f (conf s) \<Longrightarrow> f \<in> set [CPU, GPU] \<Longrightarrow> default_holds f s (ec s1)"
    by blast
  let ?e' = "(ec s1)\<lparr>mem := (mem (ec s1))(fan_mode_addr (conf s) := of_int v),
                     written := written (ec s1) @ [(fan_mode_addr (conf s), of_int v)]\<rparr>"
  from r assms(5) have c: "curve_fan_mode_change mode s = (Inr 0, s1)"
    by (simp add: curve_fan_mode_change_def)
  have 1: "set_fan_mode mode s = (Inr 0, s1\<lparr>ec := ?e'\<rparr>)"
    using set_fan_mode_from_found[OF assms(6), of s] c c1
          ec_write_ok[OF f1, of "fan_mode_addr (conf s)" "of_int v"]
    by (simp add: set_fan_mode_def fan_mode_addr_def)
  have 2: "faults (ec (s1\<lparr>ec := ?e'\<rparr>)) = []" using f1 by simp
  have 3: "conf (s1\<lparr>ec := ?e'\<rparr>) = conf s" using c1 by simp
  have 4: "mem (ec (s1\<lparr>ec := ?e'\<rparr>)) (fan_mode_addr (conf s)) = of_int v" by simp
  have 5: "pack_of f (s1\<lparr>ec := ?e'\<rparr>) =
            (if managed f (conf s) \<and> advanced_now s
             then pulled (curve_of f (conf s)) (pack_of f s) (ec s) else pack_of f s)" for f
    using pk[of f] fan_exhaust[of f] by simp
  have 6: "default_holds f s (ec (s1\<lparr>ec := ?e'\<rparr>))" if "managed f (conf s)" for f
    using ec_holds_fan_mode_write[OF assms(4) that] h[OF that fan_exhaust]
    by (simp add: default_holds_def)
  show thesis by (rule that[OF 1 2 3 4 5 6])
qed

lemma active_holds_pulled:
  "active_holds f s (ec s) \<Longrightarrow> pulled (curve_of f (conf s)) (pack_of f s) (ec s) = pack_of f s"
  by (rule pulled_same) (simp add: active_holds_def)

text \<open>
  C1. Let the EC answer every access, let the eight buffers have sixteen cells, let the
  fan mode register and the registers of the curves handled be pairwise different, and
  let the mode array name the advanced mode (with a register value that reads back as
  advanced) and the auto mode. Then for every fan whose curve is reset-on-auto and allowed:

  Entering manual. From any such state, whatever the fan mode register holds, setting the
  fan mode to advanced succeeds, leaves the buffers of the fan alone and leaves the EC
  curve registers holding the active buffers: the push is not conditional on anything.

  Leaving manual. From any such state (with a mode array that has an empty slot), setting
  the fan mode to auto succeeds. If the fan mode register held the advanced value, the
  first cells of the active buffers become the bytes that the curve registers held before
  the call (the pull), else the active buffers stay. In both cases the default buffers
  stay and the EC curve registers hold them afterwards: the push of the defaults comes
  after the pull and is not conditional on anything.

  Round trip. Advanced, then auto, then advanced again succeeds three times and never
  changes the buffers of the fan: after the first step the EC curve registers hold the
  active buffers, so that the pull of the second step reads back what the buffers hold;
  after the second step the registers hold the default buffers, and after the third the
  active buffers again.
\<close>

theorem reset_on_auto_round_trip:
  assumes "faults (ec s) = []"
    and "pack_sized (cpu_curve_package s)" "pack_sized (gpu_curve_package s)"
    and "ec_layout_ok (conf s)"
    and "mode_value_of (fm_modes (fan_mode (conf s))) FM_ADVANCED_NAME = Some va"
    and "mode_value_of (fm_modes (fan_mode (conf s))) FM_AUTO_NAME = Some vo"
    and "fan_mode_lookup (fm_modes (fan_mode (conf s))) (of_int va) = Inr (0, Some FM_ADVANCED_NAME)"
    and "managed f (conf s)"
  shows "(\<exists>s1. set_fan_mode FM_ADVANCED_NAME s = (Inr 0, s1) \<and>
               pack_of f s1 = pack_of f s \<and> active_holds f s (ec s1) \<and>
               mem (ec s1) (fan_mode_addr (conf s)) = of_int va)
       \<and> (null_terminated (fm_modes (fan_mode (conf s))) \<longrightarrow>
            (\<exists>s2. set_fan_mode FM_AUTO_NAME s = (Inr 0, s2) \<and>
                   pack_of f s2 = (if advanced_now s
                                   then pulled (curve_of f (conf s)) (pack_of f s) (ec s)
                                   else pack_of f s) \<and>
                   default_holds f s (ec s2) \<and>
                   mem (ec s2) (fan_mode_addr (conf s)) = of_int vo))
       \<and> (\<exists>s1 s2 s3.
             set_fan_mode FM_ADVANCED_NAME s = (Inr 0, s1) \<and>
             set_fan_mode FM_AUTO_NAME s1 = (Inr 0, s2) \<and>
             set_fan_mode FM_ADVANCED_NAME s2 = (Inr 0, s3) \<and>
             pack_of f s1 = pack_of f s \<and> pack_of f s2 = pack_of f s \<and> pack_of f s3 = pack_of f s \<and>
             active_holds f s (ec s1) \<and> default_holds f s (ec s2) \<and> active_holds f s (ec s3))"
proof (intro conjI impI)
  from enter_advanced[OF assms(1-5)] obtain e1 where
    1: "set_fan_mode FM_ADVANCED_NAME s = (Inr 0, s\<lparr>ec := e1\<rparr>)" and f1: "faults e1 = []" and
    m1: "mem e1 (fan_mode_addr (conf s)) = of_int va" and
    h1: "\<And>g. managed g (conf s) \<Longrightarrow> active_holds g s e1"
    by blast
  let ?s1 = "s\<lparr>ec := e1\<rparr>"
  from 1 m1 h1[OF assms(8)]
  show "\<exists>s1. set_fan_mode FM_ADVANCED_NAME s = (Inr 0, s1) \<and>
               pack_of f s1 = pack_of f s \<and> active_holds f s (ec s1) \<and>
               mem (ec s1) (fan_mode_addr (conf s)) = of_int va"
    by (intro exI[of _ ?s1]) simp
  have adv1: "advanced_now ?s1"
    using assms(7) m1 by (simp add: advanced_now_def)
  have "\<exists>s2. set_fan_mode FM_AUTO_NAME ?s1 = (Inr 0, s2) \<and> faults (ec s2) = [] \<and> conf s2 = conf ?s1 \<and>
          (\<forall>g. pack_of g s2 =
                  (if managed g (conf ?s1) \<and> advanced_now ?s1
                   then pulled (curve_of g (conf ?s1)) (pack_of g ?s1) (ec ?s1) else pack_of g ?s1)) \<and>
          (\<forall>g. managed g (conf ?s1) \<longrightarrow> default_holds g ?s1 (ec s2))"
  proof (rule leave_mode[of ?s1 FM_AUTO_NAME vo "(0, Some FM_ADVANCED_NAME)"])
    show "faults (ec ?s1) = []" using f1 by simp
    show "pack_sized (cpu_curve_package ?s1)" "pack_sized (gpu_curve_package ?s1)"
      using assms(2,3) by simp_all
    show "ec_layout_ok (conf ?s1)" using assms(4) by simp
    show "FM_AUTO_NAME \<noteq> FM_ADVANCED_NAME" by simp
    show "mode_value_of (fm_modes (fan_mode (conf ?s1))) FM_AUTO_NAME = Some vo"
      using assms(6) by simp
    show "fan_mode_lookup (fm_modes (fan_mode (conf ?s1))) (mem (ec ?s1) (fan_mode_addr (conf ?s1)))
            = Inr (0, Some FM_ADVANCED_NAME)"
      using assms(7) m1 by simp
  qed blast
  then obtain s2 where
    2: "set_fan_mode FM_AUTO_NAME ?s1 = (Inr 0, s2)" and f2: "faults (ec s2) = []" and
    c2: "conf s2 = conf s" and
    pk2: "\<And>g. pack_of g s2 =
                  (if managed g (conf s) \<and> advanced_now ?s1
                   then pulled (curve_of g (conf s)) (pack_of g s) e1 else pack_of g s)" and
    h2: "\<And>g. managed g (conf s) \<Longrightarrow> default_holds g s (ec s2)"
    by auto
  have same2: "pack_of g s2 = pack_of g s" for g
  proof (cases "managed g (conf s)")
    case True
    from h1[OF True] have "active_holds g ?s1 (ec ?s1)" by simp
    from active_holds_pulled[OF this] pk2[of g] show ?thesis by simp
  next
    case False
    with pk2[of g] show ?thesis by simp
  qed
  have sized2: "pack_sized (cpu_curve_package s2)" "pack_sized (gpu_curve_package s2)"
    using same2[of CPU] same2[of GPU] assms(2,3) by simp_all
  have "\<exists>e3. set_fan_mode FM_ADVANCED_NAME s2 = (Inr 0, s2\<lparr>ec := e3\<rparr>) \<and>
          (\<forall>g. managed g (conf s2) \<longrightarrow> active_holds g s2 e3)"
  proof (rule enter_advanced[of s2 va])
    show "faults (ec s2) = []" by (rule f2)
    show "pack_sized (cpu_curve_package s2)" "pack_sized (gpu_curve_package s2)"
      by (rule sized2)+
    show "ec_layout_ok (conf s2)" using assms(4) c2 by simp
    show "mode_value_of (fm_modes (fan_mode (conf s2))) FM_ADVANCED_NAME = Some va"
      using assms(5) c2 by simp
  qed blast
  then obtain e3 where
    3: "set_fan_mode FM_ADVANCED_NAME s2 = (Inr 0, s2\<lparr>ec := e3\<rparr>)" and
    h3: "\<And>g. managed g (conf s) \<Longrightarrow> active_holds g s2 e3"
    using c2 by auto
  have a3: "active_holds f s e3"
    using h3[OF assms(8)] same2[of f] c2 by (simp add: active_holds_def)
  have d2: "default_holds f s (ec s2)" by (rule h2[OF assms(8)])
  show "\<exists>s1 s2 s3.
             set_fan_mode FM_ADVANCED_NAME s = (Inr 0, s1) \<and>
             set_fan_mode FM_AUTO_NAME s1 = (Inr 0, s2) \<and>
             set_fan_mode FM_ADVANCED_NAME s2 = (Inr 0, s3) \<and>
             pack_of f s1 = pack_of f s \<and> pack_of f s2 = pack_of f s \<and> pack_of f s3 = pack_of f s \<and>
             active_holds f s (ec s1) \<and> default_holds f s (ec s2) \<and> active_holds f s (ec s3)"
    using 1 2 3 h1[OF assms(8)] d2 a3 same2[of f]
    by (intro exI[of _ ?s1] exI[of _ s2] exI[of _ "s2\<lparr>ec := e3\<rparr>"]) simp
next
  assume nt: "null_terminated (fm_modes (fan_mode (conf s)))"
  obtain lr where look:
    "fan_mode_lookup (fm_modes (fan_mode (conf s))) (mem (ec s) (fan_mode_addr (conf s))) = Inr lr"
    using fan_mode_lookup_terminated[OF nt]
    by (cases "fan_mode_lookup (fm_modes (fan_mode (conf s))) (mem (ec s) (fan_mode_addr (conf s)))") auto
  have ne: "FM_AUTO_NAME \<noteq> FM_ADVANCED_NAME" by simp
  from leave_mode[OF assms(1-4) ne assms(6) look] obtain s2 where
    "set_fan_mode FM_AUTO_NAME s = (Inr 0, s2)"
    "mem (ec s2) (fan_mode_addr (conf s)) = of_int vo"
    "\<And>g. pack_of g s2 =
            (if managed g (conf s) \<and> advanced_now s
             then pulled (curve_of g (conf s)) (pack_of g s) (ec s) else pack_of g s)"
    "\<And>g. managed g (conf s) \<Longrightarrow> default_holds g s (ec s2)"
    by blast
  with assms(8)
  show "\<exists>s2. set_fan_mode FM_AUTO_NAME s = (Inr 0, s2) \<and>
                   pack_of f s2 = (if advanced_now s
                                   then pulled (curve_of f (conf s)) (pack_of f s) (ec s)
                                   else pack_of f s) \<and>
                   default_holds f s (ec s2) \<and>
                   mem (ec s2) (fan_mode_addr (conf s)) = of_int vo"
    by (intro exI[of _ s2]) simp
qed


text \<open>
  On the Claw, for the CPU fan, from the advanced mode with EC curve registers that are
  all zero. Entering manual leaves the active speeds in the speed registers \<^verbatim>\<open>0x72\<close> to
  \<^verbatim>\<open>0x78\<close>. Leaving manual from this state pulls the zeros of the registers into the active
  buffers and leaves the default speeds in the registers; from the auto mode (register
  \<^verbatim>\<open>0xd4\<close> holds 0) it pulls nothing and leaves the default speeds in the registers as
  well. After the round trip the registers hold the active speeds.
\<close>

theorem reset_on_auto_round_trip_witness:
  "(\<exists>s1. set_fan_mode FM_ADVANCED_NAME (claw (- 1, - 1) 0x80 []) = (Inr 0, s1) \<and>
         pack_of CPU s1 = pack_of CPU (claw (- 1, - 1) 0x80 []) \<and>
         active_holds CPU (claw (- 1, - 1) 0x80 []) (ec s1) \<and>
         mem (ec s1) (fan_mode_addr (conf (claw (- 1, - 1) 0x80 []))) = of_int 0x80)
   \<and> (\<exists>s2. set_fan_mode FM_AUTO_NAME (claw (- 1, - 1) 0x80 []) = (Inr 0, s2) \<and>
         pack_of CPU s2 = pulled (curve_of CPU (conf (claw (- 1, - 1) 0x80 [])))
                            (pack_of CPU (claw (- 1, - 1) 0x80 [])) (ec (claw (- 1, - 1) 0x80 [])) \<and>
         default_holds CPU (claw (- 1, - 1) 0x80 []) (ec s2) \<and>
         mem (ec s2) (fan_mode_addr (conf (claw (- 1, - 1) 0x80 []))) = of_int 0)
   \<and> (\<exists>s1 s2 s3.
         set_fan_mode FM_ADVANCED_NAME (claw (- 1, - 1) 0x80 []) = (Inr 0, s1) \<and>
         set_fan_mode FM_AUTO_NAME s1 = (Inr 0, s2) \<and>
         set_fan_mode FM_ADVANCED_NAME s2 = (Inr 0, s3) \<and>
         pack_of CPU s1 = pack_of CPU (claw (- 1, - 1) 0x80 []) \<and>
         pack_of CPU s2 = pack_of CPU (claw (- 1, - 1) 0x80 []) \<and>
         pack_of CPU s3 = pack_of CPU (claw (- 1, - 1) 0x80 []) \<and>
         active_holds CPU (claw (- 1, - 1) 0x80 []) (ec s1) \<and>
         default_holds CPU (claw (- 1, - 1) 0x80 []) (ec s2) \<and>
         active_holds CPU (claw (- 1, - 1) 0x80 []) (ec s3))
   \<and> map (mem (ec (snd (set_fan_mode FM_ADVANCED_NAME (claw (- 1, - 1) 0x80 [])))))
         [0x72, 0x73, 0x74, 0x75, 0x76, 0x77, 0x78]
       = [0, 20, 40, 60, 80, 100, 150]
   \<and> take 7 (curve_fan_speed (pack_of CPU (claw (- 1, - 1) 0x80 []))) = [0, 20, 40, 60, 80, 100, 150]
   \<and> take 7 (curve_fan_speed (pack_of CPU (snd (set_fan_mode FM_AUTO_NAME (claw (- 1, - 1) 0x80 [])))))
       = [0, 0, 0, 0, 0, 0, 0]
   \<and> map (mem (ec (snd (set_fan_mode FM_AUTO_NAME (claw (- 1, - 1) 0x80 [])))))
         [0x72, 0x73, 0x74, 0x75, 0x76, 0x77, 0x78]
       = [0, 30, 45, 60, 75, 90, 100]
   \<and> take 7 (curve_fan_speed (pack_of CPU (snd (set_fan_mode FM_AUTO_NAME (claw (- 1, - 1) 0 [])))))
       = [0, 20, 40, 60, 80, 100, 150]
   \<and> map (mem (ec (snd (set_fan_mode FM_AUTO_NAME (claw (- 1, - 1) 0 [])))))
         [0x72, 0x73, 0x74, 0x75, 0x76, 0x77, 0x78]
       = [0, 30, 45, 60, 75, 90, 100]
   \<and> map (mem (ec (snd (set_fan_mode FM_AUTO_NAME
            (snd (set_fan_mode FM_ADVANCED_NAME (claw (- 1, - 1) 0x80 [])))))))
         [0x72, 0x73, 0x74, 0x75, 0x76, 0x77, 0x78]
       = [0, 30, 45, 60, 75, 90, 100]
   \<and> map (mem (ec (snd (set_fan_mode FM_ADVANCED_NAME (snd (set_fan_mode FM_AUTO_NAME
            (snd (set_fan_mode FM_ADVANCED_NAME (claw (- 1, - 1) 0x80 [])))))))))
         [0x72, 0x73, 0x74, 0x75, 0x76, 0x77, 0x78]
       = [0, 20, 40, 60, 80, 100, 150]"
proof -
  let ?s = "claw (- 1, - 1) 0x80 []"
  have h: "faults (ec ?s) = []" "pack_sized (cpu_curve_package ?s)" "pack_sized (gpu_curve_package ?s)"
    "ec_layout_ok (conf ?s)"
    "mode_value_of (fm_modes (fan_mode (conf ?s))) FM_ADVANCED_NAME = Some 0x80"
    "mode_value_of (fm_modes (fan_mode (conf ?s))) FM_AUTO_NAME = Some 0"
    "fan_mode_lookup (fm_modes (fan_mode (conf ?s))) (of_int 0x80) = Inr (0, Some FM_ADVANCED_NAME)"
    "managed CPU (conf ?s)"
    by code_simp+
  have nt: "null_terminated (fm_modes (fan_mode (conf ?s)))" by code_simp
  have adv: "advanced_now ?s" by code_simp
  have a: "map (mem (ec (snd (set_fan_mode FM_ADVANCED_NAME ?s)))) [0x72, 0x73, 0x74, 0x75, 0x76, 0x77, 0x78]
       = [0, 20, 40, 60, 80, 100, 150]"
    by code_simp
  have b: "take 7 (curve_fan_speed (pack_of CPU ?s)) = [0, 20, 40, 60, 80, 100, 150]"
    by code_simp
  have c: "take 7 (curve_fan_speed (pack_of CPU (snd (set_fan_mode FM_AUTO_NAME ?s))))
       = [0, 0, 0, 0, 0, 0, 0]"
    by code_simp
  have d: "map (mem (ec (snd (set_fan_mode FM_AUTO_NAME ?s)))) [0x72, 0x73, 0x74, 0x75, 0x76, 0x77, 0x78]
       = [0, 30, 45, 60, 75, 90, 100]"
    by code_simp
  have e: "take 7 (curve_fan_speed (pack_of CPU (snd (set_fan_mode FM_AUTO_NAME (claw (- 1, - 1) 0 [])))))
       = [0, 20, 40, 60, 80, 100, 150]"
    by code_simp
  have f: "map (mem (ec (snd (set_fan_mode FM_AUTO_NAME (claw (- 1, - 1) 0 [])))))
         [0x72, 0x73, 0x74, 0x75, 0x76, 0x77, 0x78]
       = [0, 30, 45, 60, 75, 90, 100]"
    by code_simp
  have g: "map (mem (ec (snd (set_fan_mode FM_AUTO_NAME
            (snd (set_fan_mode FM_ADVANCED_NAME ?s)))))) [0x72, 0x73, 0x74, 0x75, 0x76, 0x77, 0x78]
       = [0, 30, 45, 60, 75, 90, 100]"
    by code_simp
  have i: "map (mem (ec (snd (set_fan_mode FM_ADVANCED_NAME (snd (set_fan_mode FM_AUTO_NAME
            (snd (set_fan_mode FM_ADVANCED_NAME ?s)))))))) [0x72, 0x73, 0x74, 0x75, 0x76, 0x77, 0x78]
       = [0, 20, 40, 60, 80, 100, 150]"
    by code_simp
  note t = reset_on_auto_round_trip[OF h]
  from t have 1: "\<exists>s1. set_fan_mode FM_ADVANCED_NAME ?s = (Inr 0, s1) \<and>
         pack_of CPU s1 = pack_of CPU ?s \<and> active_holds CPU ?s (ec s1) \<and>
         mem (ec s1) (fan_mode_addr (conf ?s)) = of_int 0x80"
    by blast
  from t nt have "\<exists>s2. set_fan_mode FM_AUTO_NAME ?s = (Inr 0, s2) \<and>
         pack_of CPU s2 = (if advanced_now ?s
                           then pulled (curve_of CPU (conf ?s)) (pack_of CPU ?s) (ec ?s)
                           else pack_of CPU ?s) \<and>
         default_holds CPU ?s (ec s2) \<and>
         mem (ec s2) (fan_mode_addr (conf ?s)) = of_int 0"
    by blast
  then have 2: "\<exists>s2. set_fan_mode FM_AUTO_NAME ?s = (Inr 0, s2) \<and>
         pack_of CPU s2 = pulled (curve_of CPU (conf ?s)) (pack_of CPU ?s) (ec ?s) \<and>
         default_holds CPU ?s (ec s2) \<and>
         mem (ec s2) (fan_mode_addr (conf ?s)) = of_int 0"
    by (simp only: adv if_True)
  from t have 3: "\<exists>s1 s2 s3.
         set_fan_mode FM_ADVANCED_NAME ?s = (Inr 0, s1) \<and>
         set_fan_mode FM_AUTO_NAME s1 = (Inr 0, s2) \<and>
         set_fan_mode FM_ADVANCED_NAME s2 = (Inr 0, s3) \<and>
         pack_of CPU s1 = pack_of CPU ?s \<and> pack_of CPU s2 = pack_of CPU ?s \<and>
         pack_of CPU s3 = pack_of CPU ?s \<and>
         active_holds CPU ?s (ec s1) \<and> default_holds CPU ?s (ec s2) \<and> active_holds CPU ?s (ec s3)"
    by blast
  from 1 2 3 a b c d e f g i show ?thesis
    by (intro conjI)
qed


section \<open>The auto request of the PWM-enable write and the cached states of the channels\<close>





lemma set_pack_fields [simp]:
  "conf (set_pack g p s) = conf s"
  "ec (set_pack g p s) = ec s"
  "virtual_hwmon_pwm_enable (set_pack g p s) = virtual_hwmon_pwm_enable s"
  by (cases g; simp)+











lemma virtual_set_fields [simp]:
  "conf (virtual_set c v s) = conf s"
  "ec (virtual_set c v s) = ec s"
  by (simp_all add: virtual_set_def)










end
